theory Spec2Isabelle
  imports Complex_Main "HOL-Library.Sublist" "HOL-Library.List_Lexorder"
begin

section \<open>JavaScript strings\<close>

text \<open>
  A JavaScript string is a sequence of UTF-16 code units. A code unit is modelled as a
  natural number and a string as a list of them, so that the characters the source names
  outside ASCII (the dashes U+2013 and U+2014, the bullet U+2022, the curly quotes U+201C
  and U+201D, the letter U+00E9) are ordinary values. \<open>js\<close> reads an ASCII literal.
\<close>

type_synonym jschar = nat
type_synonym jsstring = "jschar list"

definition js :: "string \<Rightarrow> jsstring" where
  "js s = map of_char s"

text \<open>
  The class \<open>\s\<close> of a regular expression, which is also the set of characters that
  \<open>String.prototype.trim\<close> removes: WhiteSpace and LineTerminator of ECMAScript.
\<close>

definition isSpace :: "jschar \<Rightarrow> bool" where
  "isSpace c = (c = 9 \<or> c = 10 \<or> c = 11 \<or> c = 12 \<or> c = 13 \<or> c = 32 \<or> c = 160
     \<or> c = 5760 \<or> (8192 \<le> c \<and> c \<le> 8202) \<or> c = 8232 \<or> c = 8233 \<or> c = 8239
     \<or> c = 8287 \<or> c = 12288 \<or> c = 65279)"

definition SP :: jschar where
  "SP = 32"

text \<open>\<open>s.trim()\<close>.\<close>

definition trimStart :: "jsstring \<Rightarrow> jsstring" where
  "trimStart s = dropWhile isSpace s"

definition trimEnd :: "jsstring \<Rightarrow> jsstring" where
  "trimEnd s = rev (dropWhile isSpace (rev s))"

definition trim :: "jsstring \<Rightarrow> jsstring" where
  "trim s = trimEnd (trimStart s)"

text \<open>
  \<open>s.split(/C+/)\<close> for a character class \<open>C\<close>: the pieces between the maximal runs of
  \<open>C\<close>, with an empty piece before a leading run and after a trailing one.
\<close>

definition startsWith :: "(jschar \<Rightarrow> bool) \<Rightarrow> jsstring \<Rightarrow> bool" where
  "startsWith P s = (case s of [] \<Rightarrow> False | c # _ \<Rightarrow> P c)"

fun splitRuns :: "(jschar \<Rightarrow> bool) \<Rightarrow> jsstring \<Rightarrow> jsstring list" where
  "splitRuns P [] = [[]]"
| "splitRuns P (c # cs) =
     (if P c then (if startsWith P cs then splitRuns P cs else [] # splitRuns P cs)
      else (case splitRuns P cs of [] \<Rightarrow> [[c]] | p # ps \<Rightarrow> (c # p) # ps))"

text \<open>\<open>s.split(c)\<close> for a one-character separator: every occurrence separates.\<close>

fun splitChar :: "jschar \<Rightarrow> jsstring \<Rightarrow> jsstring list" where
  "splitChar x [] = [[]]"
| "splitChar x (c # cs) =
     (if c = x then [] # splitChar x cs
      else (case splitChar x cs of [] \<Rightarrow> [[c]] | p # ps \<Rightarrow> (c # p) # ps))"

text \<open>\<open>xs.join(sep)\<close>.\<close>

fun joinWith :: "jsstring \<Rightarrow> jsstring list \<Rightarrow> jsstring" where
  "joinWith sep [] = []"
| "joinWith sep [x] = x"
| "joinWith sep (x # y # ys) = x @ sep @ joinWith sep (y # ys)"

text \<open>\<open>xs.filter(Boolean)\<close> on strings: the empty string is the only falsy one.\<close>

definition filterBoolean :: "jsstring list \<Rightarrow> jsstring list" where
  "filterBoolean xs = filter (\<lambda>x. x \<noteq> []) xs"

text \<open>
  The number of white-space-delimited tokens of a string:
  \<open>s.split(/\s+/).filter(Boolean).length\<close>.
\<close>

definition countWords :: "jsstring \<Rightarrow> nat" where
  "countWords s = length (filterBoolean (splitRuns isSpace s))"

text \<open>A regular expression tried at every position of the string, leftmost first.\<close>

fun anywhere :: "(jsstring \<Rightarrow> bool) \<Rightarrow> jsstring \<Rightarrow> bool" where
  "anywhere P [] = P []"
| "anywhere P (c # cs) = (P (c # cs) \<or> anywhere P cs)"

definition isDigit :: "jschar \<Rightarrow> bool" where
  "isDigit c = (48 \<le> c \<and> c \<le> 57)"

section \<open>The CV document (main.js, \<open>CV\<close>)\<close>

record contact =
  email :: jsstring
  phone :: jsstring
  website :: jsstring
  linkedin :: jsstring
  github :: jsstring

record profile =
  name :: jsstring
  title :: jsstring
  location :: jsstring
  contact :: contact
  summary :: jsstring

record experience =
  company :: jsstring
  role :: jsstring
  exp_location :: jsstring
  exp_start :: jsstring
  exp_end :: jsstring
  bullets :: "jsstring list"

record education =
  institution :: jsstring
  degree :: jsstring
  edu_start :: jsstring
  edu_end :: jsstring

record certification =
  cert_name :: jsstring
  issuer :: jsstring
  cert_date :: jsstring
  cert_link :: jsstring

record project =
  proj_name :: jsstring
  proj_link :: jsstring
  proj_bullets :: "jsstring list"

record publication =
  pub_title :: jsstring
  authors :: jsstring
  venue :: jsstring
  pub_date :: jsstring
  doi :: jsstring
  pub_link :: jsstring

record patent =
  pat_title :: jsstring
  office :: jsstring
  number :: jsstring
  pat_date :: jsstring
  status :: jsstring
  pat_link :: jsstring
  inventors :: jsstring

record meta =
  countryPack :: jsstring
  atsStrict :: bool
  meta_locale :: jsstring

record cv =
  profile :: profile
  experience :: "experience list"
  education :: "education list"
  skills :: "jsstring list"
  certifications :: "certification list"
  projects :: "project list"
  publications :: "publication list"
  patents :: "patent list"
  meta :: meta

section \<open>The ATS linter (lib/ats.js)\<close>

text \<open>
  \<open>STANDARD_HEADINGS\<close>. The German and French entries are written by their code units:
  \<open>F\<close> U+00E4 \<open>higkeiten\<close>, \<open>Exp\<close> U+00E9 \<open>rience\<close>, U+00C9 \<open>ducation\<close>,
  \<open>Comp\<close> U+00E9 \<open>tences\<close>.
\<close>

definition STANDARD_HEADINGS :: "jsstring list" where
  "STANDARD_HEADINGS =
     [js ''Summary'', js ''Experience'', js ''Education'', js ''Skills'', js ''Projects'',
      js ''Certifications'',
      js ''Profil'', js ''Berufserfahrung'', js ''Ausbildung'',
      js ''F'' @ [228] @ js ''higkeiten'',
      js ''Exp'' @ [233] @ js ''rience'',
      [201] @ js ''ducation'',
      js ''Comp'' @ [233] @ js ''tences'']"

text \<open>The rule pack fields the linter reads; \<open>None\<close> is an absent \<open>page_limit\<close>.\<close>

record pack =
  page_limit :: "nat option"
  photo_allowed :: bool
  date_format :: jsstring
  spelling :: jsstring
  sections :: "jsstring list"
  pack_notes :: "jsstring list"

text \<open>
  What \<open>lintCV\<close> asks of the rendered preview: \<open>querySelector('table')\<close>,
  \<open>querySelector('img')\<close> and \<open>querySelectorAll('*').length\<close>.
\<close>

record preview =
  hasTable :: bool
  hasImg :: bool
  elementCount :: nat

datatype warning =
    PageLimit nat "nat option" jsstring
  | NonStandardHeading jsstring
  | NoStandardDates
  | TablesDetected
  | ImagesDetected
  | OverlyComplex

text \<open>\<open>collectHeadings\<close>: a heading for every populated section.\<close>

definition collectHeadings :: "cv \<Rightarrow> jsstring list" where
  "collectHeadings c =
     (if summary (profile c) \<noteq> [] then [js ''Summary''] else []) @
     (if experience c \<noteq> [] then [js ''Experience''] else []) @
     (if education c \<noteq> [] then [js ''Education''] else []) @
     (if skills c \<noteq> [] then [js ''Skills''] else []) @
     (if projects c \<noteq> [] then [js ''Projects''] else []) @
     (if certifications c \<noteq> [] then [js ''Certifications''] else [])"

text \<open>\<open>textContentFromCV\<close>: the text fields, joined by single spaces.\<close>

definition textContentFromCV :: "cv \<Rightarrow> jsstring" where
  "textContentFromCV c =
     joinWith [SP]
       ([name (profile c), title (profile c), summary (profile c)] @
        concat (map (\<lambda>e. [company e, role e] @ bullets e) (experience c)) @
        concat (map (\<lambda>ed. [institution ed, degree ed]) (education c)) @
        skills c)"

text \<open>\<open>textContentFromCV(cv).split(/\s+/).filter(Boolean).length\<close>.\<close>

definition wordCount :: "cv \<Rightarrow> nat" where
  "wordCount c = countWords (textContentFromCV c)"

text \<open>
  \<open>Math.max(1, Math.round(wordCount / 500))\<close>. \<open>Math.round\<close> rounds to the nearest
  integer and a tie upwards, which on the quotient of a natural number by 500 is
  \<open>(n + 250) div 500\<close>.
\<close>

definition estPages :: "nat \<Rightarrow> nat" where
  "estPages n = max 1 ((n + 250) div 500)"

text \<open>\<open>countryPack.page_limit || 2\<close>: an absent limit and the limit 0 are falsy.\<close>

definition effectiveLimit :: "pack \<Rightarrow> nat" where
  "effectiveLimit p = (case page_limit p of None \<Rightarrow> 2 | Some l \<Rightarrow> if l = 0 then 2 else l)"

text \<open>
  \<open>dateRegex\<close>: a month abbreviation, one white space character and four digits, or two
  digits, a slash and four digits.
\<close>

definition months :: "jsstring list" where
  "months = [js ''Jan'', js ''Feb'', js ''Mar'', js ''Apr'', js ''May'', js ''Jun'',
             js ''Jul'', js ''Aug'', js ''Sep'', js ''Oct'', js ''Nov'', js ''Dec'']"

definition fourDigits :: "jsstring \<Rightarrow> bool" where
  "fourDigits s = (4 \<le> length s \<and> list_all isDigit (take 4 s))"

definition dateAt :: "jsstring \<Rightarrow> bool" where
  "dateAt s =
     (list_ex (\<lambda>m. take 3 s = m \<and>
                (case drop 3 s of [] \<Rightarrow> False | w # r \<Rightarrow> isSpace w \<and> fourDigits r)) months
      \<or> (2 \<le> length s \<and> list_all isDigit (take 2 s) \<and>
          (case drop 2 s of [] \<Rightarrow> False | w # r \<Rightarrow> w = 47 \<and> fourDigits r)))"

definition dateRegex :: "jsstring \<Rightarrow> bool" where
  "dateRegex s = anywhere dateAt s"

text \<open>
  \<open>lintCV\<close>. \<open>JSON.stringify\<close> is a parameter: the linter only searches its result for a
  date. The preview is optional, as the third argument of the source is.
\<close>

definition lintCV :: "(cv \<Rightarrow> jsstring) \<Rightarrow> cv \<Rightarrow> pack \<Rightarrow> preview option \<Rightarrow> warning list" where
  "lintCV stringify c p htmlPreview =
     (if estPages (wordCount c) > effectiveLimit p
      then [PageLimit (estPages (wordCount c)) (page_limit p) (countryPack (meta c))] else []) @
     map NonStandardHeading (filter (\<lambda>h. h \<notin> set STANDARD_HEADINGS) (collectHeadings c)) @
     (if \<not> dateRegex (stringify c) then [NoStandardDates] else []) @
     (case htmlPreview of
        None \<Rightarrow> []
      | Some h \<Rightarrow>
          (if hasTable h then [TablesDetected] else []) @
          (if hasImg h then [ImagesDetected] else []) @
          (if elementCount h > 2000 then [OverlyComplex] else []))"

fun isNonStandardHeading :: "warning \<Rightarrow> bool" where
  "isNonStandardHeading (NonStandardHeading h) = True"
| "isNonStandardHeading w = False"

fun isPageLimit :: "warning \<Rightarrow> bool" where
  "isPageLimit (PageLimit e l k) = True"
| "isPageLimit w = False"

text \<open>
  An example document of 1100 words (its skills list holds the word \<open>x\<close> 1100 times) and
  the built-in rule pack of the US, whose page limit is 1.
\<close>

definition emptyProfile :: profile where
  "emptyProfile = \<lparr> name = [], title = [], location = [],
     contact = \<lparr> email = [], phone = [], website = [], linkedin = [], github = [] \<rparr>,
     summary = [] \<rparr>"

definition cv1100 :: cv where
  "cv1100 = \<lparr> profile = emptyProfile, experience = [], education = [],
     skills = replicate 1100 (js ''x''), certifications = [], projects = [],
     publications = [], patents = [],
     meta = \<lparr> countryPack = js ''US'', atsStrict = True, meta_locale = js ''auto'' \<rparr> \<rparr>"

definition packUS :: pack where
  "packUS = \<lparr> page_limit = Some 1, photo_allowed = False,
     date_format = js ''MMM YYYY'' @ [8211] @ js ''MMM YYYY'', spelling = js ''en-US'',
     sections = [js ''Summary'', js ''Experience'', js ''Education'', js ''Projects'',
                 js ''Skills'', js ''Certifications'', js ''Publications'', js ''Patents''],
     pack_notes = [js ''Early-career resumes typically 1 page.'',
                   js ''Avoid headers/footers for key info.'',
                   js ''Single column. No graphics.''] \<rparr>"

section \<open>Regular expression helpers\<close>

text \<open>The class \<open>\w\<close>: ASCII letters, digits and the underscore.\<close>

definition isWordChar :: "jschar \<Rightarrow> bool" where
  "isWordChar c = ((48 \<le> c \<and> c \<le> 57) \<or> (65 \<le> c \<and> c \<le> 90) \<or> c = 95 \<or> (97 \<le> c \<and> c \<le> 122))"

text \<open>The characters that \<open>.\<close> does not match.\<close>

definition isLineTerminator :: "jschar \<Rightarrow> bool" where
  "isLineTerminator c = (c = 10 \<or> c = 13 \<or> c = 8232 \<or> c = 8233)"

text \<open>
  Matching under the flag \<open>i\<close> (without \<open>u\<close>) compares the canonical forms of the two
  characters, their upper-case mappings. \<open>canonicalize\<close> gives it on the characters the
  patterns of the source are made of (ASCII and U+00E9): no character outside ASCII is
  canonicalized to an ASCII one, and only U+00E9 and U+00C9 have the canonical form
  U+00C9, so a character matches a pattern character exactly when the two have the same
  value under \<open>canonicalize\<close>.
\<close>

definition canonicalize :: "jschar \<Rightarrow> jschar" where
  "canonicalize c = (if 97 \<le> c \<and> c \<le> 122 then c - 32 else if c = 233 then 201 else c)"

text \<open>A literal matched at the start of the string under the flag \<open>i\<close>; the rest is returned.\<close>

fun ciStrip :: "jsstring \<Rightarrow> jsstring \<Rightarrow> jsstring option" where
  "ciStrip [] s = Some s"
| "ciStrip (p # ps) [] = None"
| "ciStrip (p # ps) (c # cs) =
     (if canonicalize c = canonicalize p then ciStrip ps cs else None)"

text \<open>
  Patterns anchored at the start of the string are written with backtracking matchers in
  continuation-passing style: a matcher takes the continuation that matches the rest of
  the pattern and the string, and returns what is left of the string after the whole
  match, or \<open>None\<close>. Alternatives are tried in the order of the pattern, a greedy star
  tries the longest repetition first.
\<close>

type_synonym rx = "(jsstring \<Rightarrow> jsstring option) \<Rightarrow> jsstring \<Rightarrow> jsstring option"

definition rxLit :: "jsstring \<Rightarrow> rx" where
  "rxLit p k s = (case ciStrip p s of None \<Rightarrow> None | Some r \<Rightarrow> k r)"

definition rxChar :: "(jschar \<Rightarrow> bool) \<Rightarrow> rx" where
  "rxChar P k s = (case s of [] \<Rightarrow> None | c # cs \<Rightarrow> if P c then k cs else None)"

definition rxAlt :: "rx \<Rightarrow> rx \<Rightarrow> rx" where
  "rxAlt a b k s = (case a k s of Some r \<Rightarrow> Some r | None \<Rightarrow> b k s)"

definition rxSeq :: "rx \<Rightarrow> rx \<Rightarrow> rx" where
  "rxSeq a b k = a (b k)"

definition rxOpt :: "rx \<Rightarrow> rx" where
  "rxOpt a k s = (case a k s of Some r \<Rightarrow> Some r | None \<Rightarrow> k s)"

fun rxStar :: "(jschar \<Rightarrow> bool) \<Rightarrow> rx" where
  "rxStar P k [] = k []"
| "rxStar P k (c # cs) =
     (if P c then (case rxStar P k cs of Some r \<Rightarrow> Some r | None \<Rightarrow> k (c # cs))
      else k (c # cs))"

text \<open>\<open>s.replace(re, '')\<close> for a pattern \<open>re\<close> without the flag \<open>g\<close> that starts with \<open>^\<close>.\<close>

definition removePrefixMatch :: "rx \<Rightarrow> jsstring \<Rightarrow> jsstring" where
  "removePrefixMatch re s = (case re Some s of None \<Rightarrow> s | Some r \<Rightarrow> r)"

text \<open>
  A word \<open>w\<close> between two \<open>\b\<close> at the current position; \<open>prev\<close> is the character before
  the position. The words of the source start and end with a word character, so the
  boundary before holds when the previous character is no word character (or there is
  none), and the boundary after when the next one is none.
\<close>

definition wordAt :: "jsstring \<Rightarrow> jschar option \<Rightarrow> jsstring \<Rightarrow> jsstring option" where
  "wordAt w prev s =
     (if (case prev of None \<Rightarrow> False | Some c \<Rightarrow> isWordChar c) then None
      else (case ciStrip w s of None \<Rightarrow> None
            | Some r \<Rightarrow> if startsWith isWordChar r then None else Some r))"

text \<open>
  The leftmost match of a pattern, tried at every position from left to right: \<open>m prev s\<close>
  is the rest of the string after a match at the current position. \<open>removeFirst\<close> is
  \<open>s.replace(re, '')\<close> without the flag \<open>g\<close>, \<open>matchesAnywhere\<close> is \<open>re.test(s)\<close>.
\<close>

fun removeFirst :: "(jschar option \<Rightarrow> jsstring \<Rightarrow> jsstring option) \<Rightarrow> jschar option \<Rightarrow> jsstring \<Rightarrow> jsstring" where
  "removeFirst m prev [] = (case m prev [] of None \<Rightarrow> [] | Some r \<Rightarrow> r)"
| "removeFirst m prev (c # cs) =
     (case m prev (c # cs) of None \<Rightarrow> c # removeFirst m (Some c) cs | Some r \<Rightarrow> r)"

fun matchesAnywhere :: "(jschar option \<Rightarrow> jsstring \<Rightarrow> jsstring option) \<Rightarrow> jschar option \<Rightarrow> jsstring \<Rightarrow> bool" where
  "matchesAnywhere m prev [] = (m prev [] \<noteq> None)"
| "matchesAnywhere m prev (c # cs) = (m prev (c # cs) \<noteq> None \<or> matchesAnywhere m (Some c) cs)"

text \<open>
  \<open>s.replace(new RegExp(p, 'ig'), '')\<close> for a literal \<open>p\<close>: every occurrence, found from
  left to right, the search going on after the end of each.
\<close>

fun removeAllCI :: "jsstring \<Rightarrow> nat \<Rightarrow> jsstring \<Rightarrow> jsstring" where
  "removeAllCI p skip [] = []"
| "removeAllCI p skip (c # cs) =
     (if 0 < skip then removeAllCI p (skip - 1) cs
      else if p \<noteq> [] \<and> ciStrip p (c # cs) \<noteq> None then removeAllCI p (length p - 1) cs
      else c # removeAllCI p 0 cs)"

section \<open>The sanitizers (main.js)\<close>

definition MAX_ROLE_WORDS :: nat where "MAX_ROLE_WORDS = 10"
definition MAX_TITLE_WORDS :: nat where "MAX_TITLE_WORDS = 12"
definition MAX_BULLET_WORDS :: nat where "MAX_BULLET_WORDS = 22"

text \<open>\<open>SENTENCE_PUNCT_RE\<close>, the class \<open>[.?!:;]\<close>.\<close>

definition isSentencePunct :: "jschar \<Rightarrow> bool" where
  "isSentencePunct c = (c = 46 \<or> c = 63 \<or> c = 33 \<or> c = 58 \<or> c = 59)"

text \<open>The class \<open>[-\<dots>]\<close> of \<open>BULLET_MARK_RE\<close>: hyphen, U+2013, U+2014 and U+2022.\<close>

definition isBulletMark :: "jschar \<Rightarrow> bool" where
  "isBulletMark c = (c = 45 \<or> c = 8211 \<or> c = 8212 \<or> c = 8226)"

text \<open>\<open>BULLET_MARK_RE\<close>, \<open>/^\s*[-\<dots>]\s*/\<close>.\<close>

definition BULLET_MARK_RE :: rx where
  "BULLET_MARK_RE = rxSeq (rxStar isSpace) (rxSeq (rxChar isBulletMark) (rxStar isSpace))"

definition ACTION_VERBS :: "jsstring list" where
  "ACTION_VERBS = [js ''developed'', js ''implemented'', js ''improved'', js ''collaborated'',
     js ''built'', js ''designed'', js ''contributed'', js ''deployed'', js ''led'',
     js ''optimized'', js ''analysed'', js ''analyzed'', js ''managed'', js ''reduced'',
     js ''increased'', js ''resolved'', js ''created'']"

text \<open>\<open>ACTION_VERB_RE.test(s)\<close>: one of the verbs as a whole word, in any case, anywhere.\<close>

definition ACTION_VERB_RE :: "jsstring \<Rightarrow> bool" where
  "ACTION_VERB_RE s =
     matchesAnywhere (\<lambda>prev t. if list_ex (\<lambda>v. wordAt v prev t \<noteq> None) ACTION_VERBS
                                then Some t else None) None s"

text \<open>
  \<open>META_LINE_RE\<close>:
  \<open>/^\s*(here('?s)? (the )?(correct(ed)?|fixed) text|original (r\<dots>sum\<dots>|resume) text|corrected (r\<dots>sum\<dots>|resume) text|as an ai|note:)/i\<close>,
  where the accented word is \<open>r\<close> U+00E9 \<open>sum\<close> U+00E9.
\<close>

definition resumeWord :: rx where
  "resumeWord = rxAlt (rxLit (js ''r'' @ [233] @ js ''sum'' @ [233])) (rxLit (js ''resume''))"

definition META_LINE_RE :: rx where
  "META_LINE_RE =
     rxSeq (rxStar isSpace)
       (rxAlt (rxSeq (rxLit (js ''here''))
                (rxSeq (rxOpt (rxSeq (rxOpt (rxLit [39])) (rxLit (js ''s''))))
                (rxSeq (rxLit (js '' ''))
                (rxSeq (rxOpt (rxLit (js ''the '')))
                (rxSeq (rxAlt (rxSeq (rxLit (js ''correct'')) (rxOpt (rxLit (js ''ed''))))
                              (rxLit (js ''fixed'')))
                       (rxLit (js '' text'')))))))
       (rxAlt (rxSeq (rxLit (js ''original '')) (rxSeq resumeWord (rxLit (js '' text''))))
       (rxAlt (rxSeq (rxLit (js ''corrected '')) (rxSeq resumeWord (rxLit (js '' text''))))
       (rxAlt (rxLit (js ''as an ai''))
              (rxLit (js ''note:''))))))"

text \<open>\<open>CODE_FENCE_RE\<close>, \<open>/^`{3,}|`{3,}$/g\<close>, replaced by the empty string: a run of three or
  more backticks at the start is removed, then one at the end of what is left.\<close>

definition stripCodeFence :: "jsstring \<Rightarrow> jsstring" where
  "stripCodeFence t =
     (let n = length (takeWhile (\<lambda>c. c = 96) t);
          t1 = (if 3 \<le> n then drop n t else t);
          m = length (takeWhile (\<lambda>c. c = 96) (rev t1))
      in if 3 \<le> m then take (length t1 - m) t1 else t1)"

definition BAD_PHRASES :: "jsstring list" where
  "BAD_PHRASES =
     [js ''Original R'' @ [233] @ js ''sum'' @ [233] @ js '' Text'',
      js ''Corrected R'' @ [233] @ js ''sum'' @ [233] @ js '' Text'',
      js ''Here is the corrected text'', js ''I am an AI'', js ''as an AI'']"

text \<open>\<open>(?:original|corrected)[^:]*:\<close>, the label that \<open>stripMeta\<close> removes.\<close>

definition labelRx :: "rx \<Rightarrow> rx" where
  "labelRx colon =
     rxSeq (rxAlt (rxLit (js ''original'')) (rxLit (js ''corrected'')))
       (rxSeq (rxStar (\<lambda>c. c \<noteq> 58)) colon)"

text \<open>\<open>sanitizeOneLine\<close>: \<open>/\r?\n+/g\<close> and then \<open>/\s+/g\<close> replaced by a space, and trimmed.\<close>

fun replaceNewlines :: "jsstring \<Rightarrow> jsstring" where
  "replaceNewlines [] = []"
| "replaceNewlines (c # cs) =
     (if c = 10 then (if startsWith (\<lambda>d. d = 10) cs then replaceNewlines cs
                      else SP # replaceNewlines cs)
      else if c = 13 \<and> startsWith (\<lambda>d. d = 10) cs then replaceNewlines cs
      else c # replaceNewlines cs)"

fun collapseSpaces :: "jsstring \<Rightarrow> jsstring" where
  "collapseSpaces [] = []"
| "collapseSpaces (c # cs) =
     (if isSpace c then (if startsWith isSpace cs then collapseSpaces cs
                         else SP # collapseSpaces cs)
      else c # collapseSpaces cs)"

definition sanitizeOneLine :: "jsstring \<Rightarrow> jsstring" where
  "sanitizeOneLine s = trim (collapseSpaces (replaceNewlines s))"

text \<open>\<open>firstClause\<close>: the piece before the first sentence punctuation, on one line.\<close>

definition firstClause :: "jsstring \<Rightarrow> jsstring" where
  "firstClause s = sanitizeOneLine (takeWhile (\<lambda>c. \<not> isSentencePunct c) s)"

definition capWords :: "jsstring \<Rightarrow> nat \<Rightarrow> jsstring" where
  "capWords s n = joinWith [SP] (take n (filterBoolean (splitChar SP (sanitizeOneLine s))))"

definition stripMeta :: "jsstring \<Rightarrow> jsstring" where
  "stripMeta t0 =
     (let t1 = stripCodeFence t0;
          t2 = removePrefixMatch
                 (rxSeq (rxStar isSpace) (rxSeq (rxLit (js ''**''))
                    (rxSeq (labelRx (rxLit (js '':**''))) (rxStar isSpace)))) t1;
          t3 = removePrefixMatch
                 (rxSeq (rxStar isSpace) (rxSeq (labelRx (rxLit (js '':''))) (rxStar isSpace))) t2;
          t4 = fold (\<lambda>p t. removeAllCI p 0 t) BAD_PHRASES t3
      in trim t4)"

text \<open>\<open>/[.:;,-]\s*$/\<close> and \<open>/\s*[.;:,-]\s*$/\<close>, replaced by the empty string: the last
  character that is no white space, when it is one of the five, goes with the white
  space after it (and, for the second pattern, before it).\<close>

definition isTrailPunct :: "jschar \<Rightarrow> bool" where
  "isTrailPunct c = (c = 46 \<or> c = 58 \<or> c = 59 \<or> c = 44 \<or> c = 45)"

definition stripTrailPunct :: "jsstring \<Rightarrow> jsstring" where
  "stripTrailPunct s =
     (case rev (trimEnd s) of [] \<Rightarrow> s
      | c # r \<Rightarrow> if isTrailPunct c then rev r else s)"

definition stripSpacedTrailPunct :: "jsstring \<Rightarrow> jsstring" where
  "stripSpacedTrailPunct s =
     (case rev (trimEnd s) of [] \<Rightarrow> s
      | c # r \<Rightarrow> if isTrailPunct c then trimEnd (rev r) else s)"

text \<open>
  \<open>/[^\p{L}\p{N}&+\-/.,\s]/gu\<close>, replaced by the empty string. With the flag \<open>u\<close> the
  pattern reads code points, so a surrogate pair is kept or dropped as one character. The
  Unicode property \<open>\p{L}\<close> or \<open>\p{N}\<close> of a code point is the parameter \<open>isLN\<close>.
\<close>

definition isHighSurrogate :: "jschar \<Rightarrow> bool" where
  "isHighSurrogate c = (55296 \<le> c \<and> c \<le> 56319)"

definition isLowSurrogate :: "jschar \<Rightarrow> bool" where
  "isLowSurrogate c = (56320 \<le> c \<and> c \<le> 57343)"

definition codePoint :: "jschar \<Rightarrow> jschar \<Rightarrow> nat" where
  "codePoint hi lo = 65536 + (hi - 55296) * 1024 + (lo - 56320)"

definition fieldChar :: "(nat \<Rightarrow> bool) \<Rightarrow> nat \<Rightarrow> bool" where
  "fieldChar isLN c = (isLN c \<or> c = 38 \<or> c = 43 \<or> c = 45 \<or> c = 47 \<or> c = 46 \<or> c = 44 \<or> isSpace c)"

fun keepFieldChars :: "(nat \<Rightarrow> bool) \<Rightarrow> jsstring \<Rightarrow> jsstring" where
  "keepFieldChars isLN [] = []"
| "keepFieldChars isLN [c] = (if fieldChar isLN c then [c] else [])"
| "keepFieldChars isLN (c # d # cs) =
     (if isHighSurrogate c \<and> isLowSurrogate d
      then (if fieldChar isLN (codePoint c d) then c # d # keepFieldChars isLN cs
            else keepFieldChars isLN cs)
      else (if fieldChar isLN c then c # keepFieldChars isLN (d # cs)
            else keepFieldChars isLN (d # cs)))"

definition sanitizeRoleText :: "(nat \<Rightarrow> bool) \<Rightarrow> jsstring \<Rightarrow> jsstring \<Rightarrow> jsstring" where
  "sanitizeRoleText isLN next prev =
     (let out = firstClause (removePrefixMatch BULLET_MARK_RE (sanitizeOneLine next)) in
      if ACTION_VERB_RE out
      then (let cleanedPrev = removePrefixMatch BULLET_MARK_RE (firstClause prev) in
            sanitizeOneLine (if cleanedPrev \<noteq> [] then cleanedPrev
                             else capWords out MAX_ROLE_WORDS))
      else (let out1 = trim (stripTrailPunct (capWords out MAX_ROLE_WORDS));
                out2 = trim (keepFieldChars isLN out1)
            in if out2 \<noteq> [] then out2 else prev))"

definition sanitizeTitleText :: "(nat \<Rightarrow> bool) \<Rightarrow> jsstring \<Rightarrow> jsstring \<Rightarrow> jsstring" where
  "sanitizeTitleText isLN next prev =
     (let out = firstClause (sanitizeOneLine next);
          out1 = trim (stripTrailPunct (capWords out MAX_TITLE_WORDS));
          out2 = (if ACTION_VERB_RE out1 then capWords out1 6 else out1);
          out3 = trim (keepFieldChars isLN out2)
      in if out3 \<noteq> [] then out3 else prev)"

text \<open>\<open>/\bnot\b.*?(,|\.)/i\<close>: the word \<open>not\<close> and the shortest run of characters of its
  line up to a comma or a full stop.\<close>

fun lazyToCommaOrStop :: "jsstring \<Rightarrow> jsstring option" where
  "lazyToCommaOrStop [] = None"
| "lazyToCommaOrStop (c # cs) =
     (if c = 44 \<or> c = 46 then Some cs
      else if isLineTerminator c then None
      else lazyToCommaOrStop cs)"

definition notClause :: "jschar option \<Rightarrow> jsstring \<Rightarrow> jsstring option" where
  "notClause prev s =
     (case wordAt (js ''not'') prev s of None \<Rightarrow> None | Some r \<Rightarrow> lazyToCommaOrStop r)"

text \<open>\<open>/^[`"'\<dots>]+|[`"'\<dots>]+$/g\<close> with the two curly quotes U+201C and U+201D.\<close>

definition isQuote :: "jschar \<Rightarrow> bool" where
  "isQuote c = (c = 96 \<or> c = 34 \<or> c = 39 \<or> c = 8220 \<or> c = 8221)"

definition stripQuotes :: "jsstring \<Rightarrow> jsstring" where
  "stripQuotes s = rev (dropWhile isQuote (rev (dropWhile isQuote s)))"

definition sanitizeBulletLine :: "jsstring \<Rightarrow> jsstring" where
  "sanitizeBulletLine s =
     (let out1 = stripMeta s;
          out2 = removePrefixMatch BULLET_MARK_RE out1;
          out3 = trim (collapseSpaces out2);
          out4 = (case META_LINE_RE Some out3 of None \<Rightarrow> out3 | Some r \<Rightarrow> trim r);
          out5 = trim (removeFirst notClause None out4);
          words = filterBoolean (splitChar SP out5);
          out6 = (if length words > MAX_BULLET_WORDS
                  then joinWith [SP] (take MAX_BULLET_WORDS words) else out5);
          out7 = trim (stripSpacedTrailPunct out6)
      in stripQuotes out7)"

text \<open>\<open>haystack.includes(needle)\<close>.\<close>

definition strIncludes :: "jsstring \<Rightarrow> jsstring \<Rightarrow> bool" where
  "strIncludes haystack needle = anywhere (prefix needle) haystack"

text \<open>
  \<open>sanitizeBulletList\<close>. \<open>String.prototype.toLowerCase\<close> is the parameter \<open>lower\<close>;
  \<open>seen\<close> is the set of the lower-cased lines kept so far.
\<close>

fun sanitizeBulletLoop :: "(jsstring \<Rightarrow> jsstring) \<Rightarrow> jsstring list \<Rightarrow> jsstring list \<Rightarrow> jsstring list" where
  "sanitizeBulletLoop lower seen [] = []"
| "sanitizeBulletLoop lower seen (l # ls) =
     (let s = sanitizeBulletLine l in
      if s = [] then sanitizeBulletLoop lower seen ls
      else if list_ex (\<lambda>p. strIncludes (lower s) (lower p)) BAD_PHRASES
      then sanitizeBulletLoop lower seen ls
      else if lower s \<in> set seen then sanitizeBulletLoop lower seen ls
      else s # sanitizeBulletLoop lower (lower s # seen) ls)"

definition sanitizeBulletList :: "(jsstring \<Rightarrow> jsstring) \<Rightarrow> jsstring list \<Rightarrow> jsstring list" where
  "sanitizeBulletList lower lines = sanitizeBulletLoop lower [] lines"

text \<open>
  \<open>toLowerCase\<close> on strings of code units below 256 (Basic Latin and Latin-1), where it is
  this map; it is used to evaluate the definitions at such strings.
\<close>

definition toLowerCaseLatin1 :: "jsstring \<Rightarrow> jsstring" where
  "toLowerCaseLatin1 s =
     map (\<lambda>c. if (65 \<le> c \<and> c \<le> 90) \<or> (192 \<le> c \<and> c \<le> 222 \<and> c \<noteq> 215) then c + 32 else c) s"

text \<open>\<open>\p{L}\<close> or \<open>\p{N}\<close> on Basic Latin: the letters and the digits.\<close>

definition isLNBasicLatin :: "nat \<Rightarrow> bool" where
  "isLNBasicLatin c = ((48 \<le> c \<and> c \<le> 57) \<or> (65 \<le> c \<and> c \<le> 90) \<or> (97 \<le> c \<and> c \<le> 122))"

section \<open>Editing the experience entries (main.js, \<open>addExperience\<close>, \<open>onGenerateFromJD\<close>, \<open>onProofreadAll\<close>)\<close>

text \<open>A promise: it rejects (an exception in the awaiting code) or resolves to a value.\<close>

datatype 'a outcome = Throws | Returns 'a

text \<open>
  The bullets textarea: \<open>inp.value.split('\n').map(s => s.trim()).filter(Boolean)\<close>.
\<close>

definition typedBullets :: "jsstring \<Rightarrow> jsstring list" where
  "typedBullets v = filterBoolean (map trim (splitChar 10 v))"

text \<open>
  What a rewrite tier makes of its reply:
  \<open>sanitizeBulletList(String(improved || original).split('\n').map(s => s.trim()).filter(Boolean))\<close>.
\<close>

definition rewriteCandidate :: "(jsstring \<Rightarrow> jsstring) \<Rightarrow> jsstring \<Rightarrow> jsstring \<Rightarrow> jsstring list" where
  "rewriteCandidate lower improved original =
     sanitizeBulletList lower
       (filterBoolean (map trim (splitChar 10 (if improved \<noteq> [] then improved else original))))"

datatype tier = DeviceRewriter | RemoteRewrite | RemoteWriter

text \<open>
  A call that is not awaited where it is made: it throws, or it returns a promise that
  rejects or resolves to a value.
\<close>

datatype 'a promised = CallThrows | Rejects | Resolves 'a

text \<open>
  The backends of the rewrite action: \<open>ensureRewriter(\<dots>)\<close>, \<open>rewriter.rewrite(original, \<dots>)\<close>,
  \<open>rewriteCloudLocal({text: original, \<dots>})\<close> and \<open>writeCloudLocal({prompt, \<dots>})\<close>. The
  first, third and fourth are awaited inside a \<open>try\<close> block, where a call that throws and
  a promise that rejects are the same; the promise of the second gets a \<open>catch\<close> handler
  before it is awaited.
\<close>

record rewriteBackends =
  ensureRewriter :: "unit outcome"
  rewrite :: "jsstring \<Rightarrow> jsstring promised"
  rewriteCloudLocal :: "jsstring \<Rightarrow> jsstring outcome"
  writeCloudLocal :: "jsstring \<Rightarrow> jsstring outcome"

text \<open>
  What a click on Rewrite does: the bullets of the entry afterwards, the messages shown
  with \<open>alert\<close>, and the tiers that were called, in order.
\<close>

record rewriteEffect =
  newBullets :: "jsstring list"
  alerts :: "jsstring list"
  attempted :: "tier list"

definition WRITER_PROMPT :: jsstring where
  "WRITER_PROMPT =
     js ''Rewrite each resume bullet into a concise, quantified, ATS-friendly bullet. Keep one bullet per line, ''
     @ [8804] @ js ''22 words.'' @ [10]"

text \<open>
  The handler of the Rewrite button. A tier is entered from the \<open>catch\<close> block of the
  tier before it; a rejected \<open>rewriter.rewrite\<close> is replaced by the original text
  (\<open>.catch(() => original)\<close>), while a call of \<open>rewriter.rewrite\<close> that throws is caught
  like a failure of \<open>ensureRewriter\<close>; a candidate list that is empty leaves the \<open>try\<close>
  block without an exception. Writing the bullets, the textarea and the preview is taken
  not to throw.
\<close>

definition commitIfAny :: "jsstring list \<Rightarrow> jsstring list \<Rightarrow> tier list \<Rightarrow> rewriteEffect" where
  "commitIfAny out bs tiers =
     \<lparr> newBullets = (if out \<noteq> [] then out else bs), alerts = [], attempted = tiers \<rparr>"

text \<open>The block \<open>catch (eDevice)\<close>: the remote rewrite, in its \<open>catch\<close> block the remote
  writer, and in the \<open>catch\<close> block of that the message.\<close>

definition remoteTiers :: "(jsstring \<Rightarrow> jsstring) \<Rightarrow> rewriteBackends \<Rightarrow> jsstring list \<Rightarrow> rewriteEffect" where
  "remoteTiers lower be bs =
     (let original = joinWith [10] bs in
      case rewriteCloudLocal be original of
        Returns improved \<Rightarrow>
          commitIfAny (rewriteCandidate lower improved original) bs
            [DeviceRewriter, RemoteRewrite]
      | Throws \<Rightarrow>
          (case writeCloudLocal be (WRITER_PROMPT @ original) of
             Returns viaWriter \<Rightarrow>
               commitIfAny (rewriteCandidate lower viaWriter original) bs
                 [DeviceRewriter, RemoteRewrite, RemoteWriter]
           | Throws \<Rightarrow>
               \<lparr> newBullets = bs, alerts = [js ''Rewriter failed.''],
                 attempted = [DeviceRewriter, RemoteRewrite, RemoteWriter] \<rparr>))"

definition rewriteClick :: "(jsstring \<Rightarrow> jsstring) \<Rightarrow> rewriteBackends \<Rightarrow> jsstring list \<Rightarrow> rewriteEffect" where
  "rewriteClick lower be bs =
     (let original = joinWith [10] bs in
      case ensureRewriter be of
        Returns u \<Rightarrow>
          (case rewrite be original of
             CallThrows \<Rightarrow> remoteTiers lower be bs
           | Rejects \<Rightarrow>
               commitIfAny (rewriteCandidate lower original original) bs [DeviceRewriter]
           | Resolves improved \<Rightarrow>
               commitIfAny (rewriteCandidate lower improved original) bs [DeviceRewriter])
      | Throws \<Rightarrow> remoteTiers lower be bs)"

text \<open>
  \<open>proofreadBulletsSafe\<close> and \<open>proofreadRoleSafe\<close>; \<open>device\<close> is the on-device proofreader
  (\<open>ensureProofreader\<close> and \<open>proofread\<close>, giving \<open>r.corrected\<close>), \<open>cloud\<close> is
  \<open>proofreadCloudLocal\<close>. An empty result is falsy and ignored.
\<close>

definition orKeep :: "jsstring outcome \<Rightarrow> jsstring \<Rightarrow> jsstring" where
  "orKeep r cur = (case r of Throws \<Rightarrow> cur | Returns x \<Rightarrow> if x \<noteq> [] then x else cur)"

definition proofreadBulletsSafe ::
  "(jsstring \<Rightarrow> jsstring) \<Rightarrow> (jsstring \<Rightarrow> jsstring outcome) \<Rightarrow> (jsstring \<Rightarrow> jsstring outcome) \<Rightarrow>
   jsstring list \<Rightarrow> jsstring list" where
  "proofreadBulletsSafe lower device cloud list =
     sanitizeBulletList lower
       (map (\<lambda>b. let cur = orKeep (device b) b;
                      cur2 = orKeep (cloud cur) cur
                  in sanitizeBulletLine cur2) list)"

definition proofreadRoleSafe ::
  "(nat \<Rightarrow> bool) \<Rightarrow> (jsstring \<Rightarrow> jsstring outcome) \<Rightarrow> (jsstring \<Rightarrow> jsstring outcome) \<Rightarrow>
   jsstring \<Rightarrow> jsstring" where
  "proofreadRoleSafe isLN device cloud original =
     (let out = orKeep (device original) original;
          out2 = (if out = original then orKeep (cloud original) out else out)
      in sanitizeRoleText isLN out2 original)"

text \<open>
  The events that write \<open>CV.experience\<close>. An event carries what comes from outside: the
  index the card was created with, the text typed, the replies of the backends.
\<close>

datatype expField = Company | Role | Location | Start | End

datatype event =
    Seed
  | AddExperience
  | DeleteExperience nat
  | TypeField nat expField jsstring
  | TypeBullets nat jsstring
  | ClickRewrite nat rewriteBackends
  | GenerateFromJD nat "jsstring list outcome" "jsstring list outcome"
  | ProofreadAll "jsstring \<Rightarrow> jsstring outcome" "jsstring \<Rightarrow> jsstring outcome"

definition seedExperience :: experience where
  "seedExperience = \<lparr> company = js ''Acme Corp'', role = js ''Frontend Engineer'',
     exp_location = js ''London, UK'', exp_start = js ''Jan 2022'', exp_end = js ''Present'',
     bullets = [js ''Shipped performance improvements that reduced LCP by 22%.''] \<rparr>"

definition blankExperience :: experience where
  "blankExperience = \<lparr> company = [], role = [], exp_location = [], exp_start = [],
     exp_end = [], bullets = [] \<rparr>"

fun setField :: "expField \<Rightarrow> jsstring \<Rightarrow> experience \<Rightarrow> experience" where
  "setField Company v e = e\<lparr>company := v\<rparr>"
| "setField Role v e = e\<lparr>role := v\<rparr>"
| "setField Location v e = e\<lparr>exp_location := v\<rparr>"
| "setField Start v e = e\<lparr>exp_start := v\<rparr>"
| "setField End v e = e\<lparr>exp_end := v\<rparr>"

text \<open>\<open>CV.experience[idx] = f(CV.experience[idx])\<close>; with no entry at \<open>idx\<close> the handler
  throws a TypeError before it writes, and nothing changes.\<close>

definition atEntry :: "nat \<Rightarrow> (experience \<Rightarrow> experience) \<Rightarrow> experience list \<Rightarrow> experience list" where
  "atEntry idx f es = (if idx < length es then es[idx := f (es ! idx)] else es)"

definition proofreadEntry ::
  "(jsstring \<Rightarrow> jsstring) \<Rightarrow> (nat \<Rightarrow> bool) \<Rightarrow> (jsstring \<Rightarrow> jsstring outcome) \<Rightarrow>
   (jsstring \<Rightarrow> jsstring outcome) \<Rightarrow> experience \<Rightarrow> experience" where
  "proofreadEntry lower isLN device cloud e =
     (let e1 = (if role e \<noteq> [] then e\<lparr>role := proofreadRoleSafe isLN device cloud (role e)\<rparr> else e);
          afterList = proofreadBulletsSafe lower device cloud (bullets e1)
      in if bullets e1 \<noteq> [] \<and> joinWith [10] afterList \<noteq> joinWith [10] (bullets e1)
         then e1\<lparr>bullets := afterList\<rparr> else e1)"

fun handle :: "(jsstring \<Rightarrow> jsstring) \<Rightarrow> (nat \<Rightarrow> bool) \<Rightarrow> event \<Rightarrow> experience list \<Rightarrow> experience list" where
  "handle lower isLN Seed es = es @ [seedExperience]"
| "handle lower isLN AddExperience es = es @ [blankExperience]"
| "handle lower isLN (DeleteExperience idx) es = take idx es @ drop (Suc idx) es"
| "handle lower isLN (TypeField idx k v) es = atEntry idx (setField k v) es"
| "handle lower isLN (TypeBullets idx v) es = atEntry idx (\<lambda>e. e\<lparr>bullets := typedBullets v\<rparr>) es"
| "handle lower isLN (ClickRewrite idx be) es =
     atEntry idx (\<lambda>e. e\<lparr>bullets := newBullets (rewriteClick lower be (bullets e))\<rparr>) es"
| "handle lower isLN (GenerateFromJD idx device cloud) es =
     (case device of
        Returns bs \<Rightarrow> atEntry idx (\<lambda>e. e\<lparr>bullets := sanitizeBulletList lower bs\<rparr>) es
      | Throws \<Rightarrow>
          (case cloud of
             Returns bs \<Rightarrow> atEntry idx (\<lambda>e. e\<lparr>bullets := sanitizeBulletList lower bs\<rparr>) es
           | Throws \<Rightarrow> es))"
| "handle lower isLN (ProofreadAll device cloud) es =
     map (proofreadEntry lower isLN device cloud) es"

text \<open>The experience entries after a sequence of events, from the empty document.\<close>

definition run :: "(jsstring \<Rightarrow> jsstring) \<Rightarrow> (nat \<Rightarrow> bool) \<Rightarrow> event list \<Rightarrow> experience list" where
  "run lower isLN evs = fold (handle lower isLN) evs []"

section \<open>Skills (lib/skills.js)\<close>

definition ORDER :: "jsstring list" where
  "ORDER = [js ''Programming'', js ''Frontend'', js ''Backend'', js ''Data & ML'',
            js ''Cloud & DevOps'', js ''Databases'', js ''Testing'', js ''Tools'',
            js ''Languages'', js ''Other'']"

text \<open>\<open>[...new Set(xs)]\<close>: the first occurrence of every element, in order.\<close>

fun setOrder :: "'a list \<Rightarrow> 'a list \<Rightarrow> 'a list" where
  "setOrder seen [] = []"
| "setOrder seen (x # xs) =
     (if x \<in> set seen then setOrder seen xs else x # setOrder (x # seen) xs)"

definition newSet :: "'a list \<Rightarrow> 'a list" where
  "newSet xs = setOrder [] xs"

text \<open>
  \<open>s.replace(re, rep)\<close> for a pattern with the flag \<open>g\<close>: \<open>m prev s\<close> is the rest of the
  string after a match at the current position, \<open>skip\<close> counts the characters of the last
  match that are left to pass over. After an empty match the search moves on by one
  character, as in ECMAScript.
\<close>

fun replaceAll ::
  "(jschar option \<Rightarrow> jsstring \<Rightarrow> jsstring option) \<Rightarrow> jsstring \<Rightarrow> nat \<Rightarrow> jschar option \<Rightarrow>
   jsstring \<Rightarrow> jsstring" where
  "replaceAll m rep skip prev [] =
     (if skip = 0 \<and> m prev [] \<noteq> None then rep else [])"
| "replaceAll m rep skip prev (c # cs) =
     (if 0 < skip then replaceAll m rep (skip - 1) (Some c) cs
      else (case m prev (c # cs) of
              None \<Rightarrow> c # replaceAll m rep 0 (Some c) cs
            | Some r \<Rightarrow>
                if length r \<le> length cs
                then rep @ replaceAll m rep (length cs - length r) (Some c) cs
                else rep @ c # replaceAll m rep 0 (Some c) cs))"

text \<open>\<open>\b(W1)\s+(W2)\b\<close> and \<open>\b(W1)\s+(W2)\s+(W3)\b\<close> with the flag \<open>i\<close>.\<close>

fun spacedWords :: "jsstring list \<Rightarrow> jsstring \<Rightarrow> jsstring option" where
  "spacedWords [] s = Some s"
| "spacedWords [w] s = ciStrip w s"
| "spacedWords (w # v # ws) s =
     (case ciStrip w s of None \<Rightarrow> None
      | Some r \<Rightarrow> if startsWith isSpace r then spacedWords (v # ws) (dropWhile isSpace r)
                  else None)"

definition phraseAt :: "jsstring list \<Rightarrow> jschar option \<Rightarrow> jsstring \<Rightarrow> jsstring option" where
  "phraseAt ws prev s =
     (if (case prev of None \<Rightarrow> False | Some c \<Rightarrow> isWordChar c) then None
      else (case spacedWords ws s of None \<Rightarrow> None
            | Some r \<Rightarrow> if startsWith isWordChar r then None else Some r))"

definition MULTI_WORD :: "jsstring list list" where
  "MULTI_WORD =
     [[js ''Machine'', js ''Learning''], [js ''Deep'', js ''Learning''],
      [js ''Natural'', js ''Language'', js ''Processing''], [js ''Computer'', js ''Vision''],
      [js ''Reinforcement'', js ''Learning''], [js ''Data'', js ''Science''],
      [js ''Artificial'', js ''Intelligence''], [js ''Cloud'', js ''Computing'']]"

text \<open>The chain of replacements in \<open>tokenizeSkills\<close>: each phrase, in any case and with any
  white space between its words, becomes the phrase with single spaces.\<close>

definition joinMultiWord :: "jsstring \<Rightarrow> jsstring" where
  "joinMultiWord s =
     fold (\<lambda>ws t. replaceAll (phraseAt ws) (joinWith [SP] ws) 0 None t) MULTI_WORD s"

definition isSkillSeparator :: "jschar \<Rightarrow> bool" where
  "isSkillSeparator c = (c = 10 \<or> c = 44 \<or> c = 59)"

definition tokenizeSkills :: "jsstring \<Rightarrow> jsstring list" where
  "tokenizeSkills t0 =
     (if t0 = [] then []
      else (let raw = filterBoolean (map trim (splitRuns isSkillSeparator t0));
                merged = map joinMultiWord raw
            in newSet (map trim merged)))"

definition PRETTY :: "(jsstring \<times> jsstring) list" where
  "PRETTY = [(js ''js'', js ''JavaScript''), (js ''ts'', js ''TypeScript''),
             (js ''node'', js ''Node.js''), (js ''node.js'', js ''Node.js''),
             (js ''postgres'', js ''PostgreSQL''), (js ''postgresql'', js ''PostgreSQL''),
             (js ''gcp'', js ''GCP'')]"

text \<open>\<open>norm\<close> of skills.js; \<open>toLowerCase\<close> is the parameter \<open>lower\<close>.\<close>

definition norm_skill :: "(jsstring \<Rightarrow> jsstring) \<Rightarrow> jsstring \<Rightarrow> jsstring" where
  "norm_skill lower s =
     (let n = collapseSpaces (lower (trim s)) in if n = js ''nodejs'' then js ''node.js'' else n)"

text \<open>\<open>s.replace(/\b\w/g, c => c.toUpperCase())\<close>: a word character after none is put in
  upper case; word characters are ASCII.\<close>

definition upperWordChar :: "jschar \<Rightarrow> jschar" where
  "upperWordChar c = (if 97 \<le> c \<and> c \<le> 122 then c - 32 else c)"

fun capitalizeWords :: "jschar option \<Rightarrow> jsstring \<Rightarrow> jsstring" where
  "capitalizeWords prev [] = []"
| "capitalizeWords prev (c # cs) =
     (if isWordChar c \<and> \<not> (case prev of None \<Rightarrow> False | Some d \<Rightarrow> isWordChar d)
      then upperWordChar c else c) # capitalizeWords (Some c) cs"

text \<open>
  A value read from the object \<open>PRETTY\<close>: a string, or an object that \<open>PRETTY\<close> inherits
  from \<open>Object.prototype\<close>, named by the property it is read from (a function, and
  \<open>Object.prototype\<close> itself under \<open>__proto__\<close>). Two such values are the same object
  exactly when they are read from the same property.
\<close>

datatype jsval = Str jsstring | Inherited jsstring

text \<open>The property names of \<open>Object.prototype\<close>, of ECMAScript and its Annex B.\<close>

definition OBJECT_PROTOTYPE :: "jsstring list" where
  "OBJECT_PROTOTYPE = map js [''constructor'', ''hasOwnProperty'', ''isPrototypeOf'',
     ''propertyIsEnumerable'', ''toLocaleString'', ''toString'', ''valueOf'', ''__proto__'',
     ''__defineGetter__'', ''__defineSetter__'', ''__lookupGetter__'', ''__lookupSetter__'']"

text \<open>
  \<open>pretty\<close>. \<open>PRETTY[k]\<close> is the value of the own property \<open>k\<close>, or else the object
  inherited under the name \<open>k\<close>, or else \<open>undefined\<close>. The strings of \<open>PRETTY\<close> are not
  empty and an object is truthy, so \<open>||\<close> goes on to its right side only for
  \<open>undefined\<close>.
\<close>

definition pretty :: "(jsstring \<Rightarrow> jsstring) \<Rightarrow> jsstring \<Rightarrow> jsval" where
  "pretty lower s =
     (case map_of PRETTY (norm_skill lower s) of
        Some v \<Rightarrow> Str v
      | None \<Rightarrow>
          if norm_skill lower s \<in> set OBJECT_PROTOTYPE then Inherited (norm_skill lower s)
          else Str (capitalizeWords None (trim s)))"

definition CATS_LOCAL :: "(jsstring \<times> jsstring list) list" where
  "CATS_LOCAL =
     [(js ''Programming'', map js [''c'', ''c++'', ''cpp'', ''c#'', ''java'', ''python'',
        ''javascript'', ''js'', ''typescript'', ''ts'', ''go'', ''golang'', ''rust'', ''kotlin'',
        ''swift'', ''ruby'', ''php'', ''r'', ''matlab'', ''scala'', ''perl'', ''bash'', ''shell'',
        ''powershell'', ''solidity'']),
      (js ''Frontend'', map js [''html'', ''css'', ''sass'', ''less'', ''tailwind'', ''bootstrap'',
        ''react'', ''next.js'', ''nextjs'', ''angular'', ''vue'', ''nuxt'', ''svelte'']),
      (js ''Backend'', map js [''node'', ''node.js'', ''express'', ''fastify'', ''nestjs'', ''nest'',
        ''django'', ''flask'', ''spring'', ''spring boot'', ''.net'', ''.net core'', ''asp.net'',
        ''rails'', ''laravel'', ''fastapi'']),
      (js ''Data & ML'', map js [''pandas'', ''numpy'', ''scikit-learn'', ''sklearn'', ''tensorflow'',
        ''pytorch'', ''keras'', ''xgboost'', ''lightgbm'', ''spark'', ''hadoop'', ''airflow'', ''dbt'',
        ''sql'', ''machine learning'', ''ml'', ''deep learning'', ''dl'', ''nlp'',
        ''natural language processing'', ''computer vision'', ''llm'', ''large language models'',
        ''transformer'', ''transformers'', ''generative ai'', ''genai'', ''recommender'',
        ''recommendation'']),
      (js ''Cloud & DevOps'', map js [''aws'', ''azure'', ''gcp'', ''google cloud'', ''docker'',
        ''kubernetes'', ''k8s'', ''terraform'', ''ansible'', ''jenkins'', ''github actions'',
        ''gitlab ci'', ''circleci'', ''linux'', ''nginx'', ''apache'', ''grafana'', ''prometheus'']),
      (js ''Databases'', map js [''postgres'', ''postgresql'', ''mysql'', ''sqlite'', ''mongodb'',
        ''redis'', ''elasticsearch'', ''dynamodb'', ''oracle'', ''snowflake'', ''redshift'',
        ''bigquery'', ''cassandra'', ''neo4j'']),
      (js ''Testing'', map js [''jest'', ''mocha'', ''chai'', ''cypress'', ''playwright'',
        ''selenium'', ''junit'', ''pytest'', ''vitest'']),
      (js ''Tools'', map js [''git'', ''figma'', ''jira'', ''confluence'', ''notion'', ''slack'',
        ''excel'', ''word'', ''powerpoint''])]"

text \<open>A literal matched at the start of the string, case as written.\<close>

definition csStrip :: "jsstring \<Rightarrow> jsstring \<Rightarrow> jsstring option" where
  "csStrip p s = (if prefix p s then Some (drop (length p) s) else None)"

text \<open>\<open>\bW\b\<close> without the flag \<open>i\<close>, for a word that starts and ends with a word character.\<close>

definition wordAtCS :: "jsstring \<Rightarrow> jschar option \<Rightarrow> jsstring \<Rightarrow> jsstring option" where
  "wordAtCS w prev s =
     (if (case prev of None \<Rightarrow> False | Some c \<Rightarrow> isWordChar c) then None
      else (case csStrip w s of None \<Rightarrow> None
            | Some r \<Rightarrow> if startsWith isWordChar r then None else Some r))"

text \<open>\<open>detectLocalCategory\<close>: the first table entry that lists the name, then the patterns
  \<open>/\b(sql|nosql)\b/\<close> and \<open>/\bci\/cd\b/\<close>, then \<open>Other\<close>.\<close>

definition SQL_RE :: "jsstring \<Rightarrow> bool" where
  "SQL_RE n =
     matchesAnywhere (\<lambda>prev t. case wordAtCS (js ''sql'') prev t of
                                     Some r \<Rightarrow> Some r
                                   | None \<Rightarrow> wordAtCS (js ''nosql'') prev t) None n"

definition CICD_RE :: "jsstring \<Rightarrow> bool" where
  "CICD_RE n = matchesAnywhere (wordAtCS (js ''ci/cd'')) None n"

definition detectLocalCategory :: "jsstring \<Rightarrow> jsstring" where
  "detectLocalCategory n =
     (case find (\<lambda>(cat, list). n \<in> set list) CATS_LOCAL of
        Some (cat, list) \<Rightarrow> cat
      | None \<Rightarrow>
          if SQL_RE n then js ''Databases''
          else if CICD_RE n then js ''Cloud & DevOps''
          else js ''Other'')"

text \<open>
  The loop of \<open>groupSkillsLocal\<close>: the category and the display name of every skill whose
  normal form is not empty and was not seen before.
\<close>

fun bucketLoop :: "(jsstring \<Rightarrow> jsstring) \<Rightarrow> jsstring list \<Rightarrow> jsstring list \<Rightarrow> (jsstring \<times> jsval) list" where
  "bucketLoop lower seen [] = []"
| "bucketLoop lower seen (raw # rest) =
     (let n = norm_skill lower raw in
      if n = [] \<or> n \<in> set seen then bucketLoop lower seen rest
      else (detectLocalCategory n, pretty lower raw) # bucketLoop lower (n # seen) rest)"

definition bucket :: "(jsstring \<times> 'a) list \<Rightarrow> jsstring \<Rightarrow> 'a list" where
  "bucket entries cat = map snd (filter (\<lambda>e. fst e = cat) entries)"

text \<open>
  \<open>xs.sort((a, b) => a.localeCompare(b))\<close>. With fewer than two elements the comparator
  is not called. On strings the sort is a stable sort by the collation key of the
  locale, the parameter \<open>collate\<close>. A value that is no string has no method
  \<open>localeCompare\<close>, so a call of the comparator with it as \<open>a\<close> throws a TypeError; which
  calls a sort makes is defined by the implementation, and what it does with a list of
  two or more values, one of them no string, is the parameter \<open>engineSort\<close>.
\<close>

definition isStr :: "jsval \<Rightarrow> bool" where
  "isStr v = (case v of Str s \<Rightarrow> True | Inherited k \<Rightarrow> False)"

definition strings :: "jsval list \<Rightarrow> jsstring list" where
  "strings vs = concat (map (\<lambda>v. case v of Str s \<Rightarrow> [s] | Inherited k \<Rightarrow> []) vs)"

definition localeSort ::
  "(jsstring \<Rightarrow> 'k::linorder) \<Rightarrow> (jsval list \<Rightarrow> jsval list outcome) \<Rightarrow> jsval list \<Rightarrow>
   jsval list outcome" where
  "localeSort collate engineSort vs =
     (if length vs < 2 then Returns vs
      else if list_all isStr vs then Returns (map Str (sort_key collate (strings vs)))
      else engineSort vs)"

text \<open>
  The second loop of \<open>groupSkillsLocal\<close>, over the categories in their order: a bucket
  that is not empty is stored without its duplicates and sorted; an exception of the
  sort ends the function. The result object is the list of its entries in insertion
  order.
\<close>

fun pruneLocal ::
  "(jsstring \<Rightarrow> 'k::linorder) \<Rightarrow> (jsval list \<Rightarrow> jsval list outcome) \<Rightarrow> (jsstring \<Rightarrow> jsval list) \<Rightarrow>
   jsstring list \<Rightarrow> (jsstring \<times> jsval list) list outcome" where
  "pruneLocal collate engineSort buckets [] = Returns []"
| "pruneLocal collate engineSort buckets (cat # cats) =
     (if buckets cat = [] then pruneLocal collate engineSort buckets cats
      else (case localeSort collate engineSort (newSet (buckets cat)) of
              Throws \<Rightarrow> Throws
            | Returns vs \<Rightarrow>
                (case pruneLocal collate engineSort buckets cats of
                   Throws \<Rightarrow> Throws
                 | Returns g \<Rightarrow> Returns ((cat, vs) # g))))"

definition groupSkillsLocal ::
  "(jsstring \<Rightarrow> jsstring) \<Rightarrow> (jsstring \<Rightarrow> 'k::linorder) \<Rightarrow> (jsval list \<Rightarrow> jsval list outcome) \<Rightarrow>
   jsstring list \<Rightarrow> (jsstring \<times> jsval list) list outcome" where
  "groupSkillsLocal lower collate engineSort rawSkills =
     pruneLocal collate engineSort (bucket (bucketLoop lower [] rawSkills)) ORDER"

text \<open>
  The loop of \<open>groupSkillsAI\<close> over the categories in their order. Its lists hold strings
  only, where the sort is the stable sort by the collation key: a list that is not empty
  is stored without its duplicates and sorted.
\<close>

definition pruneBuckets ::
  "(jsstring \<Rightarrow> 'k::linorder) \<Rightarrow> (jsstring \<Rightarrow> jsstring list) \<Rightarrow> (jsstring \<times> jsstring list) list" where
  "pruneBuckets collate buckets =
     map (\<lambda>cat. (cat, sort_key collate (newSet (buckets cat))))
       (filter (\<lambda>cat. buckets cat \<noteq> []) ORDER)"

text \<open>
  \<open>groupSkillsAI\<close>, from the reply of the language model on. The reply parsed by
  \<open>JSON.parse\<close> is an object read by its property names (a number, a string or an array
  has none of the category names), or \<open>null\<close>; a property is an array, whose elements
  are given as \<open>String\<close> makes them, or something else.
\<close>

datatype jsonProperty = JArray "jsstring list" | JNotArray

datatype sessionReply =
    PromptUnsupported
  | PromptNotReady
  | NotJSON
  | ParsedNull
  | ParsedObject "jsstring \<Rightarrow> jsonProperty option"

datatype groupError = PromptAPIUnsupported | PromptAPINotReady | AIDidNotReturnJSON | TypeError

definition aiArray :: "(jsstring \<Rightarrow> jsonProperty option) \<Rightarrow> jsstring \<Rightarrow> jsstring list" where
  "aiArray obj cat = (case obj cat of Some (JArray xs) \<Rightarrow> filterBoolean xs | _ \<Rightarrow> [])"

definition groupSkillsAI ::
  "(jsstring \<Rightarrow> 'k::linorder) \<Rightarrow> sessionReply \<Rightarrow> groupError + (jsstring \<times> jsstring list) list" where
  "groupSkillsAI collate reply =
     (case reply of
        PromptUnsupported \<Rightarrow> Inl PromptAPIUnsupported
      | PromptNotReady \<Rightarrow> Inl PromptAPINotReady
      | NotJSON \<Rightarrow> Inl AIDidNotReturnJSON
      | ParsedNull \<Rightarrow> Inl TypeError
      | ParsedObject obj \<Rightarrow> Inr (pruneBuckets collate (aiArray obj)))"

text \<open>The number of skills in a grouping.\<close>

definition groupedCount :: "(jsstring \<times> 'a list) list \<Rightarrow> nat" where
  "groupedCount g = sum_list (map (\<lambda>e. length (snd e)) g)"

section \<open>Normalizing the skills box (main.js, \<open>normalizeSkillsAI\<close>, \<open>normalizeAndGroupSkills\<close>)\<close>

text \<open>
  The reply of the on-device model: no usable reply (the model is not available, a call
  throws, the reply is no JSON or has no array \<open>skills\<close>), or the array \<open>parsed.skills\<close>.
  The reply of the remote writer: the call throws; the text parses to an array or to an
  object with an array \<open>skills\<close>; it parses to \<open>null\<close>; it parses to something else; or it
  does not parse.
\<close>

datatype deviceSkills = NoDeviceSkills | DeviceSkills "jsstring list"

datatype cloudSkills =
    CloudThrows
  | CloudArray "jsstring list"
  | CloudNull
  | CloudOtherJSON
  | CloudText jsstring

definition isListMark :: "jschar \<Rightarrow> bool" where
  "isListMark c = (c = 45 \<or> c = 8226)"

text \<open>\<open>s.trim().replace(/^[-\<dots>]\s*/, '')\<close> with the class hyphen or U+2022.\<close>

definition stripListMark :: "jsstring \<Rightarrow> jsstring" where
  "stripListMark s = removePrefixMatch (rxSeq (rxChar isListMark) (rxStar isSpace)) (trim s)"

text \<open>The \<open>catch\<close> block of the inner \<open>try\<close>: the reply split as text,
  \<open>String(json || '').split(/[\n,]+/).map(\<dots>).filter(Boolean)\<close>.\<close>

definition splitSkillText :: "jsstring \<Rightarrow> jsstring list" where
  "splitSkillText t = filterBoolean (map stripListMark (splitRuns (\<lambda>c. c = 10 \<or> c = 44) t))"

text \<open>
  \<open>normalizeSkillsAI\<close>. For a reply that parses to \<open>null\<close>, reading \<open>parsed.skills\<close> throws
  inside the inner \<open>try\<close>, and the reply, the word \<open>null\<close> with JSON white space around
  it, is split as text, which leaves the word.
\<close>

definition normalizeSkillsAI :: "deviceSkills \<Rightarrow> cloudSkills \<Rightarrow> jsstring \<Rightarrow> jsstring list" where
  "normalizeSkillsAI device cloud rawText =
     (let input = trim rawText in
      if input = [] then []
      else (case device of
              DeviceSkills xs \<Rightarrow> newSet (filterBoolean (map trim xs))
            | NoDeviceSkills \<Rightarrow>
                (case cloud of
                   CloudArray arr \<Rightarrow> newSet (filterBoolean (map trim arr))
                 | CloudNull \<Rightarrow> newSet (filterBoolean (map trim (splitSkillText (js ''null''))))
                 | CloudOtherJSON \<Rightarrow> []
                 | CloudText t \<Rightarrow> newSet (filterBoolean (map trim (splitSkillText t)))
                 | CloudThrows \<Rightarrow> tokenizeSkills input)))"

text \<open>\<open>normalizeAndGroupSkills\<close> stores the result in \<open>CV.skills\<close> (when no later request
  has been started meanwhile).\<close>

definition normalizeAndGroupSkills :: "deviceSkills \<Rightarrow> cloudSkills \<Rightarrow> jsstring \<Rightarrow> cv \<Rightarrow> cv" where
  "normalizeAndGroupSkills device cloud raw c = c\<lparr>skills := normalizeSkillsAI device cloud raw\<rparr>"

section \<open>Country rule packs (main.js, \<open>updateCountryPackFromGemini\<close>)\<close>

definition defaultNotes :: "string list \<Rightarrow> jsstring list" where
  "defaultNotes xs = map js xs"

definition englishSections :: "jsstring list" where
  "englishSections = map js [''Summary'', ''Experience'', ''Education'', ''Projects'', ''Skills'',
     ''Certifications'', ''Publications'', ''Patents'']"

definition monthRange :: jsstring where
  "monthRange = js ''MMM YYYY'' @ [8211] @ js ''MMM YYYY''"

definition numericRange :: jsstring where
  "numericRange = js ''MM/YYYY'' @ [8211] @ js ''MM/YYYY''"

text \<open>\<open>DEFAULT_PACKS\<close> as written in the source; letters outside ASCII by their code units.\<close>

definition BUILTIN_PACKS :: "(jsstring \<times> pack) list" where
  "BUILTIN_PACKS =
     [(js ''UK'', \<lparr> page_limit = Some 2, photo_allowed = False, date_format = monthRange,
         spelling = js ''en-GB'', sections = englishSections,
         pack_notes = map js [''Avoid photos to reduce bias risk.'',
           ''Single column layout. No tables.'', ''Reverse chronological experience.''] \<rparr>),
      (js ''US'', \<lparr> page_limit = Some 1, photo_allowed = False, date_format = monthRange,
         spelling = js ''en-US'', sections = englishSections,
         pack_notes = map js [''Early-career resumes typically 1 page.'',
           ''Avoid headers/footers for key info.'', ''Single column. No graphics.''] \<rparr>),
      (js ''DE'', \<lparr> page_limit = Some 2, photo_allowed = False, date_format = numericRange,
         spelling = js ''de-DE'',
         sections = [js ''Profil'', js ''Berufserfahrung'', js ''Ausbildung'', js ''Projekte'',
           js ''F'' @ [228] @ js ''higkeiten'', js ''Zertifikate'', js ''Publikationen'',
           js ''Patente''],
         pack_notes = map js [''Photo is culturally common but optional. Keep off for ATS fairness.'',
           ''List languages with CEFR levels (e.g., B2).''] \<rparr>),
      (js ''FR'', \<lparr> page_limit = Some 2, photo_allowed = False, date_format = numericRange,
         spelling = js ''fr-FR'',
         sections = [js ''Profil'', js ''Exp'' @ [233] @ js ''rience'', [201] @ js ''ducation'',
           js ''Projets'', js ''Comp'' @ [233] @ js ''tences'', js ''Certifications'',
           js ''Publications'', js ''Brevets''],
         pack_notes = [js ''Photo sometimes used; for ATS mode, keep off.'',
           js ''Use accents correctly ('' @ [233] @ js '', '' @ [231] @ js '').''] \<rparr>),
      (js ''IN'', \<lparr> page_limit = Some 2, photo_allowed = False, date_format = monthRange,
         spelling = js ''en-IN'', sections = englishSections,
         pack_notes = [js ''Keep format ATS-simple; avoid images and tables.'',
           js ''Quantify impact (%, '' @ [8377] @ js '', time saved).''] \<rparr>)]"

text \<open>
  The two variables of the module. \<open>countryPacks\<close> starts as the same object as
  \<open>DEFAULT_PACKS\<close> and stays so when \<open>loadCountryPacks\<close> finds no file (it then returns
  \<open>DEFAULT_PACKS\<close>); \<open>aliased\<close> records that, and a write to \<open>countryPacks[country]\<close>
  is then a write to \<open>DEFAULT_PACKS[country]\<close> as well.
\<close>

record packStore =
  DEFAULT_PACKS :: "jsstring \<Rightarrow> pack option"
  countryPacks :: "jsstring \<Rightarrow> pack option"
  aliased :: bool

definition initialStore :: "(jsstring \<Rightarrow> pack option) option \<Rightarrow> packStore" where
  "initialStore loaded =
     (case loaded of
        None \<Rightarrow> \<lparr> DEFAULT_PACKS = map_of BUILTIN_PACKS, countryPacks = map_of BUILTIN_PACKS,
                  aliased = True \<rparr>
      | Some packs \<Rightarrow> \<lparr> DEFAULT_PACKS = map_of BUILTIN_PACKS, countryPacks = packs,
                        aliased = False \<rparr>)"

text \<open>
  The remote spec, by the fields the function reads: \<open>section_order\<close> and \<open>notes\<close> are
  \<open>None\<close> when they are no arrays, \<open>page_limit\<close> is \<open>None\<close> when it is \<open>null\<close> or
  missing, a missing string is the empty string, \<open>photo_allowed\<close> is its truthiness.
\<close>

record cvSpec =
  section_order :: "jsstring list option"
  spec_page_limit :: "nat option"
  spec_photo_allowed :: bool
  spec_date_format :: jsstring
  spec_spelling :: jsstring
  spec_notes :: "jsstring list option"

definition EXTRA_SECTIONS :: "jsstring list" where
  "EXTRA_SECTIONS = [js ''Projects'', js ''Certifications'', js ''Publications'', js ''Patents'']"

text \<open>\<open>ensureExtras\<close>; \<open>toLowerCase\<close> is the parameter \<open>lower\<close>. \<open>pushIfMissing\<close> is
  the body of its \<open>forEach\<close>.\<close>

definition pushIfMissing :: "(jsstring \<Rightarrow> jsstring) \<Rightarrow> jsstring list \<Rightarrow> jsstring \<Rightarrow> jsstring list" where
  "pushIfMissing lower out s = (if list_ex (\<lambda>x. lower x = lower s) out then out else out @ [s])"

definition ensureExtras :: "(jsstring \<Rightarrow> jsstring) \<Rightarrow> jsstring list \<Rightarrow> jsstring list" where
  "ensureExtras lower arr = foldl (pushIfMissing lower) arr EXTRA_SECTIONS"

text \<open>
  \<open>updateCountryPackFromGemini\<close>, given how \<open>fetchCVSpecCloudLocal\<close> ended. Any exception
  in the \<open>try\<close> block (the fetch, or reading \<open>DEFAULT_PACKS['UK'].sections\<close> when there is
  no such pack) is caught, and nothing is written.
\<close>

definition resolvedPack :: "(jsstring \<Rightarrow> jsstring) \<Rightarrow> pack option \<Rightarrow> jsstring list \<Rightarrow> cvSpec \<Rightarrow> pack" where
  "resolvedPack lower dflt baseSections spec =
     \<lparr> page_limit =
         (case spec_page_limit spec of
            Some n \<Rightarrow> Some n
          | None \<Rightarrow> (case dflt of
                       None \<Rightarrow> Some 2
                     | Some d \<Rightarrow> (case page_limit d of None \<Rightarrow> Some 2 | Some l \<Rightarrow> Some l))),
       photo_allowed = spec_photo_allowed spec,
       date_format =
         (if spec_date_format spec \<noteq> [] then spec_date_format spec
          else (case dflt of None \<Rightarrow> monthRange | Some d \<Rightarrow> date_format d)),
       spelling =
         (if spec_spelling spec \<noteq> [] then spec_spelling spec
          else (case dflt of None \<Rightarrow> js ''en-GB'' | Some d \<Rightarrow> spelling d)),
       sections =
         ensureExtras lower
           (case section_order spec of
              None \<Rightarrow> baseSections
            | Some xs \<Rightarrow> if xs \<noteq> [] then xs else baseSections),
       pack_notes =
         (case spec_notes spec of
            Some ns \<Rightarrow> ns
          | None \<Rightarrow> (case dflt of None \<Rightarrow> [] | Some d \<Rightarrow> pack_notes d)) \<rparr>"

definition updateCountryPackFromGemini ::
  "(jsstring \<Rightarrow> jsstring) \<Rightarrow> jsstring \<Rightarrow> cvSpec outcome \<Rightarrow> packStore \<Rightarrow> packStore" where
  "updateCountryPackFromGemini lower country fetched st =
     (case fetched of
        Throws \<Rightarrow> st
      | Returns spec \<Rightarrow>
          (case (case DEFAULT_PACKS st country of
                   Some d \<Rightarrow> Some (sections d)
                 | None \<Rightarrow> map_option sections (DEFAULT_PACKS st (js ''UK''))) of
             None \<Rightarrow> st
           | Some baseSections \<Rightarrow>
               (let p = resolvedPack lower (DEFAULT_PACKS st country) baseSections spec in
                st\<lparr> countryPacks := (countryPacks st)(country \<mapsto> p),
                    DEFAULT_PACKS := (if aliased st then (DEFAULT_PACKS st)(country \<mapsto> p)
                                      else DEFAULT_PACKS st) \<rparr>)))"

section \<open>Auxiliary notions for the proofs\<close>

text \<open>White space occurs in the string only as single characters U+0020, each followed
  by a character that is no white space or by the end of the string.\<close>

fun spaced :: "jsstring \<Rightarrow> bool" where
  "spaced [] = True"
| "spaced (c # cs) =
     ((if isSpace c then c = SP \<and> \<not> startsWith isSpace cs else True) \<and> spaced cs)"

text \<open>Three sets of backends of the Rewrite action: every tier fails; the on-device
  rewriter answers with a lone dash while the remote tiers would answer with a usable
  bullet; only the remote writer answers, with a lone dash.\<close>

definition allFail :: rewriteBackends where
  "allFail = \<lparr> ensureRewriter = Throws, rewrite = (\<lambda>t. Rejects),
     rewriteCloudLocal = (\<lambda>t. Throws), writeCloudLocal = (\<lambda>t. Throws) \<rparr>"

definition deviceDash :: rewriteBackends where
  "deviceDash = \<lparr> ensureRewriter = Returns (), rewrite = (\<lambda>t. Resolves (js ''-'')),
     rewriteCloudLocal = (\<lambda>t. Returns (js ''Built the release pipeline'')),
     writeCloudLocal = (\<lambda>t. Returns (js ''Built the release pipeline'')) \<rparr>"

definition writerDash :: rewriteBackends where
  "writerDash = \<lparr> ensureRewriter = Throws, rewrite = (\<lambda>t. Rejects),
     rewriteCloudLocal = (\<lambda>t. Throws), writeCloudLocal = (\<lambda>t. Returns (js ''-'')) \<rparr>"

text \<open>Two more: the on-device rewriter is missing and the remote rewrite answers with two
  marked lines; the on-device rewriter rejects, so that the original text is its answer.\<close>

definition remoteAnswers :: rewriteBackends where
  "remoteAnswers = \<lparr> ensureRewriter = Throws, rewrite = (\<lambda>t. Rejects),
     rewriteCloudLocal = (\<lambda>t. Returns (js ''- Built the release pipeline.'' @ 10 #
        js ''- Cut build time'')),
     writeCloudLocal = (\<lambda>t. Throws) \<rparr>"

definition deviceRejects :: rewriteBackends where
  "deviceRejects = \<lparr> ensureRewriter = Returns (), rewrite = (\<lambda>t. Rejects),
     rewriteCloudLocal = (\<lambda>t. Throws), writeCloudLocal = (\<lambda>t. Throws) \<rparr>"

text \<open>A matcher is sound when what it leaves is a suffix of the string that its
  continuation accepted.\<close>

definition rxSound :: "rx \<Rightarrow> bool" where
  "rxSound m = (\<forall>k s r. m k s = Some r \<longrightarrow> (\<exists>t. suffix t s \<and> k t = Some r))"

text \<open>Every white space character of the string is U+0020.\<close>

definition onlySP :: "jsstring \<Rightarrow> bool" where
  "onlySP s = list_all (\<lambda>c. if isSpace c then c = SP else True) s"

text \<open>The line after the white space has been collapsed, the meta line and the
  disclaimer clause removed: \<open>out5\<close> of \<open>sanitizeBulletLine\<close>.\<close>

definition bulletCore :: "jsstring \<Rightarrow> jsstring" where
  "bulletCore s =
     (let out3 = trim (collapseSpaces (removePrefixMatch BULLET_MARK_RE (stripMeta s)));
          out4 = (case META_LINE_RE Some out3 of None \<Rightarrow> out3 | Some r \<Rightarrow> trim r)
      in trim (removeFirst notClause None out4))"

text \<open>The elements of a list that are the first with their key, in the order of the
  list.\<close>

fun firstSeenBy :: "('a \<Rightarrow> 'b) \<Rightarrow> 'a list \<Rightarrow> 'a list" where
  "firstSeenBy key [] = []"
| "firstSeenBy key (x # xs) = x # firstSeenBy key (filter (\<lambda>y. key y \<noteq> key x) xs)"

text \<open>The literal \<open>p\<close> occurs in the string, in any case.\<close>

definition mentions :: "jsstring \<Rightarrow> jsstring \<Rightarrow> bool" where
  "mentions p t = anywhere (\<lambda>u. ciStrip p u \<noteq> None) t"

text \<open>
  A line on which the steps of \<open>sanitizeBulletLine\<close> other than the removal of the
  bullet mark have nothing to do: it is not empty, its white space is single spaces
  between words, it has at most 22 words, it does not start or end with a quote or end
  with one of the punctuation marks \<open>.;:,-\<close>, it holds no bad phrase, does not start with
  a meta line and has no clause that starts with the word \<open>not\<close>. Its first character
  may be a bullet mark.
\<close>

definition plainBullet :: "jsstring \<Rightarrow> bool" where
  "plainBullet t =
     (t \<noteq> [] \<and> spaced t \<and> \<not> isSpace (hd t) \<and> \<not> isQuote (hd t) \<and>
      \<not> isSpace (last t) \<and> \<not> isTrailPunct (last t) \<and> \<not> isQuote (last t) \<and>
      countWords t \<le> 22 \<and>
      list_all (\<lambda>p. \<not> mentions p t) BAD_PHRASES \<and>
      META_LINE_RE Some t = None \<and>
      \<not> matchesAnywhere notClause None t)"

text \<open>The test of \<open>sanitizeBulletList\<close> for a known bad phrase.\<close>

definition badLine :: "(jsstring \<Rightarrow> jsstring) \<Rightarrow> jsstring \<Rightarrow> bool" where
  "badLine lower s = list_ex (\<lambda>p. strIncludes (lower s) (lower p)) BAD_PHRASES"

text \<open>The invariant of a bullet line: it is not empty, holds no line feed, and is trimmed
  (as a typed line is) or has at most 22 words (as a sanitized line has).\<close>

definition bulletOK :: "jsstring \<Rightarrow> bool" where
  "bulletOK b = (b \<noteq> [] \<and> 10 \<notin> set b \<and> (trim b = b \<or> countWords b \<le> 22))"

definition documentOK :: "experience list \<Rightarrow> bool" where
  "documentOK es = list_all (\<lambda>e. list_all bulletOK (bullets e)) es"

text \<open>A bullet of 23 words, as a user may type it.\<close>

definition longBullet :: jsstring where
  "longBullet = js ''Coordinated the quarterly planning process across five product teams and two vendors while keeping the delivery roadmap and the budget forecast fully aligned''"

text \<open>Every bullet of the entries \<open>es'\<close> has at most 22 words or is a bullet of the
  entries \<open>es\<close>.\<close>

definition cappedOrOld :: "experience list \<Rightarrow> experience list \<Rightarrow> bool" where
  "cappedOrOld es es' =
     list_all (\<lambda>e'. list_all (\<lambda>b. countWords b \<le> 22 \<or> list_ex (\<lambda>e. b \<in> set (bullets e)) es)
                 (bullets e')) es'"

text \<open>Two remote specs for one country: the first names a section order of its own, the
  second has no \<open>section_order\<close>.\<close>

definition specWithOrder :: cvSpec where
  "specWithOrder = \<lparr> section_order = Some [js ''Profil''], spec_page_limit = None,
     spec_photo_allowed = False, spec_date_format = [], spec_spelling = [],
     spec_notes = None \<rparr>"

definition specWithoutOrder :: cvSpec where
  "specWithoutOrder = \<lparr> section_order = None, spec_page_limit = None,
     spec_photo_allowed = False, spec_date_format = [], spec_spelling = [],
     spec_notes = None \<rparr>"

definition germanSections :: "jsstring list" where
  "germanSections = [js ''Profil'', js ''Berufserfahrung'', js ''Ausbildung'', js ''Projekte'',
     js ''F'' @ [228] @ js ''higkeiten'', js ''Zertifikate'', js ''Publikationen'',
     js ''Patente'']"

section \<open>Word counts\<close>

lemma splitRuns_ne [simp]: "splitRuns P s \<noteq> []"
proof (induction s)
  case (Cons c cs)
  then show ?case by (cases "splitRuns P cs") simp_all
qed simp

lemma hd_splitRuns_Nil: "(hd (splitRuns P s) = []) = (\<not> s \<noteq> [] \<or> startsWith P s)"
proof (induction s)
  case (Cons c cs)
  then show ?case by (cases "splitRuns P cs") (auto simp: startsWith_def)
qed simp

lemma fb_splitRuns_Cons:
  "filterBoolean (splitRuns P (c # cs)) =
     (if P c then filterBoolean (splitRuns P cs)
      else (c # hd (splitRuns P cs)) # filterBoolean (tl (splitRuns P cs)))"
  by (cases "splitRuns P cs") (auto simp: filterBoolean_def)

lemma length_fb_tl:
  "length (filterBoolean (splitRuns P s)) =
     (if s = [] \<or> startsWith P s then 0 else 1) + length (filterBoolean (tl (splitRuns P s)))"
  using hd_splitRuns_Nil[of P s] by (cases "splitRuns P s") (auto simp: filterBoolean_def)

lemma countWords_Cons:
  "countWords (c # cs) =
     (if isSpace c then countWords cs
      else if cs = [] \<or> startsWith isSpace cs then Suc (countWords cs) else countWords cs)"
  unfolding countWords_def fb_splitRuns_Cons
  using length_fb_tl[of isSpace cs] by auto

lemma countWords_Nil [simp]: "countWords [] = 0"
  by (simp add: countWords_def filterBoolean_def)

lemma countWords_space_append:
  "isSpace c \<Longrightarrow> countWords (x @ c # y) = countWords x + countWords y"
proof (induction x)
  case Nil then show ?case by (simp add: countWords_Cons)
next
  case (Cons a x)
  have sw: "startsWith isSpace (x @ c # y) = (x = [] \<or> startsWith isSpace x)"
    using Cons.prems by (cases x) (simp_all add: startsWith_def)
  have "countWords ((a # x) @ c # y) =
      (if isSpace a then countWords (x @ c # y)
       else if startsWith isSpace (x @ c # y) then Suc (countWords (x @ c # y))
       else countWords (x @ c # y))"
    by (simp add: countWords_Cons)
  also have "\<dots> = countWords (a # x) + countWords y"
    unfolding sw Cons.IH[OF Cons.prems] by (simp add: countWords_Cons)
  finally show ?case .
qed

lemma isSpace_SP [simp]: "isSpace SP"
  by (simp add: isSpace_def SP_def)

lemma countWords_join:
  "countWords (joinWith [SP] xs) = sum_list (map countWords xs)"
proof (induction "[SP]" xs rule: joinWith.induct)
  case (3 x y ys)
  then show ?case using countWords_space_append[of SP x "joinWith [SP] (y # ys)"] by simp
qed simp_all

lemma wordCount_cv1100: "wordCount cv1100 = 1100"
proof -
  have x: "countWords (js ''x'') = 1"
    by (simp add: js_def countWords_Cons isSpace_def)
  show ?thesis
    unfolding wordCount_def textContentFromCV_def countWords_join
    by (simp add: cv1100_def emptyProfile_def x sum_list_replicate)
qed

section \<open>The ATS linter: headings and page estimate\<close>

lemma collectHeadings_standard: "set (collectHeadings c) \<subseteq> set STANDARD_HEADINGS"
proof -
  have m: "js ''Summary'' \<in> set STANDARD_HEADINGS" "js ''Experience'' \<in> set STANDARD_HEADINGS"
    "js ''Education'' \<in> set STANDARD_HEADINGS" "js ''Skills'' \<in> set STANDARD_HEADINGS"
    "js ''Projects'' \<in> set STANDARD_HEADINGS" "js ''Certifications'' \<in> set STANDARD_HEADINGS"
    unfolding STANDARD_HEADINGS_def by simp_all
  show ?thesis unfolding collectHeadings_def using m by auto
qed

lemma estPages_round: "int (estPages n) = max 1 (round (real n / 500))"
proof -
  have "real n / 500 + 1 / 2 = real (n + 250) / real 500"
    by (simp add: field_simps)
  then have "round (real n / 500) = \<lfloor>real (n + 250) / real 500\<rfloor>"
    unfolding round_def by (simp only:)
  also have "\<dots> = int ((n + 250) div 500)"
    by (simp only: floor_divide_of_nat_eq)
  finally show ?thesis by (simp add: estPages_def)
qed

lemma lintCV_pageLimit_iff:
  "list_ex isPageLimit (lintCV stringify c p h) = (effectiveLimit p < estPages (wordCount c))"
  by (auto simp: lintCV_def list_ex_iff split: option.splits)

text \<open>
  C10. For every CV document, rule pack and preview, the headings that
  \<open>collectHeadings\<close> derives all belong to \<open>STANDARD_HEADINGS\<close>, and the warning list
  of \<open>lintCV\<close> holds no warning for a non-standard section heading.
\<close>

theorem lintCV_no_nonstandard_heading:
  "set (collectHeadings c) \<subseteq> set STANDARD_HEADINGS \<and>
   \<not> list_ex isNonStandardHeading (lintCV stringify c p htmlPreview)"
proof -
  have "filter (\<lambda>h. h \<notin> set STANDARD_HEADINGS) (collectHeadings c) = []"
    using collectHeadings_standard[of c] by (auto simp: filter_empty_conv)
  then show ?thesis using collectHeadings_standard[of c]
    by (auto simp: lintCV_def list_ex_iff split: option.splits)
qed

theorem lintCV_no_nonstandard_heading_witness:
  "set (collectHeadings cv1100) \<subseteq> set STANDARD_HEADINGS \<and>
   \<not> list_ex isNonStandardHeading (lintCV (\<lambda>c. []) cv1100 packUS None)"
  using lintCV_no_nonstandard_heading[of cv1100 "\<lambda>c. []" packUS None] .

text \<open>
  C3, as the code has it. The estimated page count is the word count divided by 500 and
  rounded to the nearest integer (a tie upwards, \<open>Math.round\<close>), at least 1; the
  page-limit warning is emitted exactly when the estimate exceeds
  \<open>page_limit || 2\<close>, which is the pack's page limit whenever that is a positive number,
  and it carries the estimate. A document of 1100 words has an estimate of 2 pages and is
  warned against the page limit 1.
\<close>

theorem lintCV_page_estimate:
  "int (estPages (wordCount c)) = max 1 (round (real (wordCount c) / 500)) \<and>
   list_ex isPageLimit (lintCV stringify c p h) = (effectiveLimit p < estPages (wordCount c)) \<and>
   (page_limit p = Some l \<and> 0 < l \<longrightarrow>
      list_ex isPageLimit (lintCV stringify c p h) = (l < estPages (wordCount c))) \<and>
   (\<forall>w \<in> set (lintCV stringify c p h). isPageLimit w \<longrightarrow>
      w = PageLimit (estPages (wordCount c)) (page_limit p) (countryPack (meta c))) \<and>
   (wordCount c = 1100 \<and> page_limit p = Some 1 \<longrightarrow>
      PageLimit 2 (Some 1) (countryPack (meta c)) \<in> set (lintCV stringify c p h))"
proof (intro conjI)
  show "int (estPages (wordCount c)) = max 1 (round (real (wordCount c) / 500))"
    by (rule estPages_round)
  show "list_ex isPageLimit (lintCV stringify c p h) = (effectiveLimit p < estPages (wordCount c))"
    by (rule lintCV_pageLimit_iff)
  show "page_limit p = Some l \<and> 0 < l \<longrightarrow>
      list_ex isPageLimit (lintCV stringify c p h) = (l < estPages (wordCount c))"
    by (simp add: lintCV_pageLimit_iff effectiveLimit_def)
  show "\<forall>w \<in> set (lintCV stringify c p h). isPageLimit w \<longrightarrow>
      w = PageLimit (estPages (wordCount c)) (page_limit p) (countryPack (meta c))"
    by (auto simp: lintCV_def split: option.splits)
  show "wordCount c = 1100 \<and> page_limit p = Some 1 \<longrightarrow>
      PageLimit 2 (Some 1) (countryPack (meta c)) \<in> set (lintCV stringify c p h)"
    by (simp add: lintCV_def effectiveLimit_def estPages_def)
qed

theorem lintCV_page_estimate_witness:
  "estPages (wordCount cv1100) = 2 \<and>
   list_ex isPageLimit (lintCV (\<lambda>c. []) cv1100 packUS None) \<and>
   PageLimit 2 (Some 1) (js ''US'') \<in> set (lintCV (\<lambda>c. []) cv1100 packUS None)"
proof -
  have l: "page_limit packUS = Some 1" by (simp add: packUS_def)
  have k: "countryPack (meta cv1100) = js ''US''" by (simp add: cv1100_def)
  have e: "estPages (wordCount cv1100) = 2" by (simp add: wordCount_cv1100 estPages_def)
  show ?thesis
    using lintCV_page_estimate[of cv1100 "\<lambda>c. []" packUS None 1] l k e wordCount_cv1100
    by (simp add: effectiveLimit_def)
qed

text \<open>
  The claim as the specification states it fails at the document of 1100 words: the
  ceiling of 1100 / 500 is 3, the estimate of the code is 2.
\<close>

theorem lintCV_page_estimate_not_ceiling:
  "wordCount cv1100 = 1100 \<and>
   \<lceil>real (wordCount cv1100) / 500\<rceil> = 3 \<and>
   estPages (wordCount cv1100) = 2 \<and>
   lintCV (\<lambda>c. []) cv1100 packUS None = [PageLimit 2 (Some 1) (js ''US''), NoStandardDates]"
proof -
  have c: "\<lceil>real (wordCount cv1100) / 500\<rceil> = 3"
    unfolding wordCount_cv1100 by (simp add: ceiling_eq_iff)
  have e: "estPages (wordCount cv1100) = 2"
    unfolding wordCount_cv1100 by (simp add: estPages_def)
  have d: "dateRegex [] = False"
    by (simp add: dateRegex_def dateAt_def fourDigits_def months_def list_ex_iff)
  have h: "collectHeadings cv1100 = [js ''Skills'']"
    by (simp add: collectHeadings_def cv1100_def emptyProfile_def)
  have s: "js ''Skills'' \<in> set STANDARD_HEADINGS"
    unfolding STANDARD_HEADINGS_def by simp
  have k: "countryPack (meta cv1100) = js ''US''" by (simp add: cv1100_def)
  have l: "lintCV (\<lambda>c. []) cv1100 packUS None = [PageLimit 2 (Some 1) (js ''US''), NoStandardDates]"
    unfolding lintCV_def e h k d by (simp add: s effectiveLimit_def packUS_def)
  show ?thesis using wordCount_cv1100 c e l by simp
qed

section \<open>Evaluating the definitions\<close>

lemmas eval_strings = js_def isSpace_def SP_def trimStart_def trimEnd_def trim_def
  startsWith_def filterBoolean_def Let_def

lemmas eval_regex = canonicalize_def rxLit_def rxChar_def rxAlt_def rxSeq_def rxOpt_def
  removePrefixMatch_def wordAt_def isWordChar_def isLineTerminator_def

lemmas eval_sanitizers = eval_strings eval_regex isSentencePunct_def isBulletMark_def
  BULLET_MARK_RE_def ACTION_VERBS_def ACTION_VERB_RE_def resumeWord_def META_LINE_RE_def
  stripCodeFence_def BAD_PHRASES_def labelRx_def sanitizeOneLine_def firstClause_def
  capWords_def stripMeta_def isTrailPunct_def stripTrailPunct_def stripSpacedTrailPunct_def
  notClause_def isQuote_def stripQuotes_def sanitizeBulletLine_def MAX_BULLET_WORDS_def
  MAX_ROLE_WORDS_def MAX_TITLE_WORDS_def isHighSurrogate_def isLowSurrogate_def
  codePoint_def fieldChar_def isLNBasicLatin_def sanitizeRoleText_def sanitizeTitleText_def

lemma sanitizeBulletLine_two_marks: "sanitizeBulletLine (js ''- - foo'') = js ''- foo''"
  by (simp add: eval_sanitizers)

lemma sanitizeBulletLine_one_mark: "sanitizeBulletLine (js ''- foo'') = js ''foo''"
  by (simp add: eval_sanitizers)

lemmas eval_skills = eval_strings eval_regex ORDER_def newSet_def PRETTY_def norm_skill_def
  upperWordChar_def pretty_def CATS_LOCAL_def csStrip_def wordAtCS_def SQL_RE_def CICD_RE_def
  detectLocalCategory_def bucket_def pruneBuckets_def groupSkillsLocal_def toLowerCaseLatin1_def
  groupedCount_def aiArray_def groupSkillsAI_def MULTI_WORD_def joinMultiWord_def phraseAt_def
  isSkillSeparator_def tokenizeSkills_def normalizeSkillsAI_def splitSkillText_def
  OBJECT_PROTOTYPE_def isStr_def strings_def localeSort_def

section \<open>One-line text\<close>

lemma startsWith_Nil [simp]: "startsWith P [] = False"
  by (simp add: startsWith_def)

lemma startsWith_Cons [simp]: "startsWith P (c # cs) = P c"
  by (simp add: startsWith_def)

lemma trimEnd_Nil [simp]: "trimEnd [] = []"
  by (simp add: trimEnd_def)

lemma trimEnd_Cons:
  "trimEnd (c # cs) = (if isSpace c \<and> list_all isSpace cs then [] else c # trimEnd cs)"
  by (auto simp: trimEnd_def dropWhile_append list_all_iff)

lemma trimStart_Nil [simp]: "trimStart [] = []"
  by (simp add: trimStart_def)

lemma trimStart_Cons [simp]:
  "trimStart (c # cs) = (if isSpace c then trimStart cs else c # cs)"
  by (simp add: trimStart_def)

lemma startsWith_collapse [simp]:
  "startsWith isSpace (collapseSpaces s) = startsWith isSpace s"
  by (induction s) simp_all

lemma spaced_collapse: "spaced (collapseSpaces s)"
  by (induction s) simp_all

lemma spaced_trimStart: "spaced s \<Longrightarrow> spaced (trimStart s)"
  by (induction s) simp_all

lemma startsWith_trimEnd: "startsWith isSpace (trimEnd s) \<Longrightarrow> startsWith isSpace s"
  by (cases s) (simp_all add: trimEnd_Cons split: if_splits)

lemma spaced_trimEnd: "spaced s \<Longrightarrow> spaced (trimEnd s)"
proof (induction s)
  case (Cons c cs)
  then show ?case using startsWith_trimEnd[of cs] by (auto simp: trimEnd_Cons)
qed simp

lemma spaced_trim: "spaced s \<Longrightarrow> spaced (trim s)"
  by (simp add: trim_def spaced_trimStart spaced_trimEnd)

lemma spaced_no_lf: "spaced s \<Longrightarrow> 10 \<notin> set s"
  by (induction s) (auto simp: isSpace_def SP_def)

lemma replaceNewlines_id: "10 \<notin> set s \<Longrightarrow> replaceNewlines s = s"
proof (induction s)
  case (Cons c cs)
  then show ?case by (cases cs) auto
qed simp

lemma collapse_id: "spaced s \<Longrightarrow> collapseSpaces s = s"
  by (induction s) auto

lemma trimStart_id: "\<not> startsWith isSpace s \<Longrightarrow> trimStart s = s"
  by (cases s) simp_all

lemma not_startsWith_trimStart [simp]: "\<not> startsWith isSpace (trimStart s)"
  by (induction s) simp_all

lemma trimEnd_idem [simp]: "trimEnd (trimEnd s) = trimEnd s"
  by (simp add: trimEnd_def)

lemma not_startsWith_trim [simp]: "\<not> startsWith isSpace (trim s)"
  using startsWith_trimEnd[of "trimStart s"] by (auto simp: trim_def)

lemma trim_idem [simp]: "trim (trim s) = trim s"
proof -
  have "trimStart (trim s) = trim s" by (rule trimStart_id) simp
  then show ?thesis by (simp add: trim_def)
qed

lemma spaced_sanitizeOneLine: "spaced (sanitizeOneLine s)"
  by (simp add: sanitizeOneLine_def spaced_trim spaced_collapse)

lemma sanitizeOneLine_fix:
  assumes "spaced s" "trim s = s"
  shows "sanitizeOneLine s = s"
  using assms by (simp add: sanitizeOneLine_def replaceNewlines_id spaced_no_lf collapse_id)

lemma sanitizeOneLine_idem: "sanitizeOneLine (sanitizeOneLine s) = sanitizeOneLine s"
proof (rule sanitizeOneLine_fix)
  show "spaced (sanitizeOneLine s)" by (rule spaced_sanitizeOneLine)
  show "trim (sanitizeOneLine s) = sanitizeOneLine s" by (simp add: sanitizeOneLine_def)
qed

text \<open>The characters of a one-line text are those of the input, or the space.\<close>

lemma set_replaceNewlines: "set (replaceNewlines s) \<subseteq> insert SP (set s)"
  by (induction s) auto

lemma set_collapseSpaces: "set (collapseSpaces s) \<subseteq> insert SP (set s)"
  by (induction s) auto

lemma set_trimEnd: "set (trimEnd s) \<subseteq> set s"
  using set_dropWhileD[of _ isSpace "rev s"] by (auto simp: trimEnd_def)

lemma set_trimStart: "set (trimStart s) \<subseteq> set s"
  using set_dropWhileD[of _ isSpace s] by (auto simp: trimStart_def)

lemma set_trim: "set (trim s) \<subseteq> set s"
  using set_trimEnd[of "trimStart s"] set_trimStart[of s] by (auto simp: trim_def)

lemma set_sanitizeOneLine: "set (sanitizeOneLine s) \<subseteq> insert SP (set s)"
  using set_trim[of "collapseSpaces (replaceNewlines s)"]
    set_collapseSpaces[of "replaceNewlines s"] set_replaceNewlines[of s]
  by (auto simp: sanitizeOneLine_def)

lemma firstClause_no_punct: "c \<in> set (firstClause s) \<Longrightarrow> \<not> isSentencePunct c"
proof -
  assume "c \<in> set (firstClause s)"
  then have "c = SP \<or> c \<in> set (takeWhile (\<lambda>c. \<not> isSentencePunct c) s)"
    using set_sanitizeOneLine[of "takeWhile (\<lambda>c. \<not> isSentencePunct c) s"]
    by (auto simp: firstClause_def)
  then show ?thesis
    using set_takeWhileD[of c "\<lambda>c. \<not> isSentencePunct c" s]
    by (auto simp: isSentencePunct_def SP_def)
qed

lemma firstClause_idem: "firstClause (firstClause s) = firstClause s"
proof -
  have t: "takeWhile (\<lambda>c. \<not> isSentencePunct c) (firstClause s) = firstClause s"
    using firstClause_no_punct[of _ s] by (simp add: takeWhile_eq_all_conv)
  have "firstClause (firstClause s) = sanitizeOneLine (firstClause s)"
    unfolding firstClause_def[of "firstClause s"] t ..
  also have "\<dots> = firstClause s"
    by (simp add: firstClause_def sanitizeOneLine_idem)
  finally show ?thesis .
qed

text \<open>
  C6, as the code has it. \<open>sanitizeOneLine\<close> is idempotent, and so is \<open>firstClause\<close>:
  applied to its own output, each returns that output unchanged.
\<close>

theorem sanitizeOneLine_idempotent:
  "sanitizeOneLine (sanitizeOneLine s) = sanitizeOneLine s \<and>
   firstClause (firstClause s) = firstClause s"
  by (simp add: sanitizeOneLine_idem firstClause_idem)

theorem sanitizeOneLine_idempotent_witness:
  "sanitizeOneLine (js '' a  b '') = js ''a b'' \<and>
   sanitizeOneLine (sanitizeOneLine (js '' a  b '')) = js ''a b'' \<and>
   firstClause (firstClause (js '' a  b '')) = firstClause (js '' a  b '')"
proof -
  have "sanitizeOneLine (js '' a  b '') = js ''a b''"
    by (simp add: eval_sanitizers)
  then show ?thesis
    using sanitizeOneLine_idempotent[of "js '' a  b ''"] by simp
qed

text \<open>
  \<open>sanitizeBulletLine\<close> is not idempotent: it removes one leading bullet mark, so a line
  with two marks loses the second one only when it is sanitized again.
\<close>

theorem sanitizeBulletLine_not_idempotent:
  "sanitizeBulletLine (sanitizeBulletLine (js ''- - foo'')) \<noteq> sanitizeBulletLine (js ''- - foo'')"
proof -
  have "js ''foo'' \<noteq> js ''- foo''" by (simp add: js_def)
  then show ?thesis
    by (simp only: sanitizeBulletLine_two_marks sanitizeBulletLine_one_mark not_False_eq_True)
qed

section \<open>Role and title fields\<close>

lemma rxStar_skip:
  assumes "\<And>c cs. P c \<Longrightarrow> k (c # cs) = None"
  shows "rxStar P k s = k (dropWhile P s)"
  using assms by (induction s) (auto split: option.splits)

lemma rxStar_Some: "rxStar P Some s = Some (dropWhile P s)"
  by (induction s) auto

lemma bulletMark_not_space: "isSpace c \<Longrightarrow> \<not> isBulletMark c"
  by (auto simp: isSpace_def isBulletMark_def)

lemma BULLET_MARK_RE_match:
  "BULLET_MARK_RE Some s =
     (case dropWhile isSpace s of [] \<Rightarrow> None
      | c # r \<Rightarrow> if isBulletMark c then Some (dropWhile isSpace r) else None)"
proof -
  have "BULLET_MARK_RE Some s = rxStar isSpace (rxChar isBulletMark (rxStar isSpace Some)) s"
    by (simp only: BULLET_MARK_RE_def rxSeq_def)
  also have "\<dots> = rxChar isBulletMark (rxStar isSpace Some) (dropWhile isSpace s)"
    by (rule rxStar_skip) (simp add: rxChar_def bulletMark_not_space)
  also have "\<dots> = (case dropWhile isSpace s of [] \<Rightarrow> None
      | c # r \<Rightarrow> if isBulletMark c then Some (dropWhile isSpace r) else None)"
    by (cases "dropWhile isSpace s") (simp_all only: rxChar_def rxStar_Some list.case)
  finally show ?thesis .
qed

lemma trim_fixD:
  assumes "trim s = s"
  shows "\<not> startsWith isSpace s" "trimEnd s = s"
proof -
  show "\<not> startsWith isSpace s" using not_startsWith_trim[of s] assms by simp
  have "trimEnd (trim s) = trim s" by (simp add: trim_def)
  then show "trimEnd s = s" using assms by simp
qed

lemma trim_fixI: "\<not> startsWith isSpace s \<Longrightarrow> trimEnd s = s \<Longrightarrow> trim s = s"
  by (simp add: trim_def trimStart_id)

lemma trimEnd_trimStart_fix: "trimEnd s = s \<Longrightarrow> trimEnd (trimStart s) = trimStart s"
  by (induction s) (auto simp: trimEnd_Cons split: if_splits)

lemma spaced_tl: "spaced (c # cs) \<Longrightarrow> spaced cs"
  by simp

lemma stripBulletMark_tidy:
  assumes "spaced u" "trim u = u"
  shows "spaced (removePrefixMatch BULLET_MARK_RE u) \<and>
         trim (removePrefixMatch BULLET_MARK_RE u) = removePrefixMatch BULLET_MARK_RE u"
proof (cases "BULLET_MARK_RE Some u")
  case None
  then show ?thesis using assms by (simp add: removePrefixMatch_def)
next
  case (Some v)
  have ns: "\<not> startsWith isSpace u" and te: "trimEnd u = u"
    using trim_fixD[OF assms(2)] by simp_all
  from ns have d: "dropWhile isSpace u = u" using trimStart_id[of u] by (simp add: trimStart_def)
  from Some d obtain c r where u: "u = c # r" and v: "v = trimStart r"
    by (cases u) (auto simp: BULLET_MARK_RE_match trimStart_def split: if_splits)
  have "spaced r" using assms(1) u by simp
  then have s: "spaced v" by (simp add: v spaced_trimStart)
  have "trimEnd r = r" using te u by (auto simp: trimEnd_Cons split: if_splits)
  then have "trimEnd v = v" by (simp add: v trimEnd_trimStart_fix)
  then have "trim v = v" by (intro trim_fixI) (simp_all add: v)
  with s Some show ?thesis by (simp add: removePrefixMatch_def)
qed

lemma firstClause_tidy: "spaced (firstClause s) \<and> trim (firstClause s) = firstClause s"
  by (simp add: firstClause_def spaced_sanitizeOneLine) (simp add: sanitizeOneLine_def)

lemma cleanedPrev_fix:
  "sanitizeOneLine (removePrefixMatch BULLET_MARK_RE (firstClause prev)) =
   removePrefixMatch BULLET_MARK_RE (firstClause prev)"
  using stripBulletMark_tidy[of "firstClause prev"] firstClause_tidy[of prev]
  by (intro sanitizeOneLine_fix) simp_all

text \<open>
  C5, as the code has it. When the first clause of the one-lined input of
  \<open>sanitizeRoleText\<close>, its leading bullet mark removed, matches the action-verb pattern and
  the first clause of the previous value, its leading bullet mark removed, is not empty,
  the result is that clause of the previous value, whatever the input is; so the role
  candidate about a team of five engineers gives back the previous role
  \<open>Backend Engineer\<close>. \<open>sanitizeTitleText\<close> has no such fallback: when the capped first
  clause of its input matches the action-verb pattern, its result is made of the first
  six words of that clause, and the previous value is returned only when nothing of them
  is left.
\<close>

theorem sanitizeRoleText_action_verb:
  "(ACTION_VERB_RE (firstClause (removePrefixMatch BULLET_MARK_RE (sanitizeOneLine next))) \<and>
    removePrefixMatch BULLET_MARK_RE (firstClause prev) \<noteq> [] \<longrightarrow>
      sanitizeRoleText isLN next prev = removePrefixMatch BULLET_MARK_RE (firstClause prev)) \<and>
   sanitizeRoleText isLN
     (js ''Developed and led a team of 5 engineers to improve throughput'')
     (js ''Backend Engineer'') = js ''Backend Engineer'' \<and>
   (ACTION_VERB_RE (trim (stripTrailPunct (capWords (firstClause (sanitizeOneLine next)) MAX_TITLE_WORDS))) \<longrightarrow>
      sanitizeTitleText isLN next prev =
        (let kept = trim (keepFieldChars isLN
             (capWords (trim (stripTrailPunct
                (capWords (firstClause (sanitizeOneLine next)) MAX_TITLE_WORDS))) 6))
         in if kept \<noteq> [] then kept else prev))"
proof (intro conjI impI)
  assume "ACTION_VERB_RE (firstClause (removePrefixMatch BULLET_MARK_RE (sanitizeOneLine next))) \<and>
    removePrefixMatch BULLET_MARK_RE (firstClause prev) \<noteq> []"
  then show "sanitizeRoleText isLN next prev = removePrefixMatch BULLET_MARK_RE (firstClause prev)"
    by (simp add: sanitizeRoleText_def cleanedPrev_fix)
next
  show "sanitizeRoleText isLN
     (js ''Developed and led a team of 5 engineers to improve throughput'')
     (js ''Backend Engineer'') = js ''Backend Engineer''"
    by (simp add: eval_sanitizers)
next
  assume "ACTION_VERB_RE (trim (stripTrailPunct (capWords (firstClause (sanitizeOneLine next)) MAX_TITLE_WORDS)))"
  then show "sanitizeTitleText isLN next prev =
        (let kept = trim (keepFieldChars isLN
             (capWords (trim (stripTrailPunct
                (capWords (firstClause (sanitizeOneLine next)) MAX_TITLE_WORDS))) 6))
         in if kept \<noteq> [] then kept else prev)"
    by (simp add: sanitizeTitleText_def Let_def)
qed

lemma role_example_hyps:
  "ACTION_VERB_RE (firstClause (removePrefixMatch BULLET_MARK_RE (sanitizeOneLine
      (js ''Developed and led a team of 5 engineers to improve throughput''))))"
  "removePrefixMatch BULLET_MARK_RE (firstClause (js ''- Backend Engineer: platform'')) =
     js ''Backend Engineer''"
  by (simp_all add: eval_sanitizers)

theorem sanitizeRoleText_action_verb_witness:
  "sanitizeRoleText isLNBasicLatin
     (js ''Developed and led a team of 5 engineers to improve throughput'')
     (js ''- Backend Engineer: platform'') = js ''Backend Engineer''"
proof -
  have "js ''Backend Engineer'' \<noteq> []" by (simp add: js_def)
  then show ?thesis
    using sanitizeRoleText_action_verb[of
        "js ''Developed and led a team of 5 engineers to improve throughput''"
        "js ''- Backend Engineer: platform''" isLNBasicLatin]
      role_example_hyps
    by simp
qed

text \<open>
  The claim fails for \<open>sanitizeTitleText\<close>: on the same candidate and previous value it
  returns the first six words of the candidate, not the previous value.
\<close>

theorem sanitizeTitleText_keeps_input:
  "ACTION_VERB_RE (js ''Developed and led a team of 5 engineers to improve throughput'') \<and>
   sanitizeTitleText isLNBasicLatin
     (js ''Developed and led a team of 5 engineers to improve throughput'')
     (js ''Backend Engineer'') = js ''Developed and led a team of''"
  by (simp add: eval_sanitizers)

section \<open>The Rewrite action\<close>

lemmas eval_bullets = eval_sanitizers sanitizeBulletList_def strIncludes_def
  toLowerCaseLatin1_def rewriteCandidate_def typedBullets_def

lemma commitIfAny_simps [simp]:
  "newBullets (commitIfAny out bs ts) = (if out \<noteq> [] then out else bs)"
  "alerts (commitIfAny out bs ts) = []"
  "attempted (commitIfAny out bs ts) = ts"
  by (simp_all add: commitIfAny_def)

lemma candidate_dash: "rewriteCandidate toLowerCaseLatin1 (js ''-'') original = []"
  by (simp add: eval_bullets)

lemma candidate_two_lines:
  "rewriteCandidate toLowerCaseLatin1
     (js ''- Built the release pipeline.'' @ 10 # js ''- Cut build time'') original =
   [js ''Built the release pipeline'', js ''Cut build time'']"
  by (simp add: eval_bullets)

lemma candidate_original:
  "rewriteCandidate toLowerCaseLatin1 (js ''- Did things'') (js ''- Did things'') =
   [js ''Did things'']"
  by (simp add: eval_bullets)

lemma rewriteClick_newBullets:
  "newBullets (rewriteClick lower be bs) = bs \<or>
    (newBullets (rewriteClick lower be bs) \<noteq> [] \<and>
     (\<exists>reply. newBullets (rewriteClick lower be bs) =
                 rewriteCandidate lower reply (joinWith [10] bs)))"
  by (auto simp: rewriteClick_def remoteTiers_def Let_def split: outcome.splits promised.splits)

text \<open>
  C2, as the code has it. The action ends at the first tier that answers, in the order
  on-device rewriter, remote rewrite, remote writer; a tier is passed over exactly when
  it throws, which for the on-device tier means that \<open>ensureRewriter\<close> fails or the call
  of \<open>rewriter.rewrite\<close> throws (a rejected promise of \<open>rewriter.rewrite\<close> is no failure:
  the tier then answers with the original text). The tier that answers decides the
  outcome: when the sanitized candidate list made from its reply is not empty, the
  bullets become that list; when it is empty, the bullets stay as they were; in both
  cases no later tier is tried and no message is shown. When all three tiers throw, the
  bullets stay as they were and the one message is shown. The five cases cover every
  behaviour of the backends, so the tiers tried and the messages shown are as in the two
  equations at the end.
\<close>

theorem rewriteClick_tiers:
  "(let original = joinWith [10] bs;
        deviceThrows = (ensureRewriter be = Throws \<or> rewrite be original = CallThrows);
        answered = (\<lambda>tiers reply.
          \<lparr> newBullets = (if rewriteCandidate lower reply original \<noteq> []
                           then rewriteCandidate lower reply original else bs),
            alerts = [], attempted = tiers \<rparr>)
    in (\<forall>x. ensureRewriter be = Returns () \<and> rewrite be original = Resolves x \<longrightarrow>
          rewriteClick lower be bs = answered [DeviceRewriter] x) \<and>
       (ensureRewriter be = Returns () \<and> rewrite be original = Rejects \<longrightarrow>
          rewriteClick lower be bs = answered [DeviceRewriter] original) \<and>
       (\<forall>x. deviceThrows \<and> rewriteCloudLocal be original = Returns x \<longrightarrow>
          rewriteClick lower be bs = answered [DeviceRewriter, RemoteRewrite] x) \<and>
       (\<forall>x. deviceThrows \<and> rewriteCloudLocal be original = Throws \<and>
            writeCloudLocal be (WRITER_PROMPT @ original) = Returns x \<longrightarrow>
          rewriteClick lower be bs = answered [DeviceRewriter, RemoteRewrite, RemoteWriter] x) \<and>
       (deviceThrows \<and> rewriteCloudLocal be original = Throws \<and>
            writeCloudLocal be (WRITER_PROMPT @ original) = Throws \<longrightarrow>
          rewriteClick lower be bs =
            \<lparr> newBullets = bs, alerts = [js ''Rewriter failed.''],
              attempted = [DeviceRewriter, RemoteRewrite, RemoteWriter] \<rparr>) \<and>
       attempted (rewriteClick lower be bs) =
         (if \<not> deviceThrows then [DeviceRewriter]
          else if rewriteCloudLocal be original \<noteq> Throws then [DeviceRewriter, RemoteRewrite]
          else [DeviceRewriter, RemoteRewrite, RemoteWriter]) \<and>
       alerts (rewriteClick lower be bs) =
         (if deviceThrows \<and> rewriteCloudLocal be original = Throws \<and>
             writeCloudLocal be (WRITER_PROMPT @ original) = Throws
          then [js ''Rewriter failed.''] else []))"
proof -
  let ?o = "joinWith [10] bs"
  let ?dt = "ensureRewriter be = Throws \<or> rewrite be ?o = CallThrows"
  let ?ans = "\<lambda>tiers reply.
          \<lparr> newBullets = (if rewriteCandidate lower reply ?o \<noteq> []
                           then rewriteCandidate lower reply ?o else bs),
            alerts = [], attempted = tiers \<rparr>"
  have remote: "rewriteClick lower be bs = remoteTiers lower be bs" if "?dt"
    using that by (auto simp: rewriteClick_def Let_def split: outcome.splits promised.splits)
  have 1: "rewriteClick lower be bs = ?ans [DeviceRewriter] x"
    if "ensureRewriter be = Returns ()" "rewrite be ?o = Resolves x" for x
    using that by (simp add: rewriteClick_def Let_def commitIfAny_def)
  have 2: "rewriteClick lower be bs = ?ans [DeviceRewriter] ?o"
    if "ensureRewriter be = Returns ()" "rewrite be ?o = Rejects"
    using that by (simp add: rewriteClick_def Let_def commitIfAny_def)
  have 3: "rewriteClick lower be bs = ?ans [DeviceRewriter, RemoteRewrite] x"
    if "?dt" "rewriteCloudLocal be ?o = Returns x" for x
    using that(2) by (simp add: remote[OF that(1)] remoteTiers_def Let_def commitIfAny_def)
  have 4: "rewriteClick lower be bs = ?ans [DeviceRewriter, RemoteRewrite, RemoteWriter] x"
    if "?dt" "rewriteCloudLocal be ?o = Throws" "writeCloudLocal be (WRITER_PROMPT @ ?o) = Returns x"
    for x
    using that(2,3) by (simp add: remote[OF that(1)] remoteTiers_def Let_def commitIfAny_def)
  have 5: "rewriteClick lower be bs =
            \<lparr> newBullets = bs, alerts = [js ''Rewriter failed.''],
              attempted = [DeviceRewriter, RemoteRewrite, RemoteWriter] \<rparr>"
    if "?dt" "rewriteCloudLocal be ?o = Throws" "writeCloudLocal be (WRITER_PROMPT @ ?o) = Throws"
    using that(2,3) by (simp add: remote[OF that(1)] remoteTiers_def Let_def)
  have 6: "attempted (rewriteClick lower be bs) =
         (if \<not> ?dt then [DeviceRewriter]
          else if rewriteCloudLocal be ?o \<noteq> Throws then [DeviceRewriter, RemoteRewrite]
          else [DeviceRewriter, RemoteRewrite, RemoteWriter])"
    by (auto simp: rewriteClick_def remoteTiers_def Let_def split: outcome.splits promised.splits)
  have 7: "alerts (rewriteClick lower be bs) =
         (if ?dt \<and> rewriteCloudLocal be ?o = Throws \<and>
             writeCloudLocal be (WRITER_PROMPT @ ?o) = Throws
          then [js ''Rewriter failed.''] else [])"
    by (auto simp: rewriteClick_def remoteTiers_def Let_def split: outcome.splits promised.splits)
  show ?thesis
    unfolding Let_def using 1 2 3 4 5 6 7 by blast
qed

theorem rewriteClick_tiers_witness:
  "rewriteClick toLowerCaseLatin1 allFail [js ''Did things''] =
     \<lparr> newBullets = [js ''Did things''], alerts = [js ''Rewriter failed.''],
       attempted = [DeviceRewriter, RemoteRewrite, RemoteWriter] \<rparr> \<and>
   rewriteClick toLowerCaseLatin1 remoteAnswers [js ''Did things''] =
     \<lparr> newBullets = [js ''Built the release pipeline'', js ''Cut build time''], alerts = [],
       attempted = [DeviceRewriter, RemoteRewrite] \<rparr> \<and>
   rewriteClick toLowerCaseLatin1 deviceRejects [js ''- Did things''] =
     \<lparr> newBullets = [js ''Did things''], alerts = [], attempted = [DeviceRewriter] \<rparr>"
proof (intro conjI)
  show "rewriteClick toLowerCaseLatin1 allFail [js ''Did things''] =
     \<lparr> newBullets = [js ''Did things''], alerts = [js ''Rewriter failed.''],
       attempted = [DeviceRewriter, RemoteRewrite, RemoteWriter] \<rparr>"
    using rewriteClick_tiers[where be = allFail and bs = "[js ''Did things'']"
        and lower = toLowerCaseLatin1]
    by (simp add: Let_def allFail_def)
  show "rewriteClick toLowerCaseLatin1 remoteAnswers [js ''Did things''] =
     \<lparr> newBullets = [js ''Built the release pipeline'', js ''Cut build time''], alerts = [],
       attempted = [DeviceRewriter, RemoteRewrite] \<rparr>"
    using rewriteClick_tiers[where be = remoteAnswers and bs = "[js ''Did things'']"
        and lower = toLowerCaseLatin1]
    by (simp add: Let_def remoteAnswers_def candidate_two_lines)
  show "rewriteClick toLowerCaseLatin1 deviceRejects [js ''- Did things''] =
     \<lparr> newBullets = [js ''Did things''], alerts = [], attempted = [DeviceRewriter] \<rparr>"
    using rewriteClick_tiers[where be = deviceRejects and bs = "[js ''- Did things'']"
        and lower = toLowerCaseLatin1]
    by (simp add: Let_def deviceRejects_def candidate_original)
qed

text \<open>
  The claim fails on a rejected result. When the on-device rewriter answers with a lone
  dash, which sanitizes to no bullet, the remote tiers are not tried although they
  would answer; and when the remote writer, the last tier, answers so, every tier is
  exhausted without an accepted result and no message is shown.
\<close>

theorem rewriteClick_rejected_result_stops:
  "rewriteClick toLowerCaseLatin1 deviceDash [js ''Did things''] =
     \<lparr> newBullets = [js ''Did things''], alerts = [], attempted = [DeviceRewriter] \<rparr> \<and>
   rewriteClick toLowerCaseLatin1 writerDash [js ''Did things''] =
     \<lparr> newBullets = [js ''Did things''], alerts = [],
       attempted = [DeviceRewriter, RemoteRewrite, RemoteWriter] \<rparr>"
  by (simp add: rewriteClick_def remoteTiers_def deviceDash_def writerDash_def candidate_dash
      commitIfAny_def)
section \<open>Bullet lines\<close>

subsection \<open>What a match leaves is a suffix\<close>

lemma ciStrip_suffix: "ciStrip p s = Some r \<Longrightarrow> suffix r s"
proof (induction p s rule: ciStrip.induct)
  case (3 p ps c cs)
  then show ?case by (auto simp: suffix_Cons split: if_splits)
qed simp_all

lemma rxSound_rxLit: "rxSound (rxLit p)"
  using ciStrip_suffix by (auto simp: rxSound_def rxLit_def split: option.splits)

lemma rxSound_rxChar: "rxSound (rxChar P)"
  by (auto simp: rxSound_def rxChar_def suffix_Cons split: list.splits if_splits)

lemma rxSound_rxAlt: "rxSound a \<Longrightarrow> rxSound b \<Longrightarrow> rxSound (rxAlt a b)"
  unfolding rxSound_def rxAlt_def by (auto split: option.splits)

lemma rxSound_rxOpt: "rxSound a \<Longrightarrow> rxSound (rxOpt a)"
  unfolding rxSound_def rxOpt_def by (auto split: option.splits)

lemma rxSound_rxSeq: "rxSound a \<Longrightarrow> rxSound b \<Longrightarrow> rxSound (rxSeq a b)"
  unfolding rxSound_def rxSeq_def by (meson suffix_order.trans)

lemma rxStar_sound: "rxStar P k s = Some r \<Longrightarrow> \<exists>t. suffix t s \<and> k t = Some r"
proof (induction s)
  case Nil
  then show ?case by auto
next
  case (Cons c cs)
  show ?case
  proof (cases "P c \<and> rxStar P k cs \<noteq> None")
    case True
    then have "rxStar P k cs = Some r" using Cons.prems by auto
    then obtain t where "suffix t cs" "k t = Some r" using Cons.IH by blast
    then show ?thesis by (auto simp: suffix_Cons)
  next
    case False
    then have "k (c # cs) = Some r" using Cons.prems by (auto split: if_splits option.splits)
    then show ?thesis by blast
  qed
qed

lemma rxSound_rxStar: "rxSound (rxStar P)"
  using rxStar_sound by (auto simp: rxSound_def)

lemmas rxSound_intros = rxSound_rxLit rxSound_rxChar rxSound_rxAlt rxSound_rxOpt
  rxSound_rxSeq rxSound_rxStar

lemma rxSound_result: "rxSound m \<Longrightarrow> m Some s = Some r \<Longrightarrow> suffix r s"
  by (auto simp: rxSound_def)

lemma rxSound_META: "rxSound META_LINE_RE"
  unfolding META_LINE_RE_def resumeWord_def by (intro rxSound_intros)

lemma rxSound_BULLET: "rxSound BULLET_MARK_RE"
  unfolding BULLET_MARK_RE_def by (intro rxSound_intros)

lemma removePrefixMatch_suffix: "rxSound m \<Longrightarrow> suffix (removePrefixMatch m s) s"
  using rxSound_result[of m s] by (auto simp: removePrefixMatch_def split: option.splits)

lemma onlySP_subset: "set t \<subseteq> set s \<Longrightarrow> onlySP s \<Longrightarrow> onlySP t"
  by (auto simp: onlySP_def list_all_iff)

lemma onlySP_subset_SP: "set t \<subseteq> insert SP (set s) \<Longrightarrow> onlySP s \<Longrightarrow> onlySP t"
  by (auto simp: onlySP_def list_all_iff)

lemma spaced_onlySP: "spaced s \<Longrightarrow> onlySP s"
  by (induction s) (auto simp: onlySP_def)

lemma onlySP_no_lf: "onlySP s \<Longrightarrow> 10 \<notin> set s"
  by (auto simp: onlySP_def list_all_iff isSpace_def SP_def)

subsection \<open>Prefixes and suffixes\<close>

lemma prefix_trimEnd: "prefix (trimEnd s) s"
proof -
  have "rev s = takeWhile isSpace (rev s) @ dropWhile isSpace (rev s)" by simp
  then have "s = rev (dropWhile isSpace (rev s)) @ rev (takeWhile isSpace (rev s))"
    by (metis rev_append rev_rev_ident)
  then show ?thesis unfolding trimEnd_def by (metis prefixI)
qed

lemma suffix_trimStart: "suffix (trimStart s) s"
  by (simp add: trimStart_def suffix_dropWhile)

lemma countWords_tl_le: "countWords cs \<le> countWords (c # cs)"
  by (simp add: countWords_Cons)

lemma countWords_suffix: "suffix t s \<Longrightarrow> countWords t \<le> countWords s"
proof (induction s)
  case (Cons c cs)
  then show ?case using countWords_tl_le[of cs c] by (auto simp: suffix_Cons)
qed simp

lemma countWords_pos: "s \<noteq> [] \<Longrightarrow> \<not> startsWith isSpace s \<Longrightarrow> 0 < countWords s"
proof (induction s)
  case (Cons c cs)
  then show ?case by (cases cs) (auto simp: countWords_Cons)
qed simp

lemma countWords_append_le: "countWords xs \<le> countWords (xs @ ys)"
proof (induction xs)
  case (Cons c xs)
  show ?case
  proof (cases xs)
    case Nil
    then show ?thesis using countWords_pos[of ys] by (cases ys) (auto simp: countWords_Cons)
  next
    case (Cons d ds)
    have a: "countWords (c # xs) =
        (if isSpace c then countWords xs
         else if isSpace d then Suc (countWords xs) else countWords xs)"
      unfolding countWords_Cons[of c xs] by (simp add: Cons)
    have b: "countWords ((c # xs) @ ys) =
        (if isSpace c then countWords (xs @ ys)
         else if isSpace d then Suc (countWords (xs @ ys)) else countWords (xs @ ys))"
      unfolding append_Cons countWords_Cons[of c "xs @ ys"] by (simp add: Cons)
    show ?thesis unfolding a b using Cons.IH by simp
  qed
qed simp

lemma countWords_prefix: "prefix t s \<Longrightarrow> countWords t \<le> countWords s"
  using countWords_append_le by (auto simp: prefix_def)

lemma countWords_trimEnd_le: "countWords (trimEnd s) \<le> countWords s"
  by (simp add: countWords_prefix prefix_trimEnd)

lemma countWords_trimStart_le: "countWords (trimStart s) \<le> countWords s"
  by (simp add: countWords_suffix suffix_trimStart)

lemma countWords_trim_le: "countWords (trim s) \<le> countWords s"
  using countWords_trimEnd_le[of "trimStart s"] countWords_trimStart_le[of s]
  by (simp add: trim_def)

lemma set_prefix: "prefix t s \<Longrightarrow> set t \<subseteq> set s"
  by (auto simp: prefix_def)

lemma set_suffix: "suffix t s \<Longrightarrow> set t \<subseteq> set s"
  by (auto simp: suffix_def)

subsection \<open>Trailing punctuation and quotes\<close>

lemma prefix_stripSpacedTrailPunct: "prefix (stripSpacedTrailPunct s) s"
proof (cases "rev (trimEnd s)")
  case Nil
  then show ?thesis by (simp add: stripSpacedTrailPunct_def)
next
  case (Cons c r)
  then have "trimEnd s = rev r @ [c]" by (metis rev.simps(2) rev_rev_ident)
  then have "prefix (rev r) s" using prefix_trimEnd[of s] by (metis prefix_order.trans prefixI)
  then have "prefix (trimEnd (rev r)) s" using prefix_trimEnd[of "rev r"] by (rule prefix_order.trans[rotated])
  then show ?thesis using Cons by (simp add: stripSpacedTrailPunct_def)
qed

lemma stripQuotes_sub:
  "countWords (stripQuotes s) \<le> countWords s \<and> set (stripQuotes s) \<subseteq> set s"
proof -
  let ?d = "dropWhile isQuote s"
  have s: "suffix ?d s" by (rule suffix_dropWhile)
  have "rev ?d = takeWhile isQuote (rev ?d) @ dropWhile isQuote (rev ?d)" by simp
  then have "?d = rev (dropWhile isQuote (rev ?d)) @ rev (takeWhile isQuote (rev ?d))"
    by (metis rev_append rev_rev_ident)
  then have p: "prefix (stripQuotes s) ?d" unfolding stripQuotes_def by (metis prefixI)
  show ?thesis
    using countWords_prefix[OF p] countWords_suffix[OF s] set_prefix[OF p] set_suffix[OF s]
    by auto
qed

subsection \<open>Splitting at spaces\<close>

lemma splitChar_ne [simp]: "splitChar x s \<noteq> []"
proof (induction s)
  case (Cons c cs)
  then show ?case by (cases "splitChar x cs") simp_all
qed simp

lemma join_splitChar: "joinWith [x] (splitChar x s) = s"
proof (induction s)
  case (Cons c cs)
  then show ?case by (cases "splitChar x cs"; cases "tl (splitChar x cs)") auto
qed simp

lemma splitChar_pieces: "p \<in> set (splitChar x s) \<Longrightarrow> x \<notin> set p \<and> set p \<subseteq> set s"
proof (induction s arbitrary: p)
  case (Cons c cs)
  obtain q qs where q: "splitChar x cs = q # qs" by (cases "splitChar x cs") simp_all
  have ih: "x \<notin> set r \<and> set r \<subseteq> set cs" if "r \<in> set (q # qs)" for r
    using Cons.IH[of r] that q by simp
  show ?case
  proof (cases "c = x")
    case True
    then have "p = [] \<or> p \<in> set (q # qs)" using Cons.prems q by auto
    then show ?thesis using ih by auto
  next
    case False
    then have "p = c # q \<or> p \<in> set qs" using Cons.prems q by auto
    then show ?thesis using ih[of q] ih[of p] False by auto
  qed
qed simp

lemma countWords_nospace:
  "list_all (\<lambda>c. \<not> isSpace c) w \<Longrightarrow> countWords w = (if w = [] then 0 else 1)"
proof (induction w)
  case (Cons c w)
  then show ?case by (cases w) (auto simp: countWords_Cons)
qed simp

lemma sum_countWords_pieces:
  "list_all (list_all (\<lambda>c. \<not> isSpace c)) ps \<Longrightarrow>
   sum_list (map countWords ps) = length (filterBoolean ps)"
  by (induction ps) (auto simp: countWords_nospace filterBoolean_def)

lemma pieces_nospace:
  assumes "onlySP s"
  shows "list_all (list_all (\<lambda>c. \<not> isSpace c)) (splitChar SP s)"
proof -
  have "\<not> isSpace c" if "p \<in> set (splitChar SP s)" "c \<in> set p" for p c
  proof
    assume sp: "isSpace c"
    have "c \<in> set s" "SP \<notin> set p" using splitChar_pieces[OF that(1)] that(2) by auto
    then show False using assms sp that(2) by (auto simp: onlySP_def list_all_iff)
  qed
  then show ?thesis by (auto simp: list_all_iff)
qed

lemma countWords_onlySP: "onlySP s \<Longrightarrow> countWords s = length (filterBoolean (splitChar SP s))"
  using countWords_join[of "splitChar SP s"] sum_countWords_pieces[OF pieces_nospace]
  by (simp add: join_splitChar)

lemma countWords_take_words:
  assumes "onlySP s"
  shows "countWords (joinWith [SP] (take n (filterBoolean (splitChar SP s)))) \<le> n"
proof -
  have "list_all (list_all (\<lambda>c. \<not> isSpace c)) (take n (filterBoolean (splitChar SP s)))"
    using pieces_nospace[OF assms] set_take_subset[of n "filterBoolean (splitChar SP s)"]
    by (auto simp: list_all_iff filterBoolean_def)
  then have "countWords (joinWith [SP] (take n (filterBoolean (splitChar SP s)))) =
      length (filterBoolean (take n (filterBoolean (splitChar SP s))))"
    by (simp add: countWords_join sum_countWords_pieces)
  also have "\<dots> \<le> n" by (simp add: filterBoolean_def le_trans[OF length_filter_le])
  finally show ?thesis .
qed

lemma set_joinWith: "set (joinWith sep xs) \<subseteq> set sep \<union> \<Union> (set ` set xs)"
  by (induction sep xs rule: joinWith.induct) auto

lemma set_take_words:
  "set (joinWith [SP] (take n (filterBoolean (splitChar SP s)))) \<subseteq> insert SP (set s)"
proof -
  have "\<Union> (set ` set (take n (filterBoolean (splitChar SP s)))) \<subseteq> set s"
    using splitChar_pieces[of _ SP s] set_take_subset[of n "filterBoolean (splitChar SP s)"]
    by (auto simp: filterBoolean_def)
  then show ?thesis
    using set_joinWith[of "[SP]" "take n (filterBoolean (splitChar SP s))"] by fastforce
qed

lemma lazyToCommaOrStop_suffix: "lazyToCommaOrStop s = Some r \<Longrightarrow> suffix r s"
  by (induction s) (auto simp: suffix_Cons split: if_splits)

lemma notClause_suffix: "notClause prev s = Some r \<Longrightarrow> suffix r s"
proof -
  assume a: "notClause prev s = Some r"
  then obtain t where t: "ciStrip (js ''not'') s = Some t" "lazyToCommaOrStop t = Some r"
    by (auto simp: notClause_def wordAt_def split: option.splits if_splits)
  then show ?thesis
    using ciStrip_suffix[OF t(1)] lazyToCommaOrStop_suffix[OF t(2)] by (meson suffix_order.trans)
qed

lemma set_removeFirst:
  assumes "\<And>prev t r. m prev t = Some r \<Longrightarrow> suffix r t"
  shows "set (removeFirst m prev s) \<subseteq> set s"
proof (induction s arbitrary: prev)
  case Nil
  show ?case
  proof (cases "m prev []")
    case None
    then show ?thesis by simp
  next
    case (Some r)
    then show ?thesis using assms[OF Some] by simp
  qed
next
  case (Cons c cs)
  show ?case
  proof (cases "m prev (c # cs)")
    case None
    then show ?thesis using Cons.IH[of "Some c"] by auto
  next
    case (Some r)
    then show ?thesis using set_suffix[OF assms[OF Some]] by simp
  qed
qed

lemma set_removeNot: "set (trim (removeFirst notClause None x)) \<subseteq> set x"
proof -
  have "set (removeFirst notClause None x) \<subseteq> set x"
    by (rule set_removeFirst) (rule notClause_suffix)
  then show ?thesis using set_trim[of "removeFirst notClause None x"] by blast
qed

lemma set_metaLine:
  "set (case META_LINE_RE Some x of None \<Rightarrow> x | Some r \<Rightarrow> trim r) \<subseteq> set x"
proof (cases "META_LINE_RE Some x")
  case None
  then show ?thesis by simp
next
  case (Some r)
  then show ?thesis
    using set_suffix[OF rxSound_result[OF rxSound_META Some]] set_trim[of r] by auto
qed

lemma onlySP_bulletCore: "onlySP (bulletCore s)"
proof -
  define o3 where "o3 = trim (collapseSpaces (removePrefixMatch BULLET_MARK_RE (stripMeta s)))"
  define o4 where "o4 = (case META_LINE_RE Some o3 of None \<Rightarrow> o3 | Some r \<Rightarrow> trim r)"
  have 3: "onlySP o3" unfolding o3_def by (intro spaced_onlySP spaced_trim spaced_collapse)
  have 4: "onlySP o4" unfolding o4_def using set_metaLine[of o3] 3 by (rule onlySP_subset)
  have "onlySP (trim (removeFirst notClause None o4))"
    using set_removeNot[of o4] 4 by (rule onlySP_subset)
  then show ?thesis unfolding bulletCore_def Let_def o4_def o3_def .
qed

lemma sanitizeBulletLine_core:
  "sanitizeBulletLine s =
     (let out5 = bulletCore s;
          words = filterBoolean (splitChar SP out5);
          out6 = (if length words > MAX_BULLET_WORDS
                  then joinWith [SP] (take MAX_BULLET_WORDS words) else out5)
      in stripQuotes (trim (stripSpacedTrailPunct out6)))"
  by (simp add: sanitizeBulletLine_def bulletCore_def Let_def)

lemma capped_tail:
  assumes "onlySP x" "countWords x \<le> n"
  shows "onlySP (stripQuotes (trim (stripSpacedTrailPunct x))) \<and>
         countWords (stripQuotes (trim (stripSpacedTrailPunct x))) \<le> n"
proof -
  let ?a = "stripSpacedTrailPunct x"
  have a: "set ?a \<subseteq> set x" "countWords ?a \<le> countWords x"
    using prefix_stripSpacedTrailPunct[of x] by (simp_all add: set_prefix countWords_prefix)
  have b: "set (trim ?a) \<subseteq> set ?a" "countWords (trim ?a) \<le> countWords ?a"
    by (simp_all add: set_trim countWords_trim_le)
  have c: "set (stripQuotes (trim ?a)) \<subseteq> set (trim ?a)"
    "countWords (stripQuotes (trim ?a)) \<le> countWords (trim ?a)"
    using stripQuotes_sub[of "trim ?a"] by simp_all
  have "set (stripQuotes (trim ?a)) \<subseteq> set x" using a(1) b(1) c(1) by blast
  then have "onlySP (stripQuotes (trim ?a))" using assms(1) by (rule onlySP_subset)
  moreover have "countWords (stripQuotes (trim ?a)) \<le> n"
    using a(2) b(2) c(2) assms(2) by linarith
  ultimately show ?thesis by simp
qed

lemma sanitizeBulletLine_bounds:
  "onlySP (sanitizeBulletLine s) \<and> countWords (sanitizeBulletLine s) \<le> 22"
proof -
  let ?o5 = "bulletCore s"
  let ?w = "filterBoolean (splitChar SP ?o5)"
  let ?o6 = "if length ?w > MAX_BULLET_WORDS then joinWith [SP] (take MAX_BULLET_WORDS ?w) else ?o5"
  have 5: "onlySP ?o5" by (rule onlySP_bulletCore)
  have 6: "onlySP ?o6 \<and> countWords ?o6 \<le> 22"
  proof (cases "length ?w > MAX_BULLET_WORDS")
    case True
    have "onlySP (joinWith [SP] (take MAX_BULLET_WORDS ?w))"
      using set_take_words[of MAX_BULLET_WORDS ?o5] 5 by (rule onlySP_subset_SP)
    moreover have "countWords (joinWith [SP] (take MAX_BULLET_WORDS ?w)) \<le> 22"
      using countWords_take_words[OF 5, of MAX_BULLET_WORDS] by (simp add: MAX_BULLET_WORDS_def)
    ultimately show ?thesis using True by simp
  next
    case False
    then have "countWords ?o5 \<le> 22"
      using countWords_onlySP[OF 5] by (simp add: MAX_BULLET_WORDS_def)
    then show ?thesis using False 5 by simp
  qed
  show ?thesis
    unfolding sanitizeBulletLine_core Let_def
    using capped_tail[of ?o6 22] 6 by blast
qed

lemma loop_member:
  "x \<in> set (sanitizeBulletLoop lower seen ls) \<Longrightarrow>
   x \<noteq> [] \<and> x \<in> sanitizeBulletLine ` set ls \<and> lower x \<notin> set seen \<and> \<not> badLine lower x"
proof (induction ls arbitrary: seen)
  case (Cons l ls)
  let ?s = "sanitizeBulletLine l"
  consider (here) "x = ?s" "?s \<noteq> []" "\<not> badLine lower ?s" "lower ?s \<notin> set seen"
    | (skip) "x \<in> set (sanitizeBulletLoop lower seen ls)"
    | (later) "x \<in> set (sanitizeBulletLoop lower (lower ?s # seen) ls)"
    using Cons.prems by (auto simp: Let_def badLine_def split: if_splits)
  then show ?case
  proof cases
    case here
    then show ?thesis by simp
  next
    case skip
    then show ?thesis using Cons.IH[of seen] by auto
  next
    case later
    then show ?thesis using Cons.IH[of "lower ?s # seen"] by auto
  qed
qed simp

lemma loop_distinct: "distinct (map lower (sanitizeBulletLoop lower seen ls))"
proof (induction ls arbitrary: seen)
  case (Cons l ls)
  let ?s = "sanitizeBulletLine l"
  have "lower ?s \<notin> lower ` set (sanitizeBulletLoop lower (lower ?s # seen) ls)"
  proof
    assume "lower ?s \<in> lower ` set (sanitizeBulletLoop lower (lower ?s # seen) ls)"
    then obtain x where x: "x \<in> set (sanitizeBulletLoop lower (lower ?s # seen) ls)"
      and e: "lower ?s = lower x" by auto
    have "lower x \<notin> set (lower ?s # seen)" using loop_member[OF x] by blast
    then show False using e by simp
  qed
  then show ?case using Cons.IH[of seen] Cons.IH[of "lower ?s # seen"] by (simp add: Let_def)
qed simp

lemma loop_subseq: "subseq (sanitizeBulletLoop lower seen ls) (map sanitizeBulletLine ls)"
  by (induction ls arbitrary: seen) (auto simp: Let_def)

lemma sanitizeBulletList_member:
  assumes "l \<in> set (sanitizeBulletList lower lines)"
  shows "l \<noteq> []" "onlySP l" "countWords l \<le> 22" "10 \<notin> set l" "\<not> badLine lower l"
proof -
  from assms obtain x where x: "l = sanitizeBulletLine x" and ne: "l \<noteq> []" and b: "\<not> badLine lower l"
    using loop_member[of l lower "[]" lines] by (auto simp: sanitizeBulletList_def)
  show "l \<noteq> []" by (rule ne)
  show "\<not> badLine lower l" by (rule b)
  show "onlySP l" "countWords l \<le> 22" using sanitizeBulletLine_bounds[of x] x by simp_all
  then show "10 \<notin> set l" by (simp add: onlySP_no_lf)
qed

lemma sanitizeBulletList_example:
  "sanitizeBulletList toLowerCaseLatin1 [js ''- Foo bar'', js ''foo BAR.'', js ''- - baz''] =
     [js ''Foo bar'', js ''- baz'']"
  by (simp add: eval_bullets)

text \<open>The loop keeps, of the sanitized lines that are not empty and hold no bad phrase,
  the first of every lower-cased form.\<close>

lemma loop_firstSeen:
  "sanitizeBulletLoop lower seen ls =
   firstSeenBy lower
     (filter (\<lambda>s. (s \<noteq> [] \<and> \<not> badLine lower s) \<and> lower s \<notin> set seen)
        (map sanitizeBulletLine ls))"
proof (induction ls arbitrary: seen)
  case (Cons l ls)
  let ?s = "sanitizeBulletLine l"
  show ?case
  proof (cases "(?s \<noteq> [] \<and> \<not> badLine lower ?s) \<and> lower ?s \<notin> set seen")
    case True
    have "filter (\<lambda>y. lower y \<noteq> lower ?s)
            (filter (\<lambda>s. (s \<noteq> [] \<and> \<not> badLine lower s) \<and> lower s \<notin> set seen)
               (map sanitizeBulletLine ls)) =
          filter (\<lambda>s. (s \<noteq> [] \<and> \<not> badLine lower s) \<and> lower s \<notin> set (lower ?s # seen))
            (map sanitizeBulletLine ls)"
      unfolding filter_filter by (rule filter_cong) auto
    then show ?thesis
      using True Cons.IH[of "lower ?s # seen"] by (simp add: Let_def badLine_def)
  next
    case False
    then show ?thesis using Cons.IH[of seen] by (auto simp: Let_def badLine_def)
  qed
qed simp

lemma find_filter_weaker: "(\<And>y. P y \<Longrightarrow> Q y) \<Longrightarrow> find P (filter Q xs) = find P xs"
  by (induction xs) auto

lemma find_Some_mem: "find P xs = Some x \<Longrightarrow> x \<in> set xs \<and> P x"
  by (induction xs) (auto split: if_splits)

lemma firstSeenBy_find:
  "x \<in> set (firstSeenBy key xs) \<Longrightarrow> find (\<lambda>y. key y = key x) xs = Some x"
proof (induction key xs rule: firstSeenBy.induct)
  case (2 key x0 xs)
  show ?case
  proof (cases "x = x0")
    case True
    then show ?thesis by simp
  next
    case False
    then have m: "x \<in> set (firstSeenBy key (filter (\<lambda>y. key y \<noteq> key x0) xs))"
      using "2.prems" by simp
    then have f: "find (\<lambda>y. key y = key x) (filter (\<lambda>y. key y \<noteq> key x0) xs) = Some x"
      by (rule "2.IH")
    then have "x \<in> set (filter (\<lambda>y. key y \<noteq> key x0) xs)"
      using find_Some_mem by fast
    then have k: "key x \<noteq> key x0" by simp
    then have "find (\<lambda>y. key y = key x) (filter (\<lambda>y. key y \<noteq> key x0) xs) =
               find (\<lambda>y. key y = key x) xs"
      by (intro find_filter_weaker) auto
    then show ?thesis using f k by auto
  qed
qed simp

text \<open>A line that starts with a bullet mark and goes on with a plain line: the steps
  before the removal of the mark do not touch it, the removal takes the mark and the
  white space after it, and the steps after it do not touch the rest.\<close>

lemma trimEnd_id: "s \<noteq> [] \<Longrightarrow> \<not> isSpace (last s) \<Longrightarrow> trimEnd s = s"
  by (cases s rule: rev_cases) (simp_all add: trimEnd_def)

lemma stripCodeFence_id:
  assumes "t \<noteq> []" "hd t \<noteq> 96" "last t \<noteq> 96"
  shows "stripCodeFence t = t"
proof -
  have a: "takeWhile (\<lambda>c. c = 96) t = []" using assms(1,2) by (cases t) simp_all
  have b: "takeWhile (\<lambda>c. c = 96) (rev t) = []"
    using assms(1,3) by (cases t rule: rev_cases) simp_all
  show ?thesis by (simp add: stripCodeFence_def Let_def a b)
qed

lemma mark_props:
  assumes "isBulletMark m"
  shows "\<not> isSpace m" "m \<noteq> 96" "canonicalize m = m" "m \<noteq> 42" "m \<noteq> 79" "m \<noteq> 67"
  using assms by (auto simp: isBulletMark_def isSpace_def canonicalize_def)

lemma labels_marked:
  assumes "isBulletMark m"
  shows "removePrefixMatch
           (rxSeq (rxStar isSpace) (rxSeq (rxLit (js ''**''))
              (rxSeq (labelRx (rxLit (js '':**''))) (rxStar isSpace)))) (m # r) = m # r"
    and "removePrefixMatch
           (rxSeq (rxStar isSpace) (rxSeq (labelRx (rxLit (js '':''))) (rxStar isSpace)))
           (m # r) = m # r"
  using mark_props[OF assms]
  by (simp_all add: removePrefixMatch_def rxSeq_def rxLit_def rxAlt_def labelRx_def js_def
      canonicalize_def)

lemma bad_phrase_start:
  "p \<in> set BAD_PHRASES \<Longrightarrow> isSpace c \<or> isBulletMark c \<Longrightarrow> ciStrip p (c # cs) = None"
  by (auto simp: BAD_PHRASES_def js_def canonicalize_def isSpace_def isBulletMark_def)

lemma bad_phrase_ne: "p \<in> set BAD_PHRASES \<Longrightarrow> p \<noteq> []"
  by (auto simp: BAD_PHRASES_def js_def)

lemma mentions_Cons:
  "mentions p (c # cs) = (ciStrip p (c # cs) \<noteq> None \<or> mentions p cs)"
  by (simp add: mentions_def)

lemma mentions_marked:
  assumes "p \<in> set BAD_PHRASES" "isBulletMark m" "list_all isSpace ws"
  shows "mentions p (m # ws @ t) = mentions p t"
proof -
  have "mentions p (ws @ t) = mentions p t" using assms(3)
    by (induction ws) (simp_all add: mentions_Cons bad_phrase_start[OF assms(1)])
  then show ?thesis using assms(2) by (simp add: mentions_Cons bad_phrase_start[OF assms(1)])
qed

lemma removeAllCI_id: "\<not> mentions p s \<Longrightarrow> removeAllCI p 0 s = s"
  by (induction s) (simp_all add: mentions_Cons)

lemma fold_id: "(\<And>x. x \<in> set xs \<Longrightarrow> f x s = s) \<Longrightarrow> fold f xs s = s"
  by (induction xs) simp_all

lemma dropWhile_spaces:
  "list_all isSpace ws \<Longrightarrow> t \<noteq> [] \<Longrightarrow> \<not> isSpace (hd t) \<Longrightarrow> dropWhile isSpace (ws @ t) = t"
  by (induction ws) (cases t; simp)+

lemma removeFirst_id: "\<not> matchesAnywhere m prev s \<Longrightarrow> removeFirst m prev s = s"
  by (induction s arbitrary: prev) auto

lemma stripSpacedTrailPunct_id:
  assumes "s \<noteq> []" "\<not> isSpace (last s)" "\<not> isTrailPunct (last s)"
  shows "stripSpacedTrailPunct s = s"
  using assms trimEnd_id[OF assms(1,2)]
  by (cases s rule: rev_cases) (simp_all add: stripSpacedTrailPunct_def)

lemma stripQuotes_id:
  assumes "s \<noteq> []" "\<not> isQuote (hd s)" "\<not> isQuote (last s)"
  shows "stripQuotes s = s"
proof -
  have a: "dropWhile isQuote s = s" using assms(1,2) by (cases s) simp_all
  have b: "dropWhile isQuote (rev s) = rev s"
    using assms(1,3) by (cases s rule: rev_cases) simp_all
  show ?thesis by (simp add: stripQuotes_def a b)
qed

lemma stripMeta_marked:
  assumes m: "isBulletMark m" and ws: "list_all isSpace ws" and t: "plainBullet t"
  shows "stripMeta (m # ws @ t) = m # ws @ t"
proof -
  let ?s = "m # ws @ t"
  from t have ne: "t \<noteq> []" and l: "\<not> isSpace (last t)" "\<not> isQuote (last t)"
    and bad: "list_all (\<lambda>p. \<not> mentions p t) BAD_PHRASES"
    by (simp_all add: plainBullet_def)
  have last: "last ?s = last t" using ne by simp
  have "last t \<noteq> 96" using l(2) by (auto simp: isQuote_def)
  then have 1: "stripCodeFence ?s = ?s"
    using mark_props(2)[OF m] last by (intro stripCodeFence_id) simp_all
  have "removeAllCI p 0 ?s = ?s" if "p \<in> set BAD_PHRASES" for p
    using bad that mentions_marked[OF that m ws, of t]
    by (intro removeAllCI_id) (simp add: list_all_iff)
  then have 4: "fold (\<lambda>p t. removeAllCI p 0 t) BAD_PHRASES ?s = ?s" by (rule fold_id)
  have "trimEnd ?s = ?s" using l(1) last by (intro trimEnd_id) simp_all
  then have 5: "trim ?s = ?s"
    using mark_props(1)[OF m] by (intro trim_fixI) simp_all
  show ?thesis
    unfolding stripMeta_def Let_def 1 labels_marked[OF m, of "ws @ t"] 4 5 ..
qed

lemma sanitizeBulletLine_marked:
  assumes m: "isBulletMark m" and ws: "list_all isSpace ws" and t: "plainBullet t"
  shows "sanitizeBulletLine (m # ws @ t) = t"
proof -
  from t have ne: "t \<noteq> []" and sp: "spaced t" and h: "\<not> isSpace (hd t)" "\<not> isQuote (hd t)"
    and l: "\<not> isSpace (last t)" "\<not> isTrailPunct (last t)" "\<not> isQuote (last t)"
    and w: "countWords t \<le> 22" and meta: "META_LINE_RE Some t = None"
    and nt: "\<not> matchesAnywhere notClause None t"
    by (simp_all add: plainBullet_def)
  have 1: "stripMeta (m # ws @ t) = m # ws @ t" by (rule stripMeta_marked[OF m ws t])
  have 2: "removePrefixMatch BULLET_MARK_RE (m # ws @ t) = t"
    using mark_props(1)[OF m] m dropWhile_spaces[OF ws ne h(1)]
    by (simp add: removePrefixMatch_def BULLET_MARK_RE_match)
  have 3: "collapseSpaces t = t" using sp by (rule collapse_id)
  have "\<not> startsWith isSpace t" using ne h(1) by (cases t) simp_all
  then have tr: "trim t = t" using trimEnd_id[OF ne l(1)] by (intro trim_fixI)
  have 5: "removeFirst notClause None t = t" using nt by (rule removeFirst_id)
  have 6: "\<not> length (filterBoolean (splitChar SP t)) > MAX_BULLET_WORDS"
    using w countWords_onlySP[OF spaced_onlySP[OF sp]] by (simp add: MAX_BULLET_WORDS_def)
  have 7: "stripSpacedTrailPunct t = t" using ne l(1,2) by (rule stripSpacedTrailPunct_id)
  have 8: "stripQuotes t = t" using ne h(2) l(3) by (rule stripQuotes_id)
  show ?thesis
    unfolding sanitizeBulletLine_def Let_def 1 2 3 tr
    using meta 5 6 7 8 tr by simp
qed

lemma plainBullet_example: "plainBullet (js ''- baz'')"
  by (simp add: plainBullet_def mentions_def countWords_def eval_sanitizers)

text \<open>
  C4, as the code has it. Every line that \<open>sanitizeBulletList\<close> returns has at most 22
  white-space-delimited tokens, is not empty and holds no white space character but
  U+0020, and no two returned lines are equal after \<open>toLowerCase\<close>. The returned list is
  exactly this: of the sanitized input lines that are not empty and hold no bad phrase,
  the first of every lower-cased form, in the order of the input; so a returned line is
  the first sanitized line of its lower-cased form. Of a bullet mark the sanitizer of a
  line removes one: from a line made of a bullet mark, any white space and a plain line
  it returns the plain line as it is, also when the plain line itself starts with a
  bullet mark; and of the list of that one line \<open>sanitizeBulletList\<close> returns the plain
  line, when it holds no bad phrase after \<open>toLowerCase\<close> either.
\<close>

theorem sanitizeBulletList_bounded_distinct:
  "(\<forall>l \<in> set (sanitizeBulletList lower lines).
      countWords l \<le> 22 \<and> l \<noteq> [] \<and> (\<forall>c \<in> set l. isSpace c \<longrightarrow> c = SP)) \<and>
   distinct (map lower (sanitizeBulletList lower lines)) \<and>
   subseq (sanitizeBulletList lower lines) (map sanitizeBulletLine lines) \<and>
   sanitizeBulletList lower lines =
     firstSeenBy lower
       (filter (\<lambda>s. s \<noteq> [] \<and> \<not> badLine lower s) (map sanitizeBulletLine lines)) \<and>
   (\<forall>l \<in> set (sanitizeBulletList lower lines).
      find (\<lambda>s. lower s = lower l)
        (filter (\<lambda>s. s \<noteq> [] \<and> \<not> badLine lower s) (map sanitizeBulletLine lines)) = Some l) \<and>
   (\<forall>m ws t. isBulletMark m \<and> list_all isSpace ws \<and> plainBullet t \<longrightarrow>
      sanitizeBulletLine (m # ws @ t) = t) \<and>
   (\<forall>m ws t. isBulletMark m \<and> list_all isSpace ws \<and> plainBullet t \<and> \<not> badLine lower t \<longrightarrow>
      sanitizeBulletList lower [m # ws @ t] = [t])"
proof -
  have a: "countWords l \<le> 22 \<and> l \<noteq> [] \<and> (\<forall>c \<in> set l. isSpace c \<longrightarrow> c = SP)"
    if l: "l \<in> set (sanitizeBulletList lower lines)" for l
    using sanitizeBulletList_member[OF l] by (auto simp: onlySP_def list_all_iff)
  have b: "distinct (map lower (sanitizeBulletList lower lines))"
    by (simp add: sanitizeBulletList_def loop_distinct)
  have c: "subseq (sanitizeBulletList lower lines) (map sanitizeBulletLine lines)"
    by (simp add: sanitizeBulletList_def loop_subseq)
  have d: "sanitizeBulletList lower lines =
     firstSeenBy lower
       (filter (\<lambda>s. s \<noteq> [] \<and> \<not> badLine lower s) (map sanitizeBulletLine lines))"
    using loop_firstSeen[of lower "[]" lines] by (simp add: sanitizeBulletList_def)
  have e: "find (\<lambda>s. lower s = lower l)
        (filter (\<lambda>s. s \<noteq> [] \<and> \<not> badLine lower s) (map sanitizeBulletLine lines)) = Some l"
    if l: "l \<in> set (sanitizeBulletList lower lines)" for l
    using l unfolding d by (rule firstSeenBy_find)
  have f: "sanitizeBulletLine (m # ws @ t) = t"
    if "isBulletMark m \<and> list_all isSpace ws \<and> plainBullet t" for m ws t
    using that sanitizeBulletLine_marked by blast
  have g: "sanitizeBulletList lower [m # ws @ t] = [t]"
    if h: "isBulletMark m \<and> list_all isSpace ws \<and> plainBullet t \<and> \<not> badLine lower t" for m ws t
  proof -
    have 1: "sanitizeBulletLine (m # ws @ t) = t" using h f by blast
    have 2: "t \<noteq> []" using h by (simp add: plainBullet_def)
    have 3: "\<not> list_ex (\<lambda>p. strIncludes (lower t) (lower p)) BAD_PHRASES"
      using h by (simp add: badLine_def)
    show ?thesis using 2 3 by (simp add: sanitizeBulletList_def Let_def 1)
  qed
  show ?thesis using a b c d e f g by blast
qed

theorem sanitizeBulletList_bounded_distinct_witness:
  "sanitizeBulletList toLowerCaseLatin1 [js ''- Foo bar'', js ''foo BAR.'', js ''- - baz''] =
     [js ''Foo bar'', js ''- baz''] \<and>
   countWords (js ''Foo bar'') \<le> 22 \<and> countWords (js ''- baz'') \<le> 22 \<and>
   distinct (map toLowerCaseLatin1 [js ''Foo bar'', js ''- baz'']) \<and>
   find (\<lambda>s. toLowerCaseLatin1 s = toLowerCaseLatin1 (js ''Foo bar''))
     (filter (\<lambda>s. s \<noteq> [] \<and> \<not> badLine toLowerCaseLatin1 s)
        (map sanitizeBulletLine [js ''- Foo bar'', js ''foo BAR.'', js ''- - baz''])) =
     Some (js ''Foo bar'') \<and>
   isBulletMark 45 \<and> list_all isSpace [SP] \<and> plainBullet (js ''- baz'') \<and>
   sanitizeBulletLine (45 # [SP] @ js ''- baz'') = js ''- baz'' \<and>
   sanitizeBulletList toLowerCaseLatin1 [45 # [SP] @ js ''- baz''] = [js ''- baz'']"
proof -
  let ?a = "js ''Foo bar''" and ?b = "js ''- baz''"
  let ?c = "filter (\<lambda>s. s \<noteq> [] \<and> \<not> badLine toLowerCaseLatin1 s)
        (map sanitizeBulletLine [js ''- Foo bar'', js ''foo BAR.'', js ''- - baz''])"
  note t = sanitizeBulletList_bounded_distinct[of toLowerCaseLatin1
      "[js ''- Foo bar'', js ''foo BAR.'', js ''- - baz'']", unfolded sanitizeBulletList_example]
  have 1: "\<forall>l \<in> set [?a, ?b]. countWords l \<le> 22 \<and> l \<noteq> [] \<and> (\<forall>c \<in> set l. isSpace c \<longrightarrow> c = SP)"
    by (rule t[THEN conjunct1])
  have a: "countWords ?a \<le> 22" using 1[THEN bspec, of ?a] by simp
  have b: "countWords ?b \<le> 22" using 1[THEN bspec, of ?b] by simp
  have d: "distinct (map toLowerCaseLatin1 [?a, ?b])"
    by (rule t[THEN conjunct2, THEN conjunct1])
  have 5: "\<forall>l \<in> set [?a, ?b]. find (\<lambda>s. toLowerCaseLatin1 s = toLowerCaseLatin1 l) ?c = Some l"
    by (rule t[THEN conjunct2, THEN conjunct2, THEN conjunct2, THEN conjunct2, THEN conjunct1])
  have m: "?a \<in> set [?a, ?b]" by simp
  have f: "find (\<lambda>s. toLowerCaseLatin1 s = toLowerCaseLatin1 ?a) ?c = Some ?a"
    by (rule 5[THEN bspec, OF m])
  have 6: "\<forall>m ws t. isBulletMark m \<and> list_all isSpace ws \<and> plainBullet t \<longrightarrow>
      sanitizeBulletLine (m # ws @ t) = t"
    by (rule t[THEN conjunct2, THEN conjunct2, THEN conjunct2, THEN conjunct2, THEN conjunct2,
          THEN conjunct1])
  have h: "isBulletMark 45 \<and> list_all isSpace [SP] \<and> plainBullet ?b"
    using plainBullet_example by (simp add: isBulletMark_def isSpace_def SP_def)
  have k: "sanitizeBulletLine (45 # [SP] @ ?b) = ?b"
    by (rule 6[THEN spec, THEN spec, THEN spec, THEN mp, OF h])
  have 7: "\<forall>m ws t. isBulletMark m \<and> list_all isSpace ws \<and> plainBullet t \<and>
      \<not> badLine toLowerCaseLatin1 t \<longrightarrow> sanitizeBulletList toLowerCaseLatin1 [m # ws @ t] = [t]"
    by (rule t[THEN conjunct2, THEN conjunct2, THEN conjunct2, THEN conjunct2, THEN conjunct2,
          THEN conjunct2])
  have nb: "\<not> badLine toLowerCaseLatin1 ?b"
    by (simp add: badLine_def eval_bullets)
  have h': "isBulletMark 45 \<and> list_all isSpace [SP] \<and> plainBullet ?b \<and>
      \<not> badLine toLowerCaseLatin1 ?b"
    using h nb by simp
  have l: "sanitizeBulletList toLowerCaseLatin1 [45 # [SP] @ ?b] = [?b]"
    by (rule 7[THEN spec, THEN spec, THEN spec, THEN mp, OF h'])
  show ?thesis
    by (intro conjI sanitizeBulletList_example a b d f k l h[THEN conjunct1]
        h[THEN conjunct2, THEN conjunct1] h[THEN conjunct2, THEN conjunct2])
qed

text \<open>
  The claim fails on the bullet mark: of a line with two leading marks only the first is
  removed, and the returned line starts with the second.
\<close>

theorem sanitizeBulletList_keeps_second_mark:
  "sanitizeBulletList toLowerCaseLatin1 [js ''- - foo''] = [45 # js '' foo''] \<and>
   isBulletMark 45"
  by (simp add: eval_bullets isBulletMark_def)
section \<open>The bullets of the experience entries\<close>

lemma sanitized_OK: "list_all bulletOK (sanitizeBulletList lower ls)"
  using sanitizeBulletList_member[of _ lower ls] by (auto simp: list_all_iff bulletOK_def)

lemma typed_OK: "list_all bulletOK (typedBullets v)"
proof -
  have "bulletOK b" if "b \<in> set (typedBullets v)" for b
  proof -
    from that obtain p where p: "p \<in> set (splitChar 10 v)" and b: "b = trim p" and ne: "b \<noteq> []"
      by (auto simp: typedBullets_def filterBoolean_def)
    have "10 \<notin> set b" using splitChar_pieces[OF p] set_trim[of p] b by auto
    then show ?thesis using ne b by (simp add: bulletOK_def)
  qed
  then show ?thesis by (simp add: list_all_iff)
qed

lemma seed_OK: "documentOK [seedExperience]"
  by (simp add: documentOK_def seedExperience_def bulletOK_def eval_strings)

lemma rewrite_OK:
  "list_all bulletOK bs \<Longrightarrow> list_all bulletOK (newBullets (rewriteClick lower be bs))"
  using rewriteClick_newBullets[of lower be bs] sanitized_OK[of lower]
  by (auto simp: rewriteCandidate_def)

lemma atEntry_OK:
  assumes "documentOK es" "\<And>e. list_all bulletOK (bullets e) \<Longrightarrow> list_all bulletOK (bullets (f e))"
  shows "documentOK (atEntry idx f es)"
proof (cases "idx < length es")
  case True
  then have "list_all bulletOK (bullets (f (es ! idx)))"
    using assms by (simp add: documentOK_def list_all_length)
  then show ?thesis
    using assms(1) True set_update_subset_insert[of es idx "f (es ! idx)"]
    by (auto simp: atEntry_def documentOK_def list_all_iff)
next
  case False
  then show ?thesis using assms(1) by (simp add: atEntry_def)
qed

lemma proofread_OK:
  "list_all bulletOK (bullets e) \<Longrightarrow> list_all bulletOK (bullets (proofreadEntry lower isLN device cloud e))"
  using sanitized_OK[of lower] by (auto simp: proofreadEntry_def proofreadBulletsSafe_def Let_def)

lemma handle_OK: "documentOK es \<Longrightarrow> documentOK (handle lower isLN ev es)"
proof (cases ev)
  case Seed
  assume "documentOK es"
  then show ?thesis using seed_OK Seed by (simp add: documentOK_def)
next
  case AddExperience
  assume "documentOK es"
  then show ?thesis using AddExperience by (simp add: documentOK_def blankExperience_def)
next
  case (DeleteExperience i)
  assume "documentOK es"
  then show ?thesis
    using DeleteExperience set_take_subset[of i es] set_drop_subset[of "Suc i" es]
    by (auto simp: documentOK_def list_all_iff)
next
  case (TypeField i k v)
  assume a: "documentOK es"
  have "bullets (setField k v e) = bullets e" for e by (cases k) simp_all
  then show ?thesis using TypeField atEntry_OK[OF a, of "setField k v" i] by simp
next
  case (TypeBullets i v)
  assume a: "documentOK es"
  show ?thesis using TypeBullets atEntry_OK[OF a, of "\<lambda>e. e\<lparr>bullets := typedBullets v\<rparr>" i]
    by (simp add: typed_OK)
next
  case (ClickRewrite i be)
  assume a: "documentOK es"
  show ?thesis
    using ClickRewrite
      atEntry_OK[OF a, of "\<lambda>e. e\<lparr>bullets := newBullets (rewriteClick lower be (bullets e))\<rparr>" i]
    by (simp add: rewrite_OK)
next
  case (GenerateFromJD i device cloud)
  assume a: "documentOK es"
  have "documentOK (atEntry i (\<lambda>e. e\<lparr>bullets := sanitizeBulletList lower bs\<rparr>) es)" for bs
    using atEntry_OK[OF a, of "\<lambda>e. e\<lparr>bullets := sanitizeBulletList lower bs\<rparr>" i]
    by (simp add: sanitized_OK)
  then show ?thesis using GenerateFromJD a by (simp split: outcome.splits)
next
  case (ProofreadAll device cloud)
  assume a: "documentOK es"
  then show ?thesis using ProofreadAll proofread_OK[of _ lower isLN device cloud]
    by (auto simp: documentOK_def list_all_iff)
qed

lemma fold_OK: "documentOK es \<Longrightarrow> documentOK (fold (handle lower isLN) evs es)"
  by (induction evs arbitrary: es) (simp_all add: handle_OK)

lemma run_OK: "documentOK (run lower isLN evs)"
  unfolding run_def by (rule fold_OK) (simp add: documentOK_def)

text \<open>Every event but typing into the bullets textarea leaves only bullets of at most 22
  words or bullets that were there before.\<close>

lemma countWords_seed:
  "countWords (js ''Shipped performance improvements that reduced LCP by 22%.'') \<le> 22"
  by (simp add: countWords_def eval_strings)

lemma atEntry_member:
  "e' \<in> set (atEntry idx f es) \<Longrightarrow> e' \<in> set es \<or> (\<exists>e \<in> set es. e' = f e)"
  using set_update_subset_insert[of es idx "f (es ! idx)"]
  by (auto simp: atEntry_def split: if_splits)

lemma cappedOrOld_atEntry:
  assumes "\<And>e b. b \<in> set (bullets (f e)) \<Longrightarrow> countWords b \<le> 22 \<or> b \<in> set (bullets e)"
  shows "cappedOrOld es (atEntry idx f es)"
proof -
  have "countWords b \<le> 22 \<or> (\<exists>e \<in> set es. b \<in> set (bullets e))"
    if "e' \<in> set (atEntry idx f es)" "b \<in> set (bullets e')" for e' b
    using atEntry_member[OF that(1)] that(2) assms by blast
  then show ?thesis by (auto simp: cappedOrOld_def list_all_iff list_ex_iff)
qed

lemma cappedOrOld_subset: "set es' \<subseteq> set es \<Longrightarrow> cappedOrOld es es'"
  by (auto simp: cappedOrOld_def list_all_iff list_ex_iff)

lemma sanitized_capped: "b \<in> set (sanitizeBulletList lower ls) \<Longrightarrow> countWords b \<le> 22"
  using sanitizeBulletList_member(3) .

lemma handle_capped:
  assumes "\<And>i v. ev \<noteq> TypeBullets i v"
  shows "cappedOrOld es (handle lower isLN ev es)"
proof (cases ev)
  case Seed
  then show ?thesis using countWords_seed
    by (auto simp: cappedOrOld_def list_all_iff list_ex_iff seedExperience_def)
next
  case AddExperience
  then show ?thesis
    by (auto simp: cappedOrOld_def list_all_iff list_ex_iff blankExperience_def)
next
  case (DeleteExperience i)
  then show ?thesis
    using set_take_subset[of i es] set_drop_subset[of "Suc i" es]
    by (intro cappedOrOld_subset) auto
next
  case (TypeField i k v)
  have b: "bullets (setField k v e) = bullets e" for e by (cases k) simp_all
  have "cappedOrOld es (atEntry i (setField k v) es)"
    by (rule cappedOrOld_atEntry) (simp add: b)
  then show ?thesis using TypeField by simp
next
  case (TypeBullets i v)
  then show ?thesis using assms by simp
next
  case (ClickRewrite i be)
  have "countWords b \<le> 22 \<or> b \<in> set bs"
    if "b \<in> set (newBullets (rewriteClick lower be bs))" for b bs
    using rewriteClick_newBullets[of lower be bs] that sanitized_capped[of b lower]
    by (auto simp: rewriteCandidate_def)
  then have "cappedOrOld es
      (atEntry i (\<lambda>e. e\<lparr>bullets := newBullets (rewriteClick lower be (bullets e))\<rparr>) es)"
    by (intro cappedOrOld_atEntry) simp
  then show ?thesis using ClickRewrite by simp
next
  case (GenerateFromJD i device cloud)
  have "cappedOrOld es (atEntry i (\<lambda>e. e\<lparr>bullets := sanitizeBulletList lower bs\<rparr>) es)" for bs
    by (rule cappedOrOld_atEntry) (simp add: sanitized_capped)
  then show ?thesis using GenerateFromJD
    by (simp add: cappedOrOld_subset split: outcome.splits)
next
  case (ProofreadAll device cloud)
  have "countWords b \<le> 22 \<or> b \<in> set (bullets e)"
    if "b \<in> set (bullets (proofreadEntry lower isLN device cloud e))" for b e
    using that sanitized_capped[of b lower]
    by (auto simp: proofreadEntry_def proofreadBulletsSafe_def Let_def split: if_splits)
  then show ?thesis using ProofreadAll
    by (auto simp: cappedOrOld_def list_all_iff list_ex_iff)
qed

lemma typed_example:
  "run toLowerCaseLatin1 isLNBasicLatin [Seed, TypeBullets 0 (js ''  Built X '' @ [10, 10] @ js ''Shipped Y'')] =
     [seedExperience\<lparr>bullets := [js ''Built X'', js ''Shipped Y'']\<rparr>]"
  by (simp add: run_def atEntry_def typedBullets_def eval_strings)

lemma generated_example:
  "handle toLowerCaseLatin1 isLNBasicLatin (GenerateFromJD 0 (Returns [js ''- Led the team'']) Throws)
     [seedExperience] = [seedExperience\<lparr>bullets := [js ''Led the team'']\<rparr>]"
  by (simp add: atEntry_def eval_bullets)

lemma countWords_longBullet: "countWords longBullet = 23"
  by (simp add: longBullet_def countWords_def eval_strings)

lemma typed_longBullet: "typedBullets longBullet = [longBullet]"
  by (simp add: longBullet_def typedBullets_def eval_strings)

text \<open>
  C1, as the code has it. In every state of the experience entries that a sequence of
  events reaches, every bullet line is non-empty, holds no line feed, and is trimmed or
  has at most 22 white-space-delimited words. A line typed into the bullets textarea is
  non-empty, trimmed and without line feed, and is not capped. Every other event leaves
  only bullets of at most 22 words or bullets that were in the document before it.
\<close>

theorem experience_bullets_invariant:
  "(\<forall>e \<in> set (run lower isLN evs). \<forall>b \<in> set (bullets e).
      b \<noteq> [] \<and> 10 \<notin> set b \<and> (trim b = b \<or> countWords b \<le> 22)) \<and>
   (\<forall>b \<in> set (typedBullets v). b \<noteq> [] \<and> 10 \<notin> set b \<and> trim b = b) \<and>
   ((\<forall>i t. ev \<noteq> TypeBullets i t) \<longrightarrow>
      (\<forall>e' \<in> set (handle lower isLN ev es). \<forall>b \<in> set (bullets e').
         countWords b \<le> 22 \<or> (\<exists>e \<in> set es. b \<in> set (bullets e))))"
proof (intro conjI)
  show "\<forall>e \<in> set (run lower isLN evs). \<forall>b \<in> set (bullets e).
      b \<noteq> [] \<and> 10 \<notin> set b \<and> (trim b = b \<or> countWords b \<le> 22)"
    using run_OK[of lower isLN evs] by (auto simp: documentOK_def bulletOK_def list_all_iff)
  show "\<forall>b \<in> set (typedBullets v). b \<noteq> [] \<and> 10 \<notin> set b \<and> trim b = b"
  proof
    fix b assume "b \<in> set (typedBullets v)"
    then obtain p where p: "p \<in> set (splitChar 10 v)" and b: "b = trim p" and ne: "b \<noteq> []"
      by (auto simp: typedBullets_def filterBoolean_def)
    have "10 \<notin> set b" using splitChar_pieces[OF p] set_trim[of p] b by auto
    then show "b \<noteq> [] \<and> 10 \<notin> set b \<and> trim b = b" using ne b by simp
  qed
  show "(\<forall>i t. ev \<noteq> TypeBullets i t) \<longrightarrow>
      (\<forall>e' \<in> set (handle lower isLN ev es). \<forall>b \<in> set (bullets e').
         countWords b \<le> 22 \<or> (\<exists>e \<in> set es. b \<in> set (bullets e)))"
    using handle_capped[of ev es lower isLN]
    by (auto simp: cappedOrOld_def list_all_iff list_ex_iff)
qed

theorem experience_bullets_invariant_witness:
  "js ''Built X'' \<noteq> [] \<and> 10 \<notin> set (js ''Built X'') \<and>
   (trim (js ''Built X'') = js ''Built X'' \<or> countWords (js ''Built X'') \<le> 22) \<and>
   (countWords (js ''Led the team'') \<le> 22 \<or>
    js ''Led the team'' = js ''Shipped performance improvements that reduced LCP by 22%.'')"
proof -
  note t = experience_bullets_invariant[of toLowerCaseLatin1 isLNBasicLatin
      "[Seed, TypeBullets 0 (js ''  Built X '' @ [10, 10] @ js ''Shipped Y'')]" "[]"
      "GenerateFromJD 0 (Returns [js ''- Led the team'']) Throws" "[seedExperience]"]
  have 1: "\<forall>b \<in> set [js ''Built X'', js ''Shipped Y''].
      b \<noteq> [] \<and> 10 \<notin> set b \<and> (trim b = b \<or> countWords b \<le> 22)"
    using t unfolding typed_example by simp
  have 2: "\<forall>b \<in> set [js ''Led the team''].
      countWords b \<le> 22 \<or> (\<exists>e \<in> set [seedExperience]. b \<in> set (bullets e))"
    using t unfolding generated_example by simp
  have 3: "bullets seedExperience =
      [js ''Shipped performance improvements that reduced LCP by 22%.'']"
    by (simp add: seedExperience_def)
  show ?thesis using 1 2 by (simp add: 3)
qed

text \<open>
  The claim fails on a typed bullet: after the seed entry is made and a line of 23 words
  is typed into its bullets textarea, that line is the bullet of the entry.
\<close>

theorem typed_bullet_not_capped:
  "bullets (run toLowerCaseLatin1 isLNBasicLatin [Seed, TypeBullets 0 longBullet] ! 0) =
     [longBullet] \<and>
   countWords longBullet = 23"
  by (simp add: run_def atEntry_def typed_longBullet countWords_longBullet)

section \<open>Skill grouping\<close>

lemma distinct_ORDER: "distinct ORDER"
  by (simp add: ORDER_def js_def)

lemma setOrder_props:
  "distinct (setOrder seen xs) \<and> set (setOrder seen xs) = set xs - set seen"
  by (induction xs arbitrary: seen) auto

lemma newSet_props [simp]: "distinct (newSet xs)" "set (newSet xs) = set xs"
  using setOrder_props[of "[]" xs] by (simp_all add: newSet_def)

lemma length_newSet_le: "length (newSet xs) \<le> length xs"
proof -
  have "length (setOrder seen ys) \<le> length ys" for seen and ys :: "'a list"
    by (induction ys arbitrary: seen) (auto intro: le_SucI)
  then show ?thesis by (simp add: newSet_def)
qed

text \<open>The loop of \<open>groupSkillsAI\<close>.\<close>

lemma pruneBuckets_keys:
  "map fst (pruneBuckets collate buckets) = filter (\<lambda>cat. buckets cat \<noteq> []) ORDER"
  by (simp add: pruneBuckets_def comp_def)

lemma pruneBuckets_values:
  assumes "e \<in> set (pruneBuckets collate buckets)"
  shows "snd e \<noteq> [] \<and> distinct (snd e) \<and> sorted (map collate (snd e)) \<and>
         set (snd e) = set (buckets (fst e))"
proof -
  from assms have x: "snd e = sort_key collate (newSet (buckets (fst e)))"
    and b: "buckets (fst e) \<noteq> []"
    by (auto simp: pruneBuckets_def)
  have s: "set (snd e) = set (buckets (fst e))" by (simp add: x)
  then have "snd e \<noteq> []" using b by auto
  moreover have "distinct (snd e)" by (simp add: x)
  moreover have "sorted (map collate (snd e))" unfolding x by (rule sorted_sort_key)
  ultimately show ?thesis using s by simp
qed

lemma aiArray_cases:
  "(obj cat = Some (JArray xs) \<longrightarrow> aiArray obj cat = filter (\<lambda>x. x \<noteq> []) xs) \<and>
   ((\<forall>ys. obj cat \<noteq> Some (JArray ys)) \<longrightarrow> aiArray obj cat = [])"
  by (auto simp: aiArray_def filterBoolean_def split: option.splits jsonProperty.splits)

text \<open>The first loop of \<open>groupSkillsLocal\<close>.\<close>

lemma detectLocalCategory_in_ORDER: "detectLocalCategory n \<in> set ORDER"
proof (cases "find (\<lambda>(cat, list). n \<in> set list) CATS_LOCAL")
  case None
  then show ?thesis by (simp add: detectLocalCategory_def ORDER_def)
next
  case (Some a)
  then have "a \<in> set CATS_LOCAL" by (auto simp: find_Some_iff in_set_conv_nth)
  then have "fst a \<in> set ORDER" by (auto simp: CATS_LOCAL_def ORDER_def)
  then show ?thesis using Some by (cases a) (simp add: detectLocalCategory_def)
qed

lemma bucketLoop_firstSeen:
  "bucketLoop lower seen raws =
   map (\<lambda>r. (detectLocalCategory (norm_skill lower r), pretty lower r))
     (firstSeenBy (norm_skill lower)
        (filter (\<lambda>r. norm_skill lower r \<noteq> [] \<and> norm_skill lower r \<notin> set seen) raws))"
proof (induction raws arbitrary: seen)
  case (Cons raw rest)
  let ?n = "norm_skill lower raw"
  show ?case
  proof (cases "?n \<noteq> [] \<and> ?n \<notin> set seen")
    case True
    have "filter (\<lambda>y. norm_skill lower y \<noteq> ?n)
            (filter (\<lambda>r. norm_skill lower r \<noteq> [] \<and> norm_skill lower r \<notin> set seen) rest) =
          filter (\<lambda>r. norm_skill lower r \<noteq> [] \<and> norm_skill lower r \<notin> set (?n # seen)) rest"
      unfolding filter_filter by (rule filter_cong) auto
    then show ?thesis
      using True Cons.IH[of "?n # seen"] by (simp add: Let_def)
  next
    case False
    then show ?thesis using Cons.IH[of seen] by (auto simp: Let_def)
  qed
qed simp

lemma set_firstSeenBy: "set (firstSeenBy key xs) \<subseteq> set xs"
  by (induction key xs rule: firstSeenBy.induct) auto

lemma firstSeenBy_keys: "key ` set (firstSeenBy key xs) = key ` set xs"
proof (induction key xs rule: firstSeenBy.induct)
  case (2 key x xs)
  have "key ` set (x # xs) = insert (key x) (key ` set (filter (\<lambda>y. key y \<noteq> key x) xs))"
    by auto
  then show ?case using "2.IH" by simp
qed simp

lemma firstSeenBy_distinct: "distinct (map key (firstSeenBy key xs))"
proof (induction key xs rule: firstSeenBy.induct)
  case (2 key x xs)
  have "key x \<notin> key ` set (firstSeenBy key (filter (\<lambda>y. key y \<noteq> key x) xs))"
    unfolding firstSeenBy_keys by auto
  then show ?case using "2.IH" by simp
qed simp

lemma length_bucketLoop:
  "length (bucketLoop lower [] raws) = card (norm_skill lower ` set raws - {[]})"
proof -
  let ?f = "firstSeenBy (norm_skill lower) (filter (\<lambda>r. norm_skill lower r \<noteq> []) raws)"
  have "length (bucketLoop lower [] raws) = length (map (norm_skill lower) ?f)"
    by (simp add: bucketLoop_firstSeen)
  also have "\<dots> = card (set (map (norm_skill lower) ?f))"
    by (rule distinct_card[symmetric]) (rule firstSeenBy_distinct)
  also have "set (map (norm_skill lower) ?f) = norm_skill lower ` set raws - {[]}"
    using firstSeenBy_keys[of "norm_skill lower" "filter (\<lambda>r. norm_skill lower r \<noteq> []) raws"]
    by auto
  finally show ?thesis .
qed

lemma set_bucket: "set (bucket es cat) = {v. (cat, v) \<in> set es}"
  by (force simp: bucket_def)

lemma bucket_local:
  "set (bucket (bucketLoop lower [] raws) cat) =
   {pretty lower r | r.
      r \<in> set (firstSeenBy (norm_skill lower) (filter (\<lambda>r. norm_skill lower r \<noteq> []) raws)) \<and>
      detectLocalCategory (norm_skill lower r) = cat}"
  by (auto simp: set_bucket bucketLoop_firstSeen)

lemma bucket_nonempty:
  "(bucket (bucketLoop lower [] raws) cat \<noteq> []) =
   (\<exists>raw \<in> set raws. norm_skill lower raw \<noteq> [] \<and> detectLocalCategory (norm_skill lower raw) = cat)"
proof
  assume "bucket (bucketLoop lower [] raws) cat \<noteq> []"
  then obtain v where "v \<in> set (bucket (bucketLoop lower [] raws) cat)"
    by (cases "bucket (bucketLoop lower [] raws) cat") auto
  then obtain r where
    r: "r \<in> set (firstSeenBy (norm_skill lower) (filter (\<lambda>r. norm_skill lower r \<noteq> []) raws))"
    and c: "detectLocalCategory (norm_skill lower r) = cat"
    unfolding bucket_local by auto
  from r have "r \<in> set (filter (\<lambda>r. norm_skill lower r \<noteq> []) raws)"
    using set_firstSeenBy by fast
  then show "\<exists>raw \<in> set raws. norm_skill lower raw \<noteq> [] \<and>
      detectLocalCategory (norm_skill lower raw) = cat"
    using c by auto
next
  assume "\<exists>raw \<in> set raws. norm_skill lower raw \<noteq> [] \<and>
      detectLocalCategory (norm_skill lower raw) = cat"
  then obtain raw where raw: "raw \<in> set raws" "norm_skill lower raw \<noteq> []"
    and c: "detectLocalCategory (norm_skill lower raw) = cat" by auto
  let ?xs = "filter (\<lambda>r. norm_skill lower r \<noteq> []) raws"
  have "norm_skill lower raw \<in> norm_skill lower ` set (firstSeenBy (norm_skill lower) ?xs)"
    unfolding firstSeenBy_keys using raw by auto
  then obtain r where r: "r \<in> set (firstSeenBy (norm_skill lower) ?xs)"
    and n: "norm_skill lower r = norm_skill lower raw" by auto
  have "pretty lower r \<in> set (bucket (bucketLoop lower [] raws) cat)"
    unfolding bucket_local using r n c by auto
  then show "bucket (bucketLoop lower [] raws) cat \<noteq> []" by auto
qed

text \<open>Where no normal form is the name of a property of \<open>Object.prototype\<close>, every
  display name is a string, every sort is the sort of strings, and the function
  returns.\<close>

lemma pretty_isStr: "norm_skill lower raw \<notin> set OBJECT_PROTOTYPE \<Longrightarrow> isStr (pretty lower raw)"
  by (simp add: pretty_def isStr_def split: option.splits)

lemma bucket_isStr:
  assumes "\<forall>raw \<in> set raws. norm_skill lower raw \<notin> set OBJECT_PROTOTYPE"
  shows "list_all isStr (bucket (bucketLoop lower [] raws) cat)"
proof -
  have "isStr v" if "v \<in> set (bucket (bucketLoop lower [] raws) cat)" for v
  proof -
    from that obtain r where
      r: "r \<in> set (firstSeenBy (norm_skill lower) (filter (\<lambda>r. norm_skill lower r \<noteq> []) raws))"
      and v: "v = pretty lower r"
      unfolding bucket_local by auto
    from r have "r \<in> set raws" using set_firstSeenBy by fastforce
    then show ?thesis using assms v pretty_isStr by simp
  qed
  then show ?thesis by (simp add: list_all_iff)
qed

lemma strings_Str: "list_all isStr vs \<Longrightarrow> map Str (strings vs) = vs"
  by (induction vs) (auto simp: strings_def isStr_def split: jsval.splits)

lemma strings_map_Str [simp]: "strings (map Str xs) = xs"
  by (induction xs) (simp_all add: strings_def)

lemma length_strings_le: "length (strings vs) \<le> length vs"
  by (induction vs) (auto simp: strings_def split: jsval.splits)

lemma sort_key_short: "length xs < 2 \<Longrightarrow> sort_key f xs = xs"
  by (cases xs) auto

lemma localeSort_strings:
  assumes "list_all isStr vs"
  shows "localeSort collate engineSort vs = Returns (map Str (sort_key collate (strings vs)))"
proof (cases "length vs < 2")
  case True
  then have "length (strings vs) < 2" using length_strings_le[of vs] by simp
  then have "map Str (sort_key collate (strings vs)) = vs"
    using strings_Str[OF assms] by (simp add: sort_key_short)
  then show ?thesis using True by (simp add: localeSort_def)
next
  case False
  then show ?thesis using assms by (simp add: localeSort_def)
qed

lemma pruneLocal_strings:
  assumes "\<And>cat. list_all isStr (buckets cat)"
  shows "pruneLocal collate engineSort buckets cats =
         Returns (map (\<lambda>cat. (cat, map Str (sort_key collate (strings (newSet (buckets cat))))))
                    (filter (\<lambda>cat. buckets cat \<noteq> []) cats))"
proof (induction cats)
  case (Cons cat cats)
  have "list_all isStr (newSet (buckets cat))"
    using assms[of cat] by (simp add: list_all_iff)
  then show ?case using Cons.IH by (simp add: localeSort_strings)
qed simp

lemma sorted_strings:
  assumes "list_all isStr vs" "distinct vs"
  shows "distinct (map Str (sort_key collate (strings vs)))"
    and "set (map Str (sort_key collate (strings vs))) = set vs"
    and "sorted (map collate (strings (map Str (sort_key collate (strings vs)))))"
    and "list_all isStr (map Str (sort_key collate (strings vs)))"
proof -
  have m: "map Str (strings vs) = vs" using assms(1) by (rule strings_Str)
  then have "distinct (map Str (strings vs))" using assms(2) by simp
  then have "distinct (strings vs)" by (simp add: distinct_map)
  then have "distinct (sort_key collate (strings vs))" by simp
  then show "distinct (map Str (sort_key collate (strings vs)))"
    by (simp add: distinct_map inj_on_def)
  have "set (map Str (sort_key collate (strings vs))) = set (map Str (strings vs))" by simp
  then show "set (map Str (sort_key collate (strings vs))) = set vs" using m by simp
  show "sorted (map collate (strings (map Str (sort_key collate (strings vs)))))"
    by (simp add: sorted_sort_key)
  show "list_all isStr (map Str (sort_key collate (strings vs)))"
    by (simp add: list_all_iff isStr_def)
qed

lemma sum_buckets_le:
  "distinct cs \<Longrightarrow> sum_list (map (\<lambda>c. length (bucket es c)) cs) \<le> length es"
proof (induction es)
  case Nil
  then show ?case by (simp add: bucket_def)
next
  case (Cons e es)
  have "sum_list (map (\<lambda>c. length (bucket (e # es) c)) cs) =
        sum_list (map (\<lambda>c. (if fst e = c then 1 else 0) + length (bucket es c)) cs)"
    by (intro arg_cong[where f=sum_list] map_cong) (auto simp: bucket_def)
  also have "\<dots> = sum_list (map (\<lambda>c. if fst e = c then 1 else 0) cs) +
        sum_list (map (\<lambda>c. length (bucket es c)) cs)"
    by (simp add: sum_list_addf)
  also have "sum_list (map (\<lambda>c. if fst e = c then 1 else (0::nat)) cs) \<le> 1"
    using Cons.prems by (induction cs) auto
  finally show ?case using Cons.IH[OF Cons.prems] by simp
qed

lemma groupedCount_filter_le:
  assumes "\<And>c. length (h c) \<le> length (buckets c)"
  shows "groupedCount (map (\<lambda>c. (c, h c)) (filter Q cs)) \<le>
         sum_list (map (\<lambda>c. length (buckets c)) cs)"
proof (induction cs)
  case (Cons c cs)
  then show ?case using assms[of c] by (auto simp: groupedCount_def)
qed (simp add: groupedCount_def)

lemma local_returns:
  assumes ok: "\<forall>raw \<in> set raws. norm_skill lower raw \<notin> set OBJECT_PROTOTYPE"
  shows "\<exists>g. groupSkillsLocal lower collate engineSort raws = Returns g \<and>
     map fst g = filter (\<lambda>cat. \<exists>raw \<in> set raws. norm_skill lower raw \<noteq> [] \<and>
                    detectLocalCategory (norm_skill lower raw) = cat) ORDER \<and>
     (\<forall>e \<in> set g. snd e \<noteq> [] \<and> distinct (snd e) \<and> list_all isStr (snd e) \<and>
        sorted (map collate (strings (snd e))) \<and>
        set (snd e) =
          {pretty lower r | r.
             r \<in> set (firstSeenBy (norm_skill lower)
                       (filter (\<lambda>r. norm_skill lower r \<noteq> []) raws)) \<and>
             detectLocalCategory (norm_skill lower r) = fst e}) \<and>
     groupedCount g \<le> card (norm_skill lower ` set raws - {[]})"
proof -
  let ?b = "bucket (bucketLoop lower [] raws)"
  let ?h = "\<lambda>cat. map Str (sort_key collate (strings (newSet (?b cat))))"
  let ?g = "map (\<lambda>cat. (cat, ?h cat)) (filter (\<lambda>cat. ?b cat \<noteq> []) ORDER)"
  have str: "list_all isStr (?b cat)" for cat by (rule bucket_isStr[OF ok])
  have 1: "groupSkillsLocal lower collate engineSort raws = Returns ?g"
    unfolding groupSkillsLocal_def by (rule pruneLocal_strings) (rule str)
  have 2: "map fst ?g = filter (\<lambda>cat. \<exists>raw \<in> set raws. norm_skill lower raw \<noteq> [] \<and>
                    detectLocalCategory (norm_skill lower raw) = cat) ORDER"
    by (simp add: comp_def bucket_nonempty)
  have 3: "snd e \<noteq> [] \<and> distinct (snd e) \<and> list_all isStr (snd e) \<and>
        sorted (map collate (strings (snd e))) \<and>
        set (snd e) =
          {pretty lower r | r.
             r \<in> set (firstSeenBy (norm_skill lower)
                       (filter (\<lambda>r. norm_skill lower r \<noteq> []) raws)) \<and>
             detectLocalCategory (norm_skill lower r) = fst e}"
    if e: "e \<in> set ?g" for e
  proof -
    from e have s: "snd e = ?h (fst e)" and ne: "?b (fst e) \<noteq> []" by auto
    let ?vs = "newSet (?b (fst e))"
    have a: "list_all isStr ?vs" using str[of "fst e"] by (simp add: list_all_iff)
    have d: "distinct ?vs" by simp
    note p = sorted_strings[OF a d, of collate]
    have "set (snd e) = set (?b (fst e))" unfolding s using p(2) by simp
    then have st: "set (snd e) =
          {pretty lower r | r.
             r \<in> set (firstSeenBy (norm_skill lower)
                       (filter (\<lambda>r. norm_skill lower r \<noteq> []) raws)) \<and>
             detectLocalCategory (norm_skill lower r) = fst e}"
      unfolding bucket_local .
    have "set (snd e) \<noteq> {}" using \<open>set (snd e) = set (?b (fst e))\<close> ne by simp
    then have "snd e \<noteq> []" by auto
    then show ?thesis unfolding s[symmetric] using p(1,3,4) st unfolding s[symmetric] by simp
  qed
  have "length (?h c) \<le> length (?b c)" for c
    using length_strings_le[of "newSet (?b c)"] length_newSet_le[of "?b c"] by simp
  then have "groupedCount ?g \<le> sum_list (map (\<lambda>c. length (?b c)) ORDER)"
    by (rule groupedCount_filter_le)
  also have "\<dots> \<le> length (bucketLoop lower [] raws)"
    by (rule sum_buckets_le[OF distinct_ORDER])
  finally have 4: "groupedCount ?g \<le> card (norm_skill lower ` set raws - {[]})"
    by (simp add: length_bucketLoop)
  show ?thesis using 1 2 3 4 by blast
qed

lemma local_example:
  "groupSkillsLocal toLowerCaseLatin1 collate engineSort
     [js ''JavaScript'', js ''javascript'', js ''Postgres'', js ''postgres''] =
   Returns [(js ''Programming'', [Str (js ''JavaScript'')]),
            (js ''Databases'', [Str (js ''PostgreSQL'')])]"
  by (simp add: eval_skills)

text \<open>A normal form that is the name of a property of \<open>Object.prototype\<close> makes \<open>pretty\<close>
  return the inherited object, and the function returns it among the skills.\<close>

lemma local_inherited_example:
  "groupSkillsLocal toLowerCaseLatin1 collate engineSort [js ''Constructor''] =
   Returns [(js ''Other'', [Inherited (js ''constructor'')])]"
  by (simp add: eval_skills)

lemma ai_returns:
  "\<exists>g. groupSkillsAI collate (ParsedObject obj) = Inr g \<and>
     map fst g = filter (\<lambda>cat. aiArray obj cat \<noteq> []) ORDER \<and>
     (\<forall>e \<in> set g. snd e \<noteq> [] \<and> distinct (snd e) \<and> sorted (map collate (snd e)) \<and>
        set (snd e) = set (aiArray obj (fst e)))"
  using pruneBuckets_values[of _ collate "aiArray obj"] pruneBuckets_keys[of collate "aiArray obj"]
  by (auto simp: groupSkillsAI_def)

lemma ai_only_objects:
  "groupSkillsAI collate reply = Inr g \<Longrightarrow> \<exists>obj. reply = ParsedObject obj"
  by (cases reply) (simp_all add: groupSkillsAI_def)

text \<open>
  C7, as the code has it. \<open>groupSkillsLocal\<close>, on skills of which no normal form is the
  name of a property of \<open>Object.prototype\<close>, returns a mapping whose keys are, in the
  order of the ten categories, the categories that \<open>detectLocalCategory\<close> gives for the
  non-empty normal forms of the skills; the list of a category is not empty, free of
  duplicates and sorted by the collation, and it holds the display names of the skills
  of that category, one for every normal form, that of the first skill with the normal
  form; so there are at most as many grouped entries as distinct non-empty normal forms,
  and the four skills of the example give two. \<open>detectLocalCategory\<close> gives one of the
  ten categories, and \<open>Other\<close> when no table lists the normal form and neither pattern
  matches it. The sanitization step of \<open>groupSkillsAI\<close> returns a mapping only for a
  reply that parses to an object; its keys are, in the order of the ten categories, the
  categories under which the reply has an array with a non-empty string, and the list of
  a category is free of duplicates, sorted by the collation and holds exactly the
  non-empty strings of that array, as they are.
\<close>

theorem skill_grouping_shape:
  "((\<forall>raw \<in> set rawSkills. norm_skill lower raw \<notin> set OBJECT_PROTOTYPE) \<longrightarrow>
      (\<exists>g. groupSkillsLocal lower collate engineSort rawSkills = Returns g \<and>
         map fst g = filter (\<lambda>cat. \<exists>raw \<in> set rawSkills. norm_skill lower raw \<noteq> [] \<and>
                        detectLocalCategory (norm_skill lower raw) = cat) ORDER \<and>
         (\<forall>e \<in> set g. snd e \<noteq> [] \<and> distinct (snd e) \<and> list_all isStr (snd e) \<and>
            sorted (map collate (strings (snd e))) \<and>
            set (snd e) =
              {pretty lower r | r.
                 r \<in> set (firstSeenBy (norm_skill lower)
                           (filter (\<lambda>r. norm_skill lower r \<noteq> []) rawSkills)) \<and>
                 detectLocalCategory (norm_skill lower r) = fst e}) \<and>
         groupedCount g \<le> card (norm_skill lower ` set rawSkills - {[]}))) \<and>
   detectLocalCategory n \<in> set ORDER \<and>
   (find (\<lambda>(cat, list). n \<in> set list) CATS_LOCAL = None \<and> \<not> SQL_RE n \<and> \<not> CICD_RE n \<longrightarrow>
      detectLocalCategory n = js ''Other'') \<and>
   groupSkillsLocal toLowerCaseLatin1 collate engineSort
     [js ''JavaScript'', js ''javascript'', js ''Postgres'', js ''postgres''] =
     Returns [(js ''Programming'', [Str (js ''JavaScript'')]),
              (js ''Databases'', [Str (js ''PostgreSQL'')])] \<and>
   (\<exists>g. groupSkillsAI collate (ParsedObject obj) = Inr g \<and>
      map fst g = filter (\<lambda>cat. aiArray obj cat \<noteq> []) ORDER \<and>
      (\<forall>e \<in> set g. snd e \<noteq> [] \<and> distinct (snd e) \<and> sorted (map collate (snd e)) \<and>
         set (snd e) = set (aiArray obj (fst e)))) \<and>
   (obj cat = Some (JArray xs) \<longrightarrow> aiArray obj cat = filter (\<lambda>x. x \<noteq> []) xs) \<and>
   ((\<forall>ys. obj cat \<noteq> Some (JArray ys)) \<longrightarrow> aiArray obj cat = []) \<and>
   (groupSkillsAI collate reply = Inr g' \<longrightarrow> (\<exists>obj'. reply = ParsedObject obj'))"
proof (intro conjI impI)
  assume "\<forall>raw \<in> set rawSkills. norm_skill lower raw \<notin> set OBJECT_PROTOTYPE"
  then show "\<exists>g. groupSkillsLocal lower collate engineSort rawSkills = Returns g \<and>
         map fst g = filter (\<lambda>cat. \<exists>raw \<in> set rawSkills. norm_skill lower raw \<noteq> [] \<and>
                        detectLocalCategory (norm_skill lower raw) = cat) ORDER \<and>
         (\<forall>e \<in> set g. snd e \<noteq> [] \<and> distinct (snd e) \<and> list_all isStr (snd e) \<and>
            sorted (map collate (strings (snd e))) \<and>
            set (snd e) =
              {pretty lower r | r.
                 r \<in> set (firstSeenBy (norm_skill lower)
                           (filter (\<lambda>r. norm_skill lower r \<noteq> []) rawSkills)) \<and>
                 detectLocalCategory (norm_skill lower r) = fst e}) \<and>
         groupedCount g \<le> card (norm_skill lower ` set rawSkills - {[]})"
    by (rule local_returns)
next
  show "detectLocalCategory n \<in> set ORDER" by (rule detectLocalCategory_in_ORDER)
next
  assume "find (\<lambda>(cat, list). n \<in> set list) CATS_LOCAL = None \<and> \<not> SQL_RE n \<and> \<not> CICD_RE n"
  then show "detectLocalCategory n = js ''Other''" by (simp add: detectLocalCategory_def)
next
  show "groupSkillsLocal toLowerCaseLatin1 collate engineSort
     [js ''JavaScript'', js ''javascript'', js ''Postgres'', js ''postgres''] =
     Returns [(js ''Programming'', [Str (js ''JavaScript'')]),
              (js ''Databases'', [Str (js ''PostgreSQL'')])]"
    by (rule local_example)
next
  show "\<exists>g. groupSkillsAI collate (ParsedObject obj) = Inr g \<and>
      map fst g = filter (\<lambda>cat. aiArray obj cat \<noteq> []) ORDER \<and>
      (\<forall>e \<in> set g. snd e \<noteq> [] \<and> distinct (snd e) \<and> sorted (map collate (snd e)) \<and>
         set (snd e) = set (aiArray obj (fst e)))"
    by (rule ai_returns)
next
  assume "obj cat = Some (JArray xs)"
  then show "aiArray obj cat = filter (\<lambda>x. x \<noteq> []) xs" using aiArray_cases[of obj cat xs] by simp
next
  assume "\<forall>ys. obj cat \<noteq> Some (JArray ys)"
  then show "aiArray obj cat = []" using aiArray_cases[of obj cat xs] by simp
next
  assume "groupSkillsAI collate reply = Inr g'"
  then show "\<exists>obj'. reply = ParsedObject obj'" by (rule ai_only_objects)
qed

lemma witness_skills_plain:
  "\<forall>raw \<in> set [js ''JavaScript'', js ''javascript'', js ''Postgres'', js ''postgres''].
      norm_skill toLowerCaseLatin1 raw \<notin> set OBJECT_PROTOTYPE"
  by (simp add: eval_skills)

lemma witness_ai_keys:
  "filter (\<lambda>cat. aiArray [js ''Programming'' \<mapsto> JArray [js ''Go'', [], js ''Go'']] cat \<noteq> []) ORDER =
   [js ''Programming'']"
  by (simp add: eval_skills)

theorem skill_grouping_shape_witness:
  "list_all (\<lambda>raw. norm_skill toLowerCaseLatin1 raw \<notin> set OBJECT_PROTOTYPE)
     [js ''JavaScript'', js ''javascript'', js ''Postgres'', js ''postgres''] \<and>
   groupSkillsLocal toLowerCaseLatin1 (\<lambda>s. s) (\<lambda>vs. Throws)
     [js ''JavaScript'', js ''javascript'', js ''Postgres'', js ''postgres''] =
     Returns [(js ''Programming'', [Str (js ''JavaScript'')]),
              (js ''Databases'', [Str (js ''PostgreSQL'')])] \<and>
   map fst [(js ''Programming'', [Str (js ''JavaScript'')]),
            (js ''Databases'', [Str (js ''PostgreSQL'')])] =
     filter (\<lambda>cat. \<exists>raw \<in> set [js ''JavaScript'', js ''javascript'', js ''Postgres'', js ''postgres''].
                norm_skill toLowerCaseLatin1 raw \<noteq> [] \<and>
                detectLocalCategory (norm_skill toLowerCaseLatin1 raw) = cat) ORDER \<and>
   groupedCount [(js ''Programming'', [Str (js ''JavaScript'')]),
                 (js ''Databases'', [Str (js ''PostgreSQL'')])] \<le>
     card (norm_skill toLowerCaseLatin1 `
             set [js ''JavaScript'', js ''javascript'', js ''Postgres'', js ''postgres''] - {[]}) \<and>
   (\<exists>g. groupSkillsAI (\<lambda>s. s)
           (ParsedObject [js ''Programming'' \<mapsto> JArray [js ''Go'', [], js ''Go'']]) = Inr g \<and>
        map fst g = [js ''Programming''])"
proof -
  let ?raws = "[js ''JavaScript'', js ''javascript'', js ''Postgres'', js ''postgres'']"
  let ?g = "[(js ''Programming'', [Str (js ''JavaScript'')]),
             (js ''Databases'', [Str (js ''PostgreSQL'')])]"
  let ?obj = "[js ''Programming'' \<mapsto> JArray [js ''Go'', [], js ''Go'']]"
  note t = skill_grouping_shape[where rawSkills = ?raws and lower = toLowerCaseLatin1
      and collate = "\<lambda>s. s" and engineSort = "\<lambda>vs. Throws" and obj = ?obj and n = "[]"
      and cat = "[]" and xs = "[]" and reply = PromptUnsupported and g' = "[]"]
  have h: "\<forall>raw \<in> set ?raws. norm_skill toLowerCaseLatin1 raw \<notin> set OBJECT_PROTOTYPE"
    by (rule witness_skills_plain)
  have 1: "list_all (\<lambda>raw. norm_skill toLowerCaseLatin1 raw \<notin> set OBJECT_PROTOTYPE) ?raws"
    using h unfolding list_all_iff .
  have 2: "groupSkillsLocal toLowerCaseLatin1 (\<lambda>s. s) (\<lambda>vs. Throws) ?raws = Returns ?g"
    by (rule t[THEN conjunct2, THEN conjunct2, THEN conjunct2, THEN conjunct1])
  from t[THEN conjunct1, THEN mp, OF h] obtain g where
    g: "groupSkillsLocal toLowerCaseLatin1 (\<lambda>s. s) (\<lambda>vs. Throws) ?raws = Returns g"
    and k: "map fst g = filter (\<lambda>cat. \<exists>raw \<in> set ?raws.
                norm_skill toLowerCaseLatin1 raw \<noteq> [] \<and>
                detectLocalCategory (norm_skill toLowerCaseLatin1 raw) = cat) ORDER"
    and c: "groupedCount g \<le> card (norm_skill toLowerCaseLatin1 ` set ?raws - {[]})"
    by blast
  from g 2 have e: "g = ?g" by simp
  note 3 = k[unfolded e] and 4 = c[unfolded e]
  from t[THEN conjunct2, THEN conjunct2, THEN conjunct2, THEN conjunct2, THEN conjunct1]
  obtain a where a: "groupSkillsAI (\<lambda>s. s) (ParsedObject ?obj) = Inr a"
    and ak: "map fst a = filter (\<lambda>cat. aiArray ?obj cat \<noteq> []) ORDER"
    by blast
  have 5: "\<exists>g. groupSkillsAI (\<lambda>s. s) (ParsedObject ?obj) = Inr g \<and> map fst g = [js ''Programming'']"
    by (rule exI[of _ a]) (rule conjI[OF a ak[unfolded witness_ai_keys]])
  show ?thesis by (intro conjI 1 2 3 4 5)
qed

text \<open>
  The claim fails for the sanitization step of \<open>groupSkillsAI\<close>, whatever the collation:
  two skills of a reply that are equal after case-insensitive normalization are both
  kept, and a skill that the reply lists under an unknown key is dropped, not put under
  \<open>Other\<close>.
\<close>

theorem groupSkillsAI_keeps_case_variants:
  "(\<forall>collate :: jsstring \<Rightarrow> 'k::linorder.
      \<exists>xs. groupSkillsAI collate
             (ParsedObject [js ''Programming'' \<mapsto> JArray [js ''JavaScript'', js ''javascript'']]) =
             Inr [(js ''Programming'', xs)] \<and>
           set xs = {js ''JavaScript'', js ''javascript''} \<and> length xs = 2) \<and>
   norm_skill toLowerCaseLatin1 (js ''JavaScript'') = norm_skill toLowerCaseLatin1 (js ''javascript'') \<and>
   (\<forall>collate :: jsstring \<Rightarrow> 'k::linorder.
      groupSkillsAI collate (ParsedObject [js ''Misc'' \<mapsto> JArray [js ''Foo'']]) = Inr [])"
proof (intro conjI allI)
  fix collate :: "jsstring \<Rightarrow> 'k::linorder"
  let ?obj = "[js ''Programming'' \<mapsto> JArray [js ''JavaScript'', js ''javascript'']]"
  have k: "filter (\<lambda>cat. aiArray ?obj cat \<noteq> []) ORDER = [js ''Programming'']"
    by (simp add: eval_skills)
  have v: "aiArray ?obj (js ''Programming'') = [js ''JavaScript'', js ''javascript'']"
    by (simp add: eval_skills)
  have n: "newSet [js ''JavaScript'', js ''javascript''] = [js ''JavaScript'', js ''javascript'']"
    by (simp add: newSet_def js_def)
  let ?xs = "sort_key collate [js ''JavaScript'', js ''javascript'']"
  have "groupSkillsAI collate (ParsedObject ?obj) = Inr [(js ''Programming'', ?xs)]"
    by (simp only: groupSkillsAI_def pruneBuckets_def sessionReply.case k list.map v n)
  moreover have "set ?xs = {js ''JavaScript'', js ''javascript''}" by (simp only: set_sort) simp
  moreover have "length ?xs = 2" by (simp only: length_sort) simp
  ultimately show "\<exists>xs. groupSkillsAI collate (ParsedObject ?obj) = Inr [(js ''Programming'', xs)] \<and>
           set xs = {js ''JavaScript'', js ''javascript''} \<and> length xs = 2"
    by blast
next
  show "norm_skill toLowerCaseLatin1 (js ''JavaScript'') = norm_skill toLowerCaseLatin1 (js ''javascript'')"
    by (simp add: eval_skills)
next
  fix collate :: "jsstring \<Rightarrow> 'k::linorder"
  show "groupSkillsAI collate (ParsedObject [js ''Misc'' \<mapsto> JArray [js ''Foo'']]) = Inr []"
    by (simp add: eval_skills)
qed
section \<open>The skills list\<close>

text \<open>
  C8. The claim fails on the code: the three ways into \<open>CV.skills\<close> remove duplicates
  with \<open>new Set\<close>, which compares the trimmed strings as they are. With no on-device
  model and the remote writer failing, the text \<open>Java, java\<close> is tokenized into two
  skills that are equal after case-insensitive normalization, and both are stored; the
  on-device reply with the same two skills is stored alike.
\<close>

theorem skills_keep_case_variants:
  "tokenizeSkills (js ''Java, java'') = [js ''Java'', js ''java''] \<and>
   skills (normalizeAndGroupSkills NoDeviceSkills CloudThrows (js ''Java, java'') cv1100) =
     [js ''Java'', js ''java''] \<and>
   skills (normalizeAndGroupSkills (DeviceSkills [js ''Java'', js ''java'']) CloudThrows
             (js ''Java, java'') cv1100) = [js ''Java'', js ''java''] \<and>
   norm_skill toLowerCaseLatin1 (js ''Java'') = norm_skill toLowerCaseLatin1 (js ''java'')"
proof -
  have t: "tokenizeSkills (js ''Java, java'') = [js ''Java'', js ''java'']"
    by (simp add: eval_skills)
  have a: "normalizeSkillsAI NoDeviceSkills CloudThrows (js ''Java, java'') =
      [js ''Java'', js ''java'']"
    by (simp add: eval_skills)
  have b: "normalizeSkillsAI (DeviceSkills [js ''Java'', js ''java'']) CloudThrows
      (js ''Java, java'') = [js ''Java'', js ''java'']"
    by (simp add: eval_skills)
  have n: "norm_skill toLowerCaseLatin1 (js ''Java'') = norm_skill toLowerCaseLatin1 (js ''java'')"
    by (simp add: eval_skills)
  show ?thesis
    unfolding normalizeAndGroupSkills_def using t a b n by simp
qed

text \<open>What the three ways into the skills list do guarantee: no two entries are the same
  string.\<close>

lemma tokenizeSkills_distinct: "distinct (tokenizeSkills t)"
  by (simp add: tokenizeSkills_def Let_def)

lemma normalizeSkillsAI_distinct: "distinct (normalizeSkillsAI device cloud rawText)"
  by (simp add: normalizeSkillsAI_def Let_def tokenizeSkills_distinct
      split: deviceSkills.splits cloudSkills.splits)

text \<open>A reply of the remote writer that parses to \<open>null\<close> is stored as the skill \<open>null\<close>.\<close>

lemma normalizeSkillsAI_null:
  "normalizeSkillsAI NoDeviceSkills CloudNull (js ''Java'') = [js ''null'']"
  by (simp add: eval_skills stripListMark_def isListMark_def)

section \<open>Country rule packs\<close>

lemma pushIfMissing_prefix: "prefix out (pushIfMissing lower out s)"
  by (simp add: pushIfMissing_def)

lemma pushIfMissing_has: "\<exists>x \<in> set (pushIfMissing lower out s). lower x = lower s"
  by (auto simp: pushIfMissing_def list_ex_iff)

lemma foldl_push_prefix: "prefix out (foldl (pushIfMissing lower) out need)"
proof (induction need arbitrary: out)
  case (Cons n need)
  show ?case
    using Cons[of "pushIfMissing lower out n"] pushIfMissing_prefix[of out lower n]
    by (auto intro: prefix_order.trans)
qed simp

lemma foldl_push_covers:
  "s \<in> set need \<Longrightarrow> \<exists>x \<in> set (foldl (pushIfMissing lower) out need). lower x = lower s"
proof (induction need arbitrary: out)
  case (Cons n need)
  show ?case
  proof (cases "s = n")
    case True
    obtain x where x: "x \<in> set (pushIfMissing lower out n)" "lower x = lower n"
      using pushIfMissing_has[of lower out n] by blast
    have "set (pushIfMissing lower out n) \<subseteq>
          set (foldl (pushIfMissing lower) (pushIfMissing lower out n) need)"
      using foldl_push_prefix[of "pushIfMissing lower out n" lower need] by (rule set_prefix)
    then show ?thesis using x True by auto
  next
    case False
    then show ?thesis using Cons.prems Cons.IH[of "pushIfMissing lower out n"] by simp
  qed
qed simp

text \<open>After \<open>ensureExtras\<close> each of the four fixed section names is in the list, compared
  after \<open>toLowerCase\<close>, and the given list is its beginning.\<close>

lemma ensureExtras_covers:
  "s \<in> set EXTRA_SECTIONS \<Longrightarrow> \<exists>x \<in> set (ensureExtras lower arr). lower x = lower s"
  unfolding ensureExtras_def by (rule foldl_push_covers)

lemma ensureExtras_prefix: "prefix arr (ensureExtras lower arr)"
  unfolding ensureExtras_def by (rule foldl_push_prefix)

text \<open>A fetch that fails leaves both variables as they are. A fetch that succeeds writes
  a pack whose sections hold the four fixed names; without a \<open>section_order\<close> they are
  the sections that \<open>DEFAULT_PACKS\<close> holds at that moment for the country (those of the UK
  for a country it does not list), with the missing names appended.\<close>

lemma update_failure: "updateCountryPackFromGemini lower country Throws st = st"
  by (simp add: updateCountryPackFromGemini_def)

lemma update_success:
  assumes "DEFAULT_PACKS st (js ''UK'') \<noteq> None"
  shows "\<exists>p. countryPacks (updateCountryPackFromGemini lower country (Returns spec) st) country = Some p \<and>
           (\<forall>s \<in> set EXTRA_SECTIONS. \<exists>x \<in> set (sections p). lower x = lower s) \<and>
           (section_order spec = None \<or> section_order spec = Some [] \<longrightarrow>
              sections p = ensureExtras lower
                (case DEFAULT_PACKS st country of
                   Some d \<Rightarrow> sections d
                 | None \<Rightarrow> sections (the (DEFAULT_PACKS st (js ''UK'')))))"
proof -
  obtain base where b: "(case DEFAULT_PACKS st country of
                   Some d \<Rightarrow> Some (sections d)
                 | None \<Rightarrow> map_option sections (DEFAULT_PACKS st (js ''UK''))) = Some base"
    and b': "base = (case DEFAULT_PACKS st country of
                   Some d \<Rightarrow> sections d
                 | None \<Rightarrow> sections (the (DEFAULT_PACKS st (js ''UK''))))"
    using assms by (auto split: option.splits)
  let ?p = "resolvedPack lower (DEFAULT_PACKS st country) base spec"
  have c: "countryPacks (updateCountryPackFromGemini lower country (Returns spec) st) country = Some ?p"
    by (simp add: updateCountryPackFromGemini_def b Let_def)
  have "\<exists>arr. sections ?p = ensureExtras lower arr" by (auto simp: resolvedPack_def)
  then have e: "\<forall>s \<in> set EXTRA_SECTIONS. \<exists>x \<in> set (sections ?p). lower x = lower s"
    using ensureExtras_covers[of _ lower] by auto
  have m: "section_order spec = None \<or> section_order spec = Some [] \<longrightarrow>
      sections ?p = ensureExtras lower base"
    by (auto simp: resolvedPack_def)
  show ?thesis using c e m unfolding b' by blast
qed

text \<open>
  C9. The claim fails on the code when \<open>countryPacks\<close> is the same object as
  \<open>DEFAULT_PACKS\<close>, which it is from the start and as long as no pack file has been
  loaded: a resolution then overwrites the built-in default of the country. After a
  first spec for DE with the section order \<open>Profil\<close>, a second spec without
  \<open>section_order\<close> resolves to that earlier list, not to the built-in German list with
  the four names appended.
\<close>

theorem update_overwrites_builtin_default:
  "map_option sections
     (countryPacks
        (updateCountryPackFromGemini toLowerCaseLatin1 (js ''DE'') (Returns specWithoutOrder)
           (updateCountryPackFromGemini toLowerCaseLatin1 (js ''DE'') (Returns specWithOrder)
              (initialStore None)))
        (js ''DE'')) =
     Some [js ''Profil'', js ''Projects'', js ''Certifications'', js ''Publications'', js ''Patents''] \<and>
   map_option sections (map_of BUILTIN_PACKS (js ''DE'')) = Some germanSections \<and>
   ensureExtras toLowerCaseLatin1 germanSections =
     germanSections @ [js ''Projects'', js ''Certifications'', js ''Publications'', js ''Patents'']"
  by (simp add: updateCountryPackFromGemini_def initialStore_def BUILTIN_PACKS_def
      resolvedPack_def ensureExtras_def pushIfMissing_def EXTRA_SECTIONS_def specWithOrder_def
      specWithoutOrder_def germanSections_def toLowerCaseLatin1_def js_def Let_def)

text \<open>With a pack file loaded the two variables are different objects, and the same two
  resolutions end with the built-in German list and the four names.\<close>

lemma update_keeps_builtin_default_when_loaded:
  "map_option sections
     (countryPacks
        (updateCountryPackFromGemini toLowerCaseLatin1 (js ''DE'') (Returns specWithoutOrder)
           (updateCountryPackFromGemini toLowerCaseLatin1 (js ''DE'') (Returns specWithOrder)
              (initialStore (Some (map_of BUILTIN_PACKS)))))
        (js ''DE'')) =
     Some (germanSections @
       [js ''Projects'', js ''Certifications'', js ''Publications'', js ''Patents''])"
  by (simp add: updateCountryPackFromGemini_def initialStore_def BUILTIN_PACKS_def
      resolvedPack_def ensureExtras_def pushIfMissing_def EXTRA_SECTIONS_def specWithOrder_def
      specWithoutOrder_def germanSections_def toLowerCaseLatin1_def js_def Let_def)

end
